(* ===== verification/Wicket_Prelude.thy ===== *)
theory Wicket_Prelude
  imports
    Main
    "HOL-Library.Word"
    "HOL-Library.Monad_Syntax"
    "HOL-Library.AList" "HOL-Library.Multiset"
    "HOL-Library.Sublist"
    "HOL-Library.Char_ord"
    "HOL-Library.List_Lexorder"
    "HOL-Library.Product_Lexorder"
    "HOL-Library.Option_ord"
begin

text \<open>
  Shared vocabulary of the development: machine integers, Rust's string and collection
  primitives as far as the modelled crates use them, the result type, and the generic
  lemmas and interfaces (locales) the component theories build on.

  Conventions.
  \<^item> A Rust \<^verbatim>\<open>String\<close>/\<^verbatim>\<open>&str\<close> is a \<^typ>\<open>string\<close> whose characters are the bytes of its UTF-8
    encoding, so \<^term>\<open>length\<close> is Rust's \<^verbatim>\<open>len()\<close>. Case conversion is the ASCII one: it agrees
    with \<^verbatim>\<open>to_ascii_lowercase\<close> everywhere and with \<^verbatim>\<open>to_lowercase\<close>/\<^verbatim>\<open>to_uppercase\<close> on ASCII text
    (host names, methods and header names on the wire are ASCII).
  \<^item> A \<^verbatim>\<open>HashMap\<close>/\<^verbatim>\<open>BTreeMap\<close> is an association list. The order of the list is the order in
    which the code would iterate; theorems about hash maps quantify over all such orders.
  \<^item> \<^verbatim>\<open>Result<T, E>\<close> is \<^typ>\<open>'e + 'a\<close> with the error on the left.
\<close>

named_theorems str_simps \<open>characterisations of the string primitives\<close>
named_theorems hm_simps \<open>characterisations of the hash map primitives\<close>

section \<open>Machine integers\<close>

type_synonym u8 = "8 word"
type_synonym u16 = "16 word"
type_synonym u32 = "32 word"
type_synonym u64 = "64 word"

type_synonym usize = "64 word"

definition u16_from_be_bytes :: "u8 \<Rightarrow> u8 \<Rightarrow> u16" where
  "u16_from_be_bytes a b = ucast a * 256 + ucast b"

definition u32_from_be_bytes :: "u8 \<Rightarrow> u8 \<Rightarrow> u8 \<Rightarrow> u8 \<Rightarrow> u32" where
  "u32_from_be_bytes a b c d = ((ucast a * 256 + ucast b) * 256 + ucast c) * 256 + ucast d"

definition u16_to_be_bytes :: "u16 \<Rightarrow> u8 list" where
  "u16_to_be_bytes w = [ucast (drop_bit 8 w), ucast w]"

definition saturating_sub :: "('a::len) word \<Rightarrow> 'a word \<Rightarrow> 'a word" where
  "saturating_sub a b = (if b \<le> a then a - b else 0)"

lemma unat_u8_bound: "unat (b :: u8) < 256"
  using unsigned_less [of b] by simp

lemma unat_u16_bound: "unat (w :: u16) < 65536"
  using unsigned_less [of w] by simp

lemma unat_u16_from_be_bytes: "unat (u16_from_be_bytes a b) = unat a * 256 + unat b"
  using unat_u8_bound [of a] unat_u8_bound [of b]
  by (simp add: u16_from_be_bytes_def unat_word_ariths unsigned_ucast_eq take_bit_eq_mod)

lemma unat_u32_from_be_bytes0:
  "unat (u32_from_be_bytes 0 b c d) = (unat b * 256 + unat c) * 256 + unat d"
  using unat_u8_bound [of b] unat_u8_bound [of c] unat_u8_bound [of d]
  by (simp add: u32_from_be_bytes_def unat_word_ariths unsigned_ucast_eq take_bit_eq_mod)

lemma u16_from_to_be_bytes:
  "u16_from_be_bytes (ucast (drop_bit 8 (w :: u16))) (ucast w) = w"
proof -
  have hi: "unat (ucast (drop_bit 8 w) :: u8) = unat w div 256"
    using unat_u16_bound [of w]
    by (simp add: unsigned_ucast_eq take_bit_eq_mod drop_bit_eq_div unat_div)
  have lo: "unat (ucast w :: u8) = unat w mod 256"
    by (simp add: unsigned_ucast_eq take_bit_eq_mod)
  have "unat (u16_from_be_bytes (ucast (drop_bit 8 w)) (ucast w)) = unat w"
    by (simp add: unat_u16_from_be_bytes hi lo)
  then show ?thesis by (simp only: word_unat_eq_iff)
qed

section \<open>Results and options\<close>

abbreviation Ok :: "'a \<Rightarrow> 'e + 'a" where "Ok \<equiv> Inr"
abbreviation Err :: "'e \<Rightarrow> 'e + 'a" where "Err \<equiv> Inl"

definition is_ok :: "'e + 'a \<Rightarrow> bool" where
  "is_ok r = (case r of Inl _ \<Rightarrow> False | Inr _ \<Rightarrow> True)"

lemma is_ok_simps [simp]: "is_ok (Inr x)" "\<not> is_ok (Inl e)"
  by (simp_all add: is_ok_def)

lemma is_ok_iff: "is_ok r \<longleftrightarrow> (\<exists>x. r = Inr x)"
  by (cases r) auto

text \<open>The \<open>?\<close> operator: return the error early or go on with the value.\<close>

definition and_then :: "'e + 'a \<Rightarrow> ('a \<Rightarrow> 'e + 'b) \<Rightarrow> 'e + 'b" where
  "and_then r f = (case r of Inl e \<Rightarrow> Inl e | Inr x \<Rightarrow> f x)"

lemma and_then_simps [simp]:
  "and_then (Inl e) f = Inl e" "and_then (Inr x) f = f x"
  by (simp_all add: and_then_def)

lemma and_then_Ok_iff: "and_then r f = Inr y \<longleftrightarrow> (\<exists>x. r = Inr x \<and> f x = Inr y)"
  by (cases r) auto

lemma is_ok_and_then: "is_ok (and_then r f) \<longleftrightarrow> (\<exists>x. r = Inr x \<and> is_ok (f x))"
  by (cases r) auto

text \<open>\<^verbatim>\<open>bail!\<close> guarded by a condition.\<close>

definition bail_if :: "bool \<Rightarrow> 'e \<Rightarrow> 'e + unit" where
  "bail_if c e = (if c then Inl e else Inr ())"

lemma bail_if_Ok [simp]: "bail_if c e = Inr u \<longleftrightarrow> \<not> c"
  by (simp add: bail_if_def)

lemma bail_if_Err [simp]: "bail_if c e = Inl e' \<longleftrightarrow> c \<and> e' = e"
  by (auto simp: bail_if_def)

text \<open>A \<^verbatim>\<open>for\<close> loop whose body may return early with an error.\<close>

fun try_each :: "('a \<Rightarrow> 'e + unit) \<Rightarrow> 'a list \<Rightarrow> 'e + unit" where
  "try_each f [] = Inr ()"
| "try_each f (x # xs) = and_then (f x) (\<lambda>_. try_each f xs)"

lemma try_each_Ok_iff: "try_each f xs = Inr () \<longleftrightarrow> (\<forall>x\<in>set xs. f x = Inr ())"
  by (induction xs) (auto simp: and_then_Ok_iff)

lemma try_each_Err: "try_each f xs = Inl e \<Longrightarrow> \<exists>x\<in>set xs. f x = Inl e"
proof (induction xs)
  case (Cons x xs)
  then show ?case by (cases "f x") auto
qed simp

text \<open>\<^verbatim>\<open>iter().map(f).collect::<Result<Vec<_>, _>>()\<close>: stop at the first error.\<close>

fun try_map :: "('a \<Rightarrow> 'e + 'b) \<Rightarrow> 'a list \<Rightarrow> 'e + 'b list" where
  "try_map f [] = Inr []"
| "try_map f (x # xs) =
     and_then (f x) (\<lambda>y. and_then (try_map f xs) (\<lambda>ys. Inr (y # ys)))"

lemma try_map_Ok_iff: "try_map f xs = Inr ys \<longleftrightarrow> list_all2 (\<lambda>x y. f x = Inr y) xs ys"
  by (induction xs arbitrary: ys) (auto simp: and_then_Ok_iff list_all2_Cons1)

lemma try_map_length: "try_map f xs = Inr ys \<Longrightarrow> length ys = length xs"
  by (auto simp: try_map_Ok_iff dest: list_all2_lengthD)

lemma try_map_set:
  "try_map f xs = Inr ys \<Longrightarrow> y \<in> set ys \<Longrightarrow> \<exists>x\<in>set xs. f x = Inr y"
  by (force simp: try_map_Ok_iff list_all2_conv_all_nth in_set_conv_nth)

lemma is_ok_try_map: "is_ok (try_map f xs) \<longleftrightarrow> (\<forall>x\<in>set xs. is_ok (f x))"
  by (induction xs) (auto simp: is_ok_iff and_then_Ok_iff)

definition unwrap_or :: "'a option \<Rightarrow> 'a \<Rightarrow> 'a" where
  "unwrap_or opt d = (case opt of None \<Rightarrow> d | Some x \<Rightarrow> x)"

lemma unwrap_or_simps [simp]: "unwrap_or None d = d" "unwrap_or (Some x) d = x"
  by (simp_all add: unwrap_or_def)

section \<open>String primitives\<close>

fun strip_prefix :: "'a list \<Rightarrow> 'a list \<Rightarrow> 'a list option" where
  "strip_prefix [] s = Some s"
| "strip_prefix (p # ps) [] = None"
| "strip_prefix (p # ps) (c # cs) = (if p = c then strip_prefix ps cs else None)"

lemma strip_prefix_Some [str_simps]: "strip_prefix p s = Some r \<longleftrightarrow> s = p @ r"
  by (induction p s rule: strip_prefix.induct) auto

lemma strip_prefix_None [str_simps]: "strip_prefix p s = None \<longleftrightarrow> (\<forall>r. s \<noteq> p @ r)"
  using strip_prefix_Some [of p s] by (metis option.exhaust option.distinct(1))

lemma strip_prefix_append [simp]: "strip_prefix p (p @ r) = Some r"
  by (simp add: strip_prefix_Some)

definition strip_suffix :: "'a list \<Rightarrow> 'a list \<Rightarrow> 'a list option" where
  "strip_suffix p s = map_option rev (strip_prefix (rev p) (rev s))"

lemma strip_suffix_Some [str_simps]: "strip_suffix p s = Some r \<longleftrightarrow> s = r @ p"
  by (auto simp: strip_suffix_def strip_prefix_Some rev_swap)

lemma strip_suffix_None [str_simps]: "strip_suffix p s = None \<longleftrightarrow> (\<forall>r. s \<noteq> r @ p)"
  using strip_suffix_Some [of p s] by (metis option.exhaust option.distinct(1))

lemma strip_suffix_append [simp]: "strip_suffix p (r @ p) = Some r"
  by (simp add: strip_suffix_Some)

definition starts_with :: "'a list \<Rightarrow> 'a list \<Rightarrow> bool" where
  "starts_with s p = (strip_prefix p s \<noteq> None)"

definition ends_with :: "'a list \<Rightarrow> 'a list \<Rightarrow> bool" where
  "ends_with s p = (strip_suffix p s \<noteq> None)"

lemma starts_with_iff [str_simps]: "starts_with s p \<longleftrightarrow> (\<exists>r. s = p @ r)"
  by (auto simp: starts_with_def strip_prefix_None)

lemma ends_with_iff [str_simps]: "ends_with s p \<longleftrightarrow> (\<exists>r. s = r @ p)"
  by (auto simp: ends_with_def strip_suffix_None)

text \<open>\<^verbatim>\<open>split_once\<close> at the first occurrence of a separator.\<close>

fun split_once :: "'a \<Rightarrow> 'a list \<Rightarrow> ('a list \<times> 'a list) option" where
  "split_once c [] = None"
| "split_once c (x # xs) =
     (if x = c then Some ([], xs)
      else map_option (\<lambda>(a, b). (x # a, b)) (split_once c xs))"

lemma split_once_Some [str_simps]:
  "split_once c s = Some (a, b) \<longleftrightarrow> s = a @ c # b \<and> c \<notin> set a"
proof (induction s arbitrary: a)
  case (Cons x xs)
  then show ?case by (cases a) auto
qed simp

lemma split_once_None [str_simps]: "split_once c s = None \<longleftrightarrow> c \<notin> set s"
  by (induction s) auto

lemma split_once_append [simp]: "c \<notin> set a \<Longrightarrow> split_once c (a @ c # b) = Some (a, b)"
  by (simp add: split_once_Some)

text \<open>\<^verbatim>\<open>split(c).next()\<close>: everything before the first separator.\<close>

definition split_first :: "'a \<Rightarrow> 'a list \<Rightarrow> 'a list" where
  "split_first c s = takeWhile (\<lambda>x. x \<noteq> c) s"

lemma split_first_no_sep [simp]: "c \<notin> set s \<Longrightarrow> split_first c s = s"
  by (auto simp: split_first_def takeWhile_eq_all_conv)

lemma split_first_append [simp]: "c \<notin> set s \<Longrightarrow> split_first c (s @ c # t) = s"
  by (auto simp: split_first_def takeWhile_append)

lemma sep_notin_split_first [simp]: "c \<notin> set (split_first c s)"
  by (auto simp: split_first_def dest: set_takeWhileD)

definition trim_end_matches :: "'a \<Rightarrow> 'a list \<Rightarrow> 'a list" where
  "trim_end_matches c s = rev (dropWhile (\<lambda>x. x = c) (rev s))"

text \<open>ASCII case conversion, byte by byte.\<close>

definition ascii_lower :: "char \<Rightarrow> char" where
  "ascii_lower c = (if 65 \<le> (of_char c :: nat) \<and> (of_char c :: nat) \<le> 90
     then char_of ((of_char c :: nat) + 32) else c)"

definition ascii_upper :: "char \<Rightarrow> char" where
  "ascii_upper c = (if 97 \<le> (of_char c :: nat) \<and> (of_char c :: nat) \<le> 122
     then char_of ((of_char c :: nat) - 32) else c)"

definition to_lowercase :: "string \<Rightarrow> string" where
  "to_lowercase s = map ascii_lower s"

definition to_uppercase :: "string \<Rightarrow> string" where
  "to_uppercase s = map ascii_upper s"

lemma of_char_ascii_lower:
  "(of_char (ascii_lower c) :: nat) =
     (if 65 \<le> (of_char c :: nat) \<and> (of_char c :: nat) \<le> 90 then of_char c + 32 else of_char c)"
  by (simp add: ascii_lower_def of_char_of)

lemma ascii_lower_idem [simp]: "ascii_lower (ascii_lower c) = ascii_lower c"
  unfolding ascii_lower_def [of "ascii_lower c"] by (auto simp: of_char_ascii_lower)

lemma ascii_lower_eq_iff:
  assumes "\<not> (97 \<le> (of_char d :: nat) \<and> (of_char d :: nat) \<le> 122)"
    and "\<not> (65 \<le> (of_char d :: nat) \<and> (of_char d :: nat) \<le> 90)"
  shows "ascii_lower c = d \<longleftrightarrow> c = d"
proof
  assume "ascii_lower c = d"
  then have "(of_char (ascii_lower c) :: nat) = of_char d" by simp
  with assms show "c = d"
    using \<open>ascii_lower c = d\<close> by (auto simp: of_char_ascii_lower ascii_lower_def split: if_splits)
next
  assume "c = d"
  with assms show "ascii_lower c = d" by (auto simp: ascii_lower_def)
qed

lemma to_lowercase_idem [simp]: "to_lowercase (to_lowercase s) = to_lowercase s"
  by (simp add: to_lowercase_def)

lemma length_to_lowercase [simp]: "length (to_lowercase s) = length s"
  by (simp add: to_lowercase_def)

lemma to_lowercase_append [simp]: "to_lowercase (s @ t) = to_lowercase s @ to_lowercase t"
  by (simp add: to_lowercase_def)

lemma to_lowercase_Nil_iff [simp]: "to_lowercase s = [] \<longleftrightarrow> s = []"
  by (simp add: to_lowercase_def)

lemma to_lowercase_Nil [simp]: "to_lowercase [] = []"
  by (simp add: to_lowercase_def)

lemma to_lowercase_Cons: "to_lowercase (c # s) = ascii_lower c # to_lowercase s"
  by (simp add: to_lowercase_def)

lemma dot_in_to_lowercase [simp]: "CHR ''.'' \<in> set (to_lowercase s) \<longleftrightarrow> CHR ''.'' \<in> set s"
  by (auto simp: to_lowercase_def image_iff ascii_lower_eq_iff [of "CHR ''.''"] eq_commute [of "CHR ''.''"])

lemma ascii_lower_dot [simp]: "ascii_lower (CHR ''.'') = CHR ''.''"
  by (simp add: ascii_lower_def)

lemma ascii_lower_star [simp]: "ascii_lower (CHR ''*'') = CHR ''*''"
  by (simp add: ascii_lower_def)

section \<open>Hash maps\<close>

type_synonym ('k, 'v) hashmap = "('k \<times> 'v) list"

definition hm_get :: "('k, 'v) hashmap \<Rightarrow> 'k \<Rightarrow> 'v option" where
  "hm_get m k = map_of m k"

definition hm_insert :: "'k \<Rightarrow> 'v \<Rightarrow> ('k, 'v) hashmap \<Rightarrow> ('k, 'v) hashmap" where
  "hm_insert k v m = AList.update k v m"

definition hm_remove :: "'k \<Rightarrow> ('k, 'v) hashmap \<Rightarrow> ('k, 'v) hashmap" where
  "hm_remove k m = AList.delete k m"

definition hm_keys :: "('k, 'v) hashmap \<Rightarrow> 'k list" where
  "hm_keys m = map fst m"

definition hm_values :: "('k, 'v) hashmap \<Rightarrow> 'v list" where
  "hm_values m = map snd m"

definition hm_contains :: "('k, 'v) hashmap \<Rightarrow> 'k \<Rightarrow> bool" where
  "hm_contains m k = (hm_get m k \<noteq> None)"

text \<open>No key occurs twice: what every Rust map guarantees.\<close>

definition hm_ok :: "('k, 'v) hashmap \<Rightarrow> bool" where
  "hm_ok m = distinct (map fst m)"

lemma hm_get_Nil [simp]: "hm_get [] k = None"
  by (simp add: hm_get_def)

lemma hm_ok_Nil [simp]: "hm_ok []"
  by (simp add: hm_ok_def)

lemma hm_get_insert [hm_simps]: "hm_get (hm_insert k v m) = (hm_get m)(k \<mapsto> v)"
  by (simp add: hm_get_def hm_insert_def update_conv' fun_eq_iff)

lemma hm_get_remove [hm_simps]: "hm_get (hm_remove k m) = (hm_get m)(k := None)"
  by (simp add: hm_get_def hm_remove_def delete_conv' fun_eq_iff)

lemma hm_ok_insert [simp]: "hm_ok m \<Longrightarrow> hm_ok (hm_insert k v m)"
  by (simp add: hm_ok_def hm_insert_def distinct_update)

lemma hm_ok_remove [simp]: "hm_ok m \<Longrightarrow> hm_ok (hm_remove k m)"
  by (simp add: hm_ok_def hm_remove_def distinct_delete)

lemma hm_contains_iff [hm_simps]: "hm_contains m k \<longleftrightarrow> k \<in> fst ` set m"
  by (auto simp: hm_contains_def hm_get_def map_of_eq_None_iff)

lemma hm_get_in_set: "hm_get m k = Some v \<Longrightarrow> (k, v) \<in> set m"
  by (auto simp: hm_get_def dest: map_of_SomeD)

lemma hm_get_Some_iff: "hm_ok m \<Longrightarrow> hm_get m k = Some v \<longleftrightarrow> (k, v) \<in> set m"
  by (auto simp: hm_get_def hm_ok_def dest: map_of_SomeD)

text \<open>Two iteration orders of one map look the same through \<^const>\<open>hm_get\<close>.\<close>

lemma hm_get_perm:
  assumes "hm_ok m" "hm_ok m'" "set m = set m'"
  shows "hm_get m = hm_get m'"
proof
  fix k
  show "hm_get m k = hm_get m' k"
    using assms hm_get_Some_iff [of m k] hm_get_Some_iff [of m' k]
    by (cases "hm_get m k"; cases "hm_get m' k") auto
qed

section \<open>Interfaces shared by several components\<close>

text \<open>
  A map provider: what the clients of a \<^verbatim>\<open>HashMap\<close> rely on.
\<close>

locale map_provider =
  fixes empty :: 'm
    and get :: "'m \<Rightarrow> 'k \<Rightarrow> 'v option"
    and insert :: "'k \<Rightarrow> 'v \<Rightarrow> 'm \<Rightarrow> 'm"
    and remove :: "'k \<Rightarrow> 'm \<Rightarrow> 'm"
    and ok :: "'m \<Rightarrow> bool"
  assumes get_empty: "get empty k = None"
    and get_insert: "get (insert k v m) = (get m)(k \<mapsto> v)"
    and get_remove: "get (remove k m) = (get m)(k := None)"
    and ok_empty: "ok empty"
    and ok_insert: "ok m \<Longrightarrow> ok (insert k v m)"
    and ok_remove: "ok m \<Longrightarrow> ok (remove k m)"
begin

lemma insert_then_get: "get (insert k v m) k = Some v"
  by (simp add: get_insert)

lemma insert_other: "k' \<noteq> k \<Longrightarrow> get (insert k v m) k' = get m k'"
  by (simp add: get_insert)

lemma remove_insert: "get (remove k (insert k v m)) = get (remove k m)"
  by (simp add: get_insert get_remove)

lemma get_fold_insert:
  "get (fold (\<lambda>(k, v). insert k v) kvs m) k =
     (case map_of (rev kvs) k of None \<Rightarrow> get m k | Some v \<Rightarrow> Some v)"
  by (induction kvs arbitrary: m)
     (auto simp: get_insert map_add_Some_iff split: option.splits)

lemma ok_fold_insert: "ok m \<Longrightarrow> ok (fold (\<lambda>(k, v). insert k v) kvs m)"
  by (induction kvs arbitrary: m) (auto simp: ok_insert)

end

interpretation hm: map_provider "[]" hm_get hm_insert hm_remove hm_ok
  by unfold_locales (simp_all add: hm_simps)

text \<open>
  \<^verbatim>\<open>str::trim\<close> on UTF-8 bytes: \<^verbatim>\<open>strip_ws\<close> drops one leading character of the Unicode class
  White_Space (U+0009-000D, 20, 85, A0, 1680, 2000-200A, 2028, 2029, 202F, 205F, 3000).
\<close>

definition strip_ws :: "string \<Rightarrow> string option" where
  "strip_ws s =
     (case map of_char s :: nat list of
        [] \<Rightarrow> None
      | a # as \<Rightarrow>
          if 9 \<le> a \<and> a \<le> 13 \<or> a = 32 then Some (drop 1 s)
          else
            (case as of
               [] \<Rightarrow> None
             | b # bs \<Rightarrow>
                 if a = 0xC2 \<and> (b = 0x85 \<or> b = 0xA0) then Some (drop 2 s)
                 else
                   (case bs of
                      [] \<Rightarrow> None
                    | c # _ \<Rightarrow>
                        if (a = 0xE1 \<and> b = 0x9A \<and> c = 0x80) \<or>
                           (a = 0xE2 \<and> b = 0x80 \<and> (0x80 \<le> c \<and> c \<le> 0x8A \<or> c = 0xA8 \<or> c = 0xA9 \<or> c = 0xAF)) \<or>
                           (a = 0xE2 \<and> b = 0x81 \<and> c = 0x9F) \<or> (a = 0xE3 \<and> b = 0x80 \<and> c = 0x80)
                        then Some (drop 3 s) else None)))"

lemma strip_ws_shorter: "strip_ws s = Some r \<Longrightarrow> length r < length s"
  by (auto simp: strip_ws_def split: list.splits if_splits)

function trim_start :: "string \<Rightarrow> string" where
  "trim_start s = (case strip_ws s of Some r \<Rightarrow> trim_start r | None \<Rightarrow> s)"
  by auto
termination by (relation "measure length") (auto dest: strip_ws_shorter)

declare trim_start.simps [simp del]

fun trim_end :: "string \<Rightarrow> string" where
  "trim_end [] = []"
| "trim_end (c # cs) = (if trim_start (c # cs) = [] then [] else c # trim_end cs)"

definition trim :: "string \<Rightarrow> string" where
  "trim s = trim_end (trim_start s)"

lemma trim_start_no_ws: "strip_ws s = None \<Longrightarrow> trim_start s = s"
  by (simp add: trim_start.simps [of s])

lemma trim_empty_iff: "trim s = [] \<longleftrightarrow> trim_start s = []"
proof -
  have "trim_start (trim_start s) = trim_start s"
  proof (induction s rule: trim_start.induct)
    case (1 s)
    then show ?case
      by (cases "strip_ws s") (simp_all add: trim_start.simps [of s])
  qed
  then show ?thesis unfolding trim_def by (cases "trim_start s") auto
qed

text \<open>A string in single quotes, as the error messages print names.\<close>

definition quoted :: "string \<Rightarrow> string" where
  "quoted s = CHR 0x27 # s @ [CHR 0x27]"

text \<open>
  \<^verbatim>\<open>slice::sort_by\<close> is a stable sort by a comparison function. Where the comparison is the
  order of a key, it is the library's stable \<^const>\<open>sort_key\<close>.
\<close>

datatype ordering = Less | Equal | Greater

definition cmp :: "'a::linorder \<Rightarrow> 'a \<Rightarrow> ordering" where
  "cmp a b = (if a < b then Less else if a = b then Equal else Greater)"

fun then_with :: "ordering \<Rightarrow> ordering \<Rightarrow> ordering" where
  "then_with Equal c = c"
| "then_with c _ = c"

fun insert_by :: "('a \<Rightarrow> 'a \<Rightarrow> ordering) \<Rightarrow> 'a \<Rightarrow> 'a list \<Rightarrow> 'a list" where
  "insert_by c x [] = [x]"
| "insert_by c x (y # ys) = (if c x y \<noteq> Greater then x # y # ys else y # insert_by c x ys)"

definition sort_by :: "('a \<Rightarrow> 'a \<Rightarrow> ordering) \<Rightarrow> 'a list \<Rightarrow> 'a list" where
  "sort_by c xs = foldr (insert_by c) xs []"

lemma sort_by_sort_key:
  assumes "\<And>x y. c x y \<noteq> Greater \<longleftrightarrow> key x \<le> key y"
  shows "sort_by c xs = sort_key key xs"
proof -
  have ins: "insert_by c x ys = insort_key key x ys" for x ys
    using assms by (induction ys) auto
  show ?thesis unfolding sort_by_def by (induction xs) (simp_all add: ins)
qed

lemma option_eqI: "(\<And>u. x = Some u \<longleftrightarrow> y = Some u) \<Longrightarrow> x = y"
  by (cases x; cases y) auto

lemma find_conj_filter: "find (\<lambda>y. P y \<and> Q y) xs = find P (filter Q xs)"
  by (induction xs) auto

lemma find_sort_key:
  "find (\<lambda>y. P y \<and> key y = a) (sort_key key xs) = find (\<lambda>y. P y \<and> key y = a) xs"
  by (simp add: find_conj_filter sort_key_stable)

lemma find_two_keys:
  assumes "sorted (map key ys)" "a < b" "\<And>y. y \<in> set ys \<Longrightarrow> P y \<Longrightarrow> key y = a \<or> key y = b"
  shows "find P ys = (case find (\<lambda>y. P y \<and> key y = a) ys of
    Some y \<Rightarrow> Some y | None \<Rightarrow> find (\<lambda>y. P y \<and> key y = b) ys)"
  using assms
proof (induction ys)
  case (Cons y ys)
  show ?case
  proof (cases "P y \<and> key y = b")
    case True
    with Cons.prems(1,2) have "find (\<lambda>y. P y \<and> key y = a) (y # ys) = None"
      by (auto simp: find_None_iff)
    with True show ?thesis by simp
  next
    case False
    with Cons show ?thesis by (auto split: option.splits)
  qed
qed simp

lemma find_cong_P: "(\<And>x. x \<in> set xs \<Longrightarrow> P x = Q x) \<Longrightarrow> find P xs = find Q xs"
  by (induction xs) auto

lemma find_map_option: "find P (map f xs) = map_option f (find (\<lambda>x. P (f x)) xs)"
  by (induction xs) auto

text \<open>
  A transition system whose steps keep an invariant: every state reached from a good
  state by a list of events is good, and a step-monotone observation only grows.
\<close>

locale invariant_machine =
  fixes step :: "'s \<Rightarrow> 'e \<Rightarrow> 's"
    and allowed :: "'e \<Rightarrow> bool"
    and inv :: "'s \<Rightarrow> bool"
  assumes step_inv: "inv s \<Longrightarrow> allowed e \<Longrightarrow> inv (step s e)"
begin

lemma run_inv: "inv s \<Longrightarrow> list_all allowed es \<Longrightarrow> inv (foldl step s es)"
  by (induction es arbitrary: s) (auto simp: step_inv)

lemma run_stable:
  assumes "\<And>s e. inv s \<Longrightarrow> allowed e \<Longrightarrow> P s \<Longrightarrow> P (step s e)" "inv s" "list_all allowed es" "P s"
  shows "P (foldl step s es)"
  using assms(2-) by (induction es arbitrary: s) (auto simp: step_inv assms(1))

end

text \<open>
  First-match routing: an ordered table of rules is scanned and the first rule that
  accepts the key wins. Both the SNI router and the HTTP router work this way.
\<close>

locale first_match =
  fixes matches :: "'rule \<Rightarrow> 'key \<Rightarrow> bool"
    and lookup :: "'rule list \<Rightarrow> 'key \<Rightarrow> 'rule option"
  assumes lookup_Nil: "lookup [] k = None"
    and lookup_Cons: "lookup (r # rs) k = (if matches r k then Some r else lookup rs k)"
begin

lemma lookup_find: "lookup rs k = find (\<lambda>r. matches r k) rs"
  by (induction rs) (simp_all add: lookup_Nil lookup_Cons)

lemma lookup_sound: "lookup rs k = Some r \<Longrightarrow> r \<in> set rs \<and> matches r k"
  by (auto simp: lookup_find find_Some_iff)

lemma lookup_None_iff: "lookup rs k = None \<longleftrightarrow> (\<forall>r\<in>set rs. \<not> matches r k)"
  by (auto simp: lookup_find find_None_iff)

lemma lookup_first:
  "lookup rs k = Some r \<longleftrightarrow>
     (\<exists>i<length rs. rs ! i = r \<and> matches r k \<and> (\<forall>j<i. \<not> matches (rs ! j) k))"
  by (auto simp: lookup_find find_Some_iff)

lemma lookup_append:
  "lookup (rs @ rs') k = (case lookup rs k of None \<Rightarrow> lookup rs' k | Some r \<Rightarrow> Some r)"
  by (induction rs) (auto simp: lookup_Nil lookup_Cons)

lemma lookup_unique:
  assumes "r \<in> set rs" "matches r k"
    and "\<And>r'. r' \<in> set rs \<Longrightarrow> matches r' k \<Longrightarrow> f r' = f r"
  shows "map_option f (lookup rs k) = Some (f r)"
proof -
  from assms(1,2) obtain r' where r': "lookup rs k = Some r'"
    using lookup_None_iff [of rs k] by (cases "lookup rs k") auto
  with assms(3) lookup_sound [OF r'] show ?thesis by simp
qed

end

end
