(* ===== verification/Sni.thy ===== *)
theory Sni
  imports Wicket_Prelude
begin

text \<open>
  The ClientHello parser of \<^verbatim>\<open>crates/wicket-stream/src/sni.rs\<close>. A \<^verbatim>\<open>Cursor<&[u8]>\<close> is a
  buffer and a position; the helpers return the value read and the new position, or
  \<^term>\<open>None\<close> where the code returns \<^verbatim>\<open>None\<close>. Positions and lengths are \<^typ>\<open>nat\<close>: every sum
  the code forms is a buffer offset plus a field of at most 24 bits, far below the range
  of \<^verbatim>\<open>usize\<close>.
\<close>

section \<open>Constants and cursor helpers\<close>

definition MIN_TLS_HEADER :: nat where "MIN_TLS_HEADER = 5"

definition TLS_HANDSHAKE :: u8 where "TLS_HANDSHAKE = 22"

definition HANDSHAKE_CLIENT_HELLO :: u8 where "HANDSHAKE_CLIENT_HELLO = 1"

definition EXT_SERVER_NAME :: u16 where "EXT_SERVER_NAME = 0"

definition NAME_TYPE_HOSTNAME :: u8 where "NAME_TYPE_HOSTNAME = 0"

definition MAX_HOSTNAME_LEN :: nat where "MAX_HOSTNAME_LEN = 253"

definition is_tls_handshake :: "u8 list \<Rightarrow> bool" where
  "is_tls_handshake buf =
     (if length buf < MIN_TLS_HEADER then False else buf ! 0 = TLS_HANDSHAKE)"

definition read_u8 :: "u8 list \<Rightarrow> nat \<Rightarrow> (u8 \<times> nat) option" where
  "read_u8 buf pos = (if pos \<ge> length buf then None else Some (buf ! pos, pos + 1))"

definition read_u16 :: "u8 list \<Rightarrow> nat \<Rightarrow> (u16 \<times> nat) option" where
  "read_u16 buf pos =
     (if pos + 2 > length buf then None
      else Some (u16_from_be_bytes (buf ! pos) (buf ! (pos + 1)), pos + 2))"

definition read_u24 :: "u8 list \<Rightarrow> nat \<Rightarrow> (u32 \<times> nat) option" where
  "read_u24 buf pos =
     (if pos + 3 > length buf then None
      else Some (u32_from_be_bytes 0 (buf ! pos) (buf ! (pos + 1)) (buf ! (pos + 2)), pos + 3))"

definition skip :: "u8 list \<Rightarrow> nat \<Rightarrow> nat \<Rightarrow> nat option" where
  "skip buf pos n = (if pos + n > length buf then None else Some (pos + n))"

section \<open>UTF-8 validation\<close>

text \<open>
  \<^verbatim>\<open>std::str::from_utf8\<close>: the well-formed byte sequences of Unicode, table 3-7. A valid
  sequence becomes the string with these bytes.
\<close>

definition byte_in :: "nat \<Rightarrow> nat \<Rightarrow> u8 \<Rightarrow> bool" where
  "byte_in lo hi b = (lo \<le> unat b \<and> unat b \<le> hi)"

definition utf8_cont :: "u8 \<Rightarrow> bool" where
  "utf8_cont b = byte_in 128 191 b"

fun utf8_valid :: "u8 list \<Rightarrow> bool" where
  "utf8_valid [] = True"
| "utf8_valid (a # s) =
     (if unat a < 128 then utf8_valid s
      else if byte_in 194 223 a then
        (case s of b # s2 \<Rightarrow> utf8_cont b \<and> utf8_valid s2 | _ \<Rightarrow> False)
      else if byte_in 224 239 a then
        (case s of b # c # s3 \<Rightarrow>
           (if unat a = 224 then byte_in 160 191 b
            else if unat a = 237 then byte_in 128 159 b else utf8_cont b) \<and>
           utf8_cont c \<and> utf8_valid s3
         | _ \<Rightarrow> False)
      else if byte_in 240 244 a then
        (case s of b # c # d # s4 \<Rightarrow>
           (if unat a = 240 then byte_in 144 191 b
            else if unat a = 244 then byte_in 128 143 b else utf8_cont b) \<and>
           utf8_cont c \<and> utf8_cont d \<and> utf8_valid s4
         | _ \<Rightarrow> False)
      else False)"

definition string_of_bytes :: "u8 list \<Rightarrow> string" where
  "string_of_bytes bs = map (\<lambda>b. char_of (unat b)) bs"

definition from_utf8 :: "u8 list \<Rightarrow> string option" where
  "from_utf8 bs = (if utf8_valid bs then Some (string_of_bytes bs) else None)"

section \<open>The parser\<close>

text \<open>The inner loop, over the entries of the server name list.\<close>

function server_name_loop :: "u8 list \<Rightarrow> nat \<Rightarrow> nat \<Rightarrow> string option" where
  "server_name_loop buf pos list_end =
     (if pos < list_end then
        (case read_u8 buf pos of None \<Rightarrow> None | Some (name_type, pos) \<Rightarrow>
        (case read_u16 buf pos of None \<Rightarrow> None | Some (name_len, pos) \<Rightarrow>
           if name_type = NAME_TYPE_HOSTNAME then
             (if unat name_len > MAX_HOSTNAME_LEN then None
              else if pos + unat name_len > length buf then None
              else from_utf8 (take (unat name_len) (drop pos buf)))
           else
             (case skip buf pos (unat name_len) of None \<Rightarrow> None
              | Some pos \<Rightarrow> server_name_loop buf pos list_end)))
      else None)"
  by pat_completeness auto
termination
  by (relation "measure (\<lambda>(buf, pos, e). length buf - pos)")
     (auto simp: read_u8_def read_u16_def skip_def split: if_splits)

text \<open>The outer loop, over the extensions.\<close>

function extension_loop :: "u8 list \<Rightarrow> nat \<Rightarrow> nat \<Rightarrow> string option" where
  "extension_loop buf pos extensions_end =
     (if pos < extensions_end then
        (case read_u16 buf pos of None \<Rightarrow> None | Some (ext_type, pos) \<Rightarrow>
        (case read_u16 buf pos of None \<Rightarrow> None | Some (ext_len, ext_start) \<Rightarrow>
           if ext_type = EXT_SERVER_NAME then
             (case read_u16 buf ext_start of None \<Rightarrow> None | Some (list_len, pos) \<Rightarrow>
                server_name_loop buf pos (pos + unat list_len))
           else extension_loop buf (ext_start + unat ext_len) extensions_end))
      else None)"
  by pat_completeness auto
termination
  by (relation "measure (\<lambda>(buf, pos, e). length buf - pos)")
     (auto simp: read_u16_def split: if_splits)

declare server_name_loop.simps [simp del] extension_loop.simps [simp del]

definition extract_sni :: "u8 list \<Rightarrow> string option" where
  "extract_sni buf = do {
     (content_type, pos) \<leftarrow> read_u8 buf 0;
     if content_type \<noteq> TLS_HANDSHAKE then None else do {
     pos \<leftarrow> skip buf pos 2;
     (record_len, pos) \<leftarrow> read_u16 buf pos;
     if pos + unat record_len > length buf then None else do {
     (handshake_type, pos) \<leftarrow> read_u8 buf pos;
     if handshake_type \<noteq> HANDSHAKE_CLIENT_HELLO then None else do {
     (handshake_len, handshake_start) \<leftarrow> read_u24 buf pos;
     if handshake_start + unat handshake_len > length buf then None else do {
     pos \<leftarrow> skip buf handshake_start 2;
     pos \<leftarrow> skip buf pos 32;
     (session_id_len, pos) \<leftarrow> read_u8 buf pos;
     pos \<leftarrow> skip buf pos (unat session_id_len);
     (cipher_suites_len, pos) \<leftarrow> read_u16 buf pos;
     pos \<leftarrow> skip buf pos (unat cipher_suites_len);
     (compression_len, pos) \<leftarrow> read_u8 buf pos;
     pos \<leftarrow> skip buf pos (unat compression_len);
     if pos \<ge> handshake_start + unat handshake_len then None else do {
     (extensions_len, pos) \<leftarrow> read_u16 buf pos;
     extension_loop buf pos (pos + unat extensions_len)
     }}}}}}"

text \<open>
  \<^verbatim>\<open>peek_sni\<close> reads from an asynchronous reader with \<^verbatim>\<open>read_exact\<close>. The reader is the list of
  bytes it will deliver before end of file; running out is the \<^verbatim>\<open>UnexpectedEof\<close> error. The
  second component is the buffer the function leaves behind.
\<close>

datatype io_error = UnexpectedEof

definition peek_sni :: "u8 list \<Rightarrow> (io_error + string option) \<times> u8 list" where
  "peek_sni input =
     (if length input < MIN_TLS_HEADER then (Err UnexpectedEof, [])
      else
        let buf = take MIN_TLS_HEADER input in
        if \<not> is_tls_handshake buf then (Ok None, buf)
        else
          let record_len = unat (u16_from_be_bytes (buf ! 3) (buf ! 4));
              total_len = MIN_TLS_HEADER + record_len in
          if length input < total_len then (Err UnexpectedEof, buf)
          else let buf = take total_len input in (Ok (extract_sni buf), buf))"

definition SniExtractor_extract :: "u8 list \<Rightarrow> 'e + string option" where
  "SniExtractor_extract data = Ok (extract_sni data)"

lemmas cursor_defs = read_u8_def read_u16_def read_u24_def skip_def

section \<open>The cursor seen from the unread input\<close>

lemma drop_nth: "drop pos buf = b # rest \<Longrightarrow> pos < length buf \<and> buf ! pos = b \<and> drop (Suc pos) buf = rest"
  by (metis Cons_nth_drop_Suc drop_all list.distinct(1) list.inject not_less)

lemma read_u8_drop:
  "drop pos buf = b # rest \<Longrightarrow> read_u8 buf pos = Some (b, pos + 1) \<and> drop (pos + 1) buf = rest"
  by (auto simp: read_u8_def dest: drop_nth)

lemma read_u16_drop:
  assumes "drop pos buf = a # b # rest"
  shows "read_u16 buf pos = Some (u16_from_be_bytes a b, pos + 2) \<and> drop (pos + 2) buf = rest"
proof -
  from drop_nth [OF assms] have 1: "buf ! pos = a" "drop (Suc pos) buf = b # rest" by auto
  from drop_nth [OF this(2)] have "Suc pos < length buf" "buf ! Suc pos = b"
    "drop (Suc (Suc pos)) buf = rest" by auto
  with 1 show ?thesis by (simp add: read_u16_def)
qed

lemma read_u24_drop:
  assumes "drop pos buf = a # b # c # rest"
  shows "read_u24 buf pos = Some (u32_from_be_bytes 0 a b c, pos + 3) \<and> drop (pos + 3) buf = rest"
proof -
  from drop_nth [OF assms] have 1: "buf ! pos = a" "drop (Suc pos) buf = b # c # rest" by auto
  from drop_nth [OF this(2)] have 2: "buf ! Suc pos = b" "drop (Suc (Suc pos)) buf = c # rest" by auto
  from drop_nth [OF this(2)] have "Suc (Suc pos) < length buf" "buf ! Suc (Suc pos) = c"
    "drop (Suc (Suc (Suc pos))) buf = rest" by auto
  with 1 2 show ?thesis by (simp add: read_u24_def numeral_3_eq_3)
qed

lemma skip_drop:
  assumes "drop pos buf = xs @ rest" "length xs = n" "pos \<le> length buf"
  shows "skip buf pos n = Some (pos + n) \<and> drop (pos + n) buf = rest \<and> pos + n \<le> length buf"
proof -
  from assms(1) have "length (drop pos buf) = length xs + length rest" by simp
  with assms(2,3) have "pos + n \<le> length buf" by simp
  moreover have "drop (pos + n) buf = drop n (drop pos buf)" by (simp add: add.commute)
  ultimately show ?thesis using assms by (simp add: skip_def)
qed

section \<open>What a result tells about the buffer\<close>

text \<open>The host name is a run of the buffer of at most 253 bytes of valid UTF-8.\<close>

definition is_host_slice :: "u8 list \<Rightarrow> string \<Rightarrow> bool" where
  "is_host_slice buf h = (\<exists>i n. n \<le> MAX_HOSTNAME_LEN \<and> i + n \<le> length buf \<and>
     utf8_valid (take n (drop i buf)) \<and> h = string_of_bytes (take n (drop i buf)))"

text \<open>One unfolding of each loop, read off a successful result.\<close>

lemma server_name_loop_Some:
  "server_name_loop buf pos e = Some h \<longleftrightarrow>
     pos < e \<and> (\<exists>t p1 len p2. read_u8 buf pos = Some (t, p1) \<and> read_u16 buf p1 = Some (len, p2) \<and>
       (if t = NAME_TYPE_HOSTNAME
        then unat len \<le> MAX_HOSTNAME_LEN \<and> p2 + unat len \<le> length buf \<and>
             from_utf8 (take (unat len) (drop p2 buf)) = Some h
        else \<exists>p3. skip buf p2 (unat len) = Some p3 \<and> server_name_loop buf p3 e = Some h))"
  by (subst server_name_loop.simps) (auto split: option.splits if_splits)

lemma extension_loop_Some:
  "extension_loop buf pos e = Some h \<longleftrightarrow>
     pos < e \<and> (\<exists>t p1 len p2. read_u16 buf pos = Some (t, p1) \<and> read_u16 buf p1 = Some (len, p2) \<and>
       (if t = EXT_SERVER_NAME
        then \<exists>n p3. read_u16 buf p2 = Some (n, p3) \<and> server_name_loop buf p3 (p3 + unat n) = Some h
        else extension_loop buf (p2 + unat len) e = Some h))"
  by (subst extension_loop.simps) (auto split: option.splits if_splits)

lemma cursor_advances:
  "read_u8 buf pos = Some (a, p) \<Longrightarrow> pos < p \<and> p \<le> length buf"
  "read_u16 buf pos = Some (w, p) \<Longrightarrow> pos < p \<and> p \<le> length buf"
  "skip buf pos n = Some p \<Longrightarrow> pos \<le> p \<and> p \<le> length buf"
  by (auto simp: cursor_defs split: if_splits)

text \<open>Both loops are proved about by induction on the bytes that are left.\<close>

lemma server_name_loop_induct [consumes 1, case_names host skip]:
  assumes "server_name_loop buf pos e = Some h"
    and "\<And>pos p1 len p2. pos < e \<Longrightarrow> read_u8 buf pos = Some (NAME_TYPE_HOSTNAME, p1) \<Longrightarrow>
      read_u16 buf p1 = Some (len, p2) \<Longrightarrow> unat len \<le> MAX_HOSTNAME_LEN \<Longrightarrow>
      p2 + unat len \<le> length buf \<Longrightarrow> from_utf8 (take (unat len) (drop p2 buf)) = Some h \<Longrightarrow> P pos"
    and "\<And>pos t p1 len p2 p3. pos < e \<Longrightarrow> read_u8 buf pos = Some (t, p1) \<Longrightarrow>
      read_u16 buf p1 = Some (len, p2) \<Longrightarrow> t \<noteq> NAME_TYPE_HOSTNAME \<Longrightarrow>
      skip buf p2 (unat len) = Some p3 \<Longrightarrow> P p3 \<Longrightarrow> P pos"
  shows "P pos"
  using assms(1)
proof (induction "length buf - pos" arbitrary: pos rule: less_induct)
  case less
  from less.prems obtain t p1 len p2 where 1: "pos < e" "read_u8 buf pos = Some (t, p1)"
    "read_u16 buf p1 = Some (len, p2)"
    and 2: "if t = NAME_TYPE_HOSTNAME
        then unat len \<le> MAX_HOSTNAME_LEN \<and> p2 + unat len \<le> length buf \<and>
             from_utf8 (take (unat len) (drop p2 buf)) = Some h
        else \<exists>p3. skip buf p2 (unat len) = Some p3 \<and> server_name_loop buf p3 e = Some h"
    by (subst (asm) server_name_loop_Some) blast
  show ?case
  proof (cases "t = NAME_TYPE_HOSTNAME")
    case True
    with 1 2 assms(2) show ?thesis by auto
  next
    case False
    with 2 obtain p3 where 3: "skip buf p2 (unat len) = Some p3" "server_name_loop buf p3 e = Some h"
      by auto
    with cursor_advances(1) [OF 1(2)] cursor_advances(2) [OF 1(3)] cursor_advances(3) [OF 3(1)]
    have "length buf - p3 < length buf - pos" by linarith
    then have "P p3" using 3(2) by (rule less.hyps)
    with 1 3 False assms(3) show ?thesis by blast
  qed
qed

lemma extension_loop_induct [consumes 1, case_names sni other]:
  assumes "extension_loop buf pos e = Some h"
    and "\<And>pos p1 len p2 n p3. pos < e \<Longrightarrow> read_u16 buf pos = Some (EXT_SERVER_NAME, p1) \<Longrightarrow>
      read_u16 buf p1 = Some (len, p2) \<Longrightarrow> read_u16 buf p2 = Some (n, p3) \<Longrightarrow>
      server_name_loop buf p3 (p3 + unat n) = Some h \<Longrightarrow> P pos"
    and "\<And>pos t p1 len p2. pos < e \<Longrightarrow> read_u16 buf pos = Some (t, p1) \<Longrightarrow>
      read_u16 buf p1 = Some (len, p2) \<Longrightarrow> t \<noteq> EXT_SERVER_NAME \<Longrightarrow> P (p2 + unat len) \<Longrightarrow> P pos"
  shows "P pos"
  using assms(1)
proof (induction "length buf - pos" arbitrary: pos rule: less_induct)
  case less
  from less.prems obtain t p1 len p2 where 1: "pos < e" "read_u16 buf pos = Some (t, p1)"
    "read_u16 buf p1 = Some (len, p2)"
    and 2: "if t = EXT_SERVER_NAME
        then \<exists>n p3. read_u16 buf p2 = Some (n, p3) \<and> server_name_loop buf p3 (p3 + unat n) = Some h
        else extension_loop buf (p2 + unat len) e = Some h"
    by (subst (asm) extension_loop_Some) blast
  show ?case
  proof (cases "t = EXT_SERVER_NAME")
    case True
    with 1 2 assms(2) show ?thesis by auto
  next
    case False
    from cursor_advances(2) [OF 1(2)] cursor_advances(2) [OF 1(3)]
    have "length buf - (p2 + unat len) < length buf - pos" by linarith
    moreover from False 2 have "extension_loop buf (p2 + unat len) e = Some h" by simp
    ultimately have "P (p2 + unat len)" by (rule less.hyps)
    with 1 False assms(3) show ?thesis by blast
  qed
qed

lemma server_name_loop_slice: "server_name_loop buf pos e = Some h \<Longrightarrow> is_host_slice buf h"
  by (induction rule: server_name_loop_induct)
     (auto simp: is_host_slice_def from_utf8_def split: if_splits)

lemma extension_loop_slice: "extension_loop buf pos e = Some h \<Longrightarrow> is_host_slice buf h"
  by (induction rule: extension_loop_induct) (auto dest: server_name_loop_slice)

text \<open>The straight-line part of the parser: the reads a successful run has made.\<close>

inductive hello_header :: "u8 list \<Rightarrow> nat \<Rightarrow> nat \<Rightarrow> bool" where
  header:
  "read_u8 buf 0 = Some (TLS_HANDSHAKE, p1) \<Longrightarrow> skip buf p1 2 = Some p2 \<Longrightarrow>
   read_u16 buf p2 = Some (record_len, p3) \<Longrightarrow> p3 + unat record_len \<le> length buf \<Longrightarrow>
   read_u8 buf p3 = Some (HANDSHAKE_CLIENT_HELLO, p4) \<Longrightarrow>
   read_u24 buf p4 = Some (handshake_len, handshake_start) \<Longrightarrow>
   handshake_start + unat handshake_len \<le> length buf \<Longrightarrow>
   skip buf handshake_start 2 = Some p5 \<Longrightarrow> skip buf p5 32 = Some p6 \<Longrightarrow>
   read_u8 buf p6 = Some (session_id_len, p7) \<Longrightarrow> skip buf p7 (unat session_id_len) = Some p8 \<Longrightarrow>
   read_u16 buf p8 = Some (cipher_suites_len, p9) \<Longrightarrow> skip buf p9 (unat cipher_suites_len) = Some p10 \<Longrightarrow>
   read_u8 buf p10 = Some (compression_len, p11) \<Longrightarrow> skip buf p11 (unat compression_len) = Some p12 \<Longrightarrow>
   p12 < handshake_start + unat handshake_len \<Longrightarrow>
   read_u16 buf p12 = Some (extensions_len, pos) \<Longrightarrow>
   hello_header buf pos (pos + unat extensions_len)"

lemma extract_sni_Some:
  "extract_sni buf = Some h \<longleftrightarrow> (\<exists>pos e. hello_header buf pos e \<and> extension_loop buf pos e = Some h)"
  (is "?l \<longleftrightarrow> ?r")
proof
  assume ?l
  then show ?r
    unfolding extract_sni_def
    by (clarsimp simp: bind_eq_Some_conv not_le not_less split: if_splits)
       (intro exI conjI, rule header, assumption+)
next
  assume ?r
  then show ?l
    unfolding extract_sni_def by (auto elim!: hello_header.cases)
qed

lemma hello_header_extract:
  "hello_header buf pos e \<Longrightarrow> extract_sni buf = extension_loop buf pos e"
  unfolding extract_sni_def by (erule hello_header.cases) simp

section \<open>More input never changes an answer\<close>

lemma read_u8_append: "read_u8 buf pos = Some r \<Longrightarrow> read_u8 (buf @ extra) pos = Some r"
  by (auto simp: read_u8_def nth_append split: if_splits)

lemma read_u16_append: "read_u16 buf pos = Some r \<Longrightarrow> read_u16 (buf @ extra) pos = Some r"
  by (auto simp: read_u16_def nth_append split: if_splits)

lemma read_u24_append: "read_u24 buf pos = Some r \<Longrightarrow> read_u24 (buf @ extra) pos = Some r"
  by (auto simp: read_u24_def nth_append split: if_splits)

lemma skip_append: "skip buf pos n = Some r \<Longrightarrow> skip (buf @ extra) pos n = Some r"
  by (auto simp: skip_def split: if_splits)

lemmas cursor_append = read_u8_append read_u16_append read_u24_append skip_append

lemma server_name_loop_append:
  "server_name_loop buf pos e = Some h \<Longrightarrow> server_name_loop (buf @ extra) pos e = Some h"
proof (induction rule: server_name_loop_induct)
  case (host pos p1 len p2)
  then show ?case
    by (subst server_name_loop_Some) (simp add: read_u8_append read_u16_append)
next
  case (skip pos t p1 len p2 p3)
  then show ?case
    by (subst server_name_loop_Some) (simp add: read_u8_append read_u16_append skip_append)
qed

lemma extension_loop_append:
  "extension_loop buf pos e = Some h \<Longrightarrow> extension_loop (buf @ extra) pos e = Some h"
proof (induction rule: extension_loop_induct)
  case (sni pos p1 len p2 n p3)
  then show ?case
    by (subst extension_loop_Some) (simp add: read_u16_append server_name_loop_append)
next
  case (other pos t p1 len p2)
  then show ?case
    by (subst extension_loop_Some) (simp add: read_u16_append)
qed

lemma hello_header_length:
  "hello_header b pos e \<Longrightarrow> 5 + unat (u16_from_be_bytes (b ! 3) (b ! 4)) \<le> length b"
  by (erule hello_header.cases) (auto simp: cursor_defs eval_nat_numeral split: if_splits)

lemma le_length_append: "n \<le> length xs \<Longrightarrow> n \<le> length (xs @ ys)"
  by simp

lemma hello_header_append: "hello_header buf pos e \<Longrightarrow> hello_header (buf @ extra) pos e"
  by (erule hello_header.cases, hypsubst)
     (rule header, (erule cursor_append | erule le_length_append | assumption)+)

section \<open>Well-formed ClientHello records\<close>

text \<open>
  The message format of RFC 8446 and RFC 6066, as an encoder. It is the specification
  the parser is measured against: which bytes a client sends for a given list of
  extensions.
\<close>

type_synonym extension = "u16 \<times> u8 list"

record client_hello =
  legacy_version :: "u8 \<times> u8"
  random :: "u8 list"
  session_id :: "u8 list"
  cipher_suites :: "u8 list"
  compression :: "u8 list"
  extensions :: "extension list"

definition be16 :: "nat \<Rightarrow> u8 list" where
  "be16 n = [of_nat (n div 256), of_nat (n mod 256)]"

definition be24 :: "nat \<Rightarrow> u8 list" where
  "be24 n = [of_nat (n div 65536), of_nat (n div 256 mod 256), of_nat (n mod 256)]"

definition encode_extension :: "extension \<Rightarrow> u8 list" where
  "encode_extension x = u16_to_be_bytes (fst x) @ be16 (length (snd x)) @ snd x"

definition sni_extension :: "u8 list \<Rightarrow> extension" where
  "sni_extension host =
     (EXT_SERVER_NAME,
      be16 (length host + 3) @ [NAME_TYPE_HOSTNAME] @ be16 (length host) @ host)"

definition encode_extensions :: "extension list \<Rightarrow> u8 list" where
  "encode_extensions xs = concat (map encode_extension xs)"

definition encode_body :: "client_hello \<Rightarrow> u8 list" where
  "encode_body ch =
     [fst (legacy_version ch), snd (legacy_version ch)] @ random ch @
     [of_nat (length (session_id ch))] @ session_id ch @
     be16 (length (cipher_suites ch)) @ cipher_suites ch @
     [of_nat (length (compression ch))] @ compression ch @
     be16 (length (encode_extensions (extensions ch))) @ encode_extensions (extensions ch)"

definition encode_record :: "u8 \<times> u8 \<Rightarrow> client_hello \<Rightarrow> u8 list" where
  "encode_record rv ch =
     (let body = encode_body ch;
          handshake = [HANDSHAKE_CLIENT_HELLO] @ be24 (length body) @ body
      in [TLS_HANDSHAKE, fst rv, snd rv] @ be16 (length handshake) @ handshake)"

text \<open>Every length fits the field that carries it.\<close>

definition wf_hello :: "client_hello \<Rightarrow> bool" where
  "wf_hello ch =
     (length (random ch) = 32 \<and> length (session_id ch) < 256 \<and>
      length (cipher_suites ch) < 65536 \<and> length (compression ch) < 256 \<and>
      list_all (\<lambda>x. length (snd x) < 65536) (extensions ch) \<and>
      length (encode_body ch) + 4 < 65536)"

lemma unat_of_nat_u8: "n < 256 \<Longrightarrow> unat (of_nat n :: u8) = n"
  by (simp add: unat_of_nat)

lemma be16_read:
  "n < 65536 \<Longrightarrow> unat (u16_from_be_bytes (of_nat (n div 256)) (of_nat (n mod 256))) = n"
  by (simp add: unat_u16_from_be_bytes unat_of_nat)

lemma be24_read:
  "n < 65536 \<Longrightarrow>
     unat (u32_from_be_bytes 0 (of_nat (n div 65536)) (of_nat (n div 256 mod 256)) (of_nat (n mod 256))) = n"
  by (simp add: unat_u32_from_be_bytes0 unat_of_nat)

lemma length_be16 [simp]: "length (be16 n) = 2"
  by (simp add: be16_def)

lemma length_be24 [simp]: "length (be24 n) = 3"
  by (simp add: be24_def)

text \<open>Reading the encoded fields back, in terms of the unread input.\<close>

lemma read_be16:
  assumes "drop pos buf = be16 n @ rest" "n < 65536"
  shows "\<exists>w. read_u16 buf pos = Some (w, pos + 2) \<and> unat w = n \<and> drop (pos + 2) buf = rest"
  using read_u16_drop [of pos buf] assms by (auto simp: be16_def be16_read)

lemma read_be24:
  assumes "drop pos buf = be24 n @ rest" "n < 65536"
  shows "\<exists>w. read_u24 buf pos = Some (w, pos + 3) \<and> unat w = n \<and> drop (pos + 3) buf = rest"
  using read_u24_drop [of pos buf "of_nat (n div 65536)" "of_nat (n div 256 mod 256)" "of_nat (n mod 256)" rest]
    assms be24_read [of n] unfolding be24_def by (simp only: append.simps) blast

lemma read_type:
  assumes "drop pos buf = u16_to_be_bytes t @ rest"
  shows "read_u16 buf pos = Some (t, pos + 2) \<and> drop (pos + 2) buf = rest"
  using read_u16_drop [of pos buf] assms by (auto simp: u16_to_be_bytes_def u16_from_to_be_bytes)

lemma cursor_bound: "drop pos buf = xs @ rest \<Longrightarrow> xs \<noteq> [] \<Longrightarrow> pos + length xs \<le> length buf"
proof -
  assume a: "drop pos buf = xs @ rest" "xs \<noteq> []"
  then have "length (drop pos buf) = length xs + length rest" "length xs > 0"
    by (simp_all only: length_append length_greater_0_conv not_False_eq_True)
  then show ?thesis by (simp only: length_drop)
qed

lemma hello_header_encode:
  assumes wf: "wf_hello ch" and buf: "buf = encode_record rv ch @ extra"
  obtains pos where
    "hello_header buf pos (pos + length (encode_extensions (extensions ch)))"
    "drop pos buf = encode_extensions (extensions ch) @ extra" "pos \<le> length buf"
proof -
  let ?body = "encode_body ch"
  let ?xs = "encode_extensions (extensions ch)"
  let ?n = "length ?body"
  let ?tail = "be16 (length ?xs) @ ?xs @ extra"
  let ?t1 = "of_nat (length (compression ch)) # compression ch @ ?tail"
  let ?t2 = "be16 (length (cipher_suites ch)) @ cipher_suites ch @ ?t1"
  let ?t3 = "of_nat (length (session_id ch)) # session_id ch @ ?t2"
  have w: "length (random ch) = 32" "length (session_id ch) < 256" "length (cipher_suites ch) < 65536"
    "length (compression ch) < 256" "?n + 4 < 65536"
    using wf by (auto simp: wf_hello_def)
  have body: "?body @ extra = [fst (legacy_version ch), snd (legacy_version ch)] @ random ch @ ?t3"
    by (simp add: encode_body_def)
  have len: "?n = 2 + 32 + 1 + length (session_id ch) + 2 + length (cipher_suites ch) + 1 +
      length (compression ch) + 2 + length ?xs"
    using w(1) by (simp add: encode_body_def)
  have d0: "drop 0 buf = TLS_HANDSHAKE # [fst rv, snd rv] @ be16 (?n + 4) @
      HANDSHAKE_CLIENT_HELLO # be24 ?n @ ?body @ extra"
    by (simp add: buf encode_record_def Let_def add.commute)
  have lbuf: "length buf = 9 + ?n + length extra"
    by (simp add: buf encode_record_def Let_def)
  note r1 = read_u8_drop [OF d0]
  have r2: "skip buf 1 2 = Some 3 \<and> drop 3 buf = be16 (?n + 4) @ HANDSHAKE_CLIENT_HELLO # be24 ?n @ ?body @ extra"
    using skip_drop [of 1 buf "[fst rv, snd rv]" _ 2] r1 lbuf by (simp add: numeral_3_eq_3)
  obtain rl where r3: "read_u16 buf 3 = Some (rl, 5)" "unat rl = ?n + 4"
    "drop 5 buf = HANDSHAKE_CLIENT_HELLO # be24 ?n @ ?body @ extra"
    using read_be16 [of 3 buf "?n + 4"] r2 w(5) by auto
  note r4 = read_u8_drop [OF r3(3)]
  obtain hl where r5: "read_u24 buf 6 = Some (hl, 9)" "unat hl = ?n" "drop 9 buf = ?body @ extra"
    using read_be24 [of 6 buf ?n] r4 w(5) by auto
  have r6: "skip buf 9 2 = Some 11 \<and> drop 11 buf = random ch @ ?t3"
    using skip_drop [of 9 buf "[fst (legacy_version ch), snd (legacy_version ch)]" "random ch @ ?t3" 2]
      r5(3) lbuf by (simp add: body)
  have r7: "skip buf 11 32 = Some 43 \<and> drop 43 buf = ?t3"
    using skip_drop [of 11 buf "random ch" ?t3 32] r6 w(1) lbuf len by simp
  then have d43: "drop 43 buf = ?t3" by blast
  note r8 = read_u8_drop [OF d43]
  let ?p8 = "44 + length (session_id ch)"
  have r9: "skip buf 44 (length (session_id ch)) = Some ?p8 \<and> drop ?p8 buf = ?t2"
    using skip_drop [of 44 buf "session_id ch" ?t2] r8 lbuf len by simp
  let ?p9 = "?p8 + 2"
  obtain cl where r10: "read_u16 buf ?p8 = Some (cl, ?p9)" "unat cl = length (cipher_suites ch)"
    "drop ?p9 buf = cipher_suites ch @ ?t1"
    using read_be16 [of ?p8 buf "length (cipher_suites ch)"] r9 w(3) by auto
  let ?p10 = "?p9 + length (cipher_suites ch)"
  have r11: "skip buf ?p9 (length (cipher_suites ch)) = Some ?p10 \<and> drop ?p10 buf = ?t1"
    using skip_drop [of ?p9 buf "cipher_suites ch" ?t1] r10 lbuf len by simp
  then have d10: "drop ?p10 buf = ?t1" by blast
  note r12 = read_u8_drop [OF d10]
  let ?p11 = "?p10 + 1"
  let ?p12 = "?p11 + length (compression ch)"
  have r13: "skip buf ?p11 (length (compression ch)) = Some ?p12 \<and> drop ?p12 buf = ?tail"
    using skip_drop [of ?p11 buf "compression ch" ?tail] r12 lbuf len by simp
  have "length ?xs < 65536" using w(5) len by simp
  then obtain el where r14: "read_u16 buf ?p12 = Some (el, ?p12 + 2)" "unat el = length ?xs"
    "drop (?p12 + 2) buf = ?xs @ extra"
    using read_be16 [of ?p12 buf "length ?xs"] r13 by auto
  have "hello_header buf (?p12 + 2) ((?p12 + 2) + unat el)"
  proof (rule header [where record_len = rl and handshake_len = hl and handshake_start = 9 and
        session_id_len = "of_nat (length (session_id ch))" and
        compression_len = "of_nat (length (compression ch))" and cipher_suites_len = cl])
    show "read_u8 buf 0 = Some (TLS_HANDSHAKE, 1)" using r1 by simp
    show "skip buf 1 2 = Some 3" using r2 by simp
    show "read_u16 buf 3 = Some (rl, 5)" using r3 by simp
    show "5 + unat rl \<le> length buf" using r3(2) lbuf by simp
    show "read_u8 buf 5 = Some (HANDSHAKE_CLIENT_HELLO, 6)" using r4 by simp
    show "read_u24 buf 6 = Some (hl, 9)" using r5 by simp
    show "9 + unat hl \<le> length buf" using r5(2) lbuf by simp
    show "skip buf 9 2 = Some 11" using r6 by simp
    show "skip buf 11 32 = Some 43" using r7 by simp
    show "read_u8 buf 43 = Some (of_nat (length (session_id ch)), 44)" using r8 by simp
    show "skip buf 44 (unat (of_nat (length (session_id ch)) :: u8)) = Some ?p8"
      using r9 w(2) by (simp add: unat_of_nat_u8)
    show "read_u16 buf ?p8 = Some (cl, ?p9)" using r10(1) .
    show "skip buf ?p9 (unat cl) = Some ?p10" using r11 r10(2) by simp
    show "read_u8 buf ?p10 = Some (of_nat (length (compression ch)), ?p11)" using r12 by blast
    show "skip buf ?p11 (unat (of_nat (length (compression ch)) :: u8)) = Some ?p12"
      using r13 w(4) by (simp add: unat_of_nat_u8)
    show "?p12 < 9 + unat hl" using r5(2) len by simp
    show "read_u16 buf ?p12 = Some (el, ?p12 + 2)" using r14(1) .
  qed
  then have "hello_header buf (?p12 + 2) ((?p12 + 2) + length ?xs)" using r14(2) by simp
  moreover have "?p12 + 2 \<le> length buf" using lbuf len by simp
  ultimately show thesis using r14(3) that by blast
qed

text \<open>The loops over an encoded extension list.\<close>

lemma server_name_loop_encode:
  assumes "drop pos buf = [NAME_TYPE_HOSTNAME] @ be16 (length host) @ host @ rest"
    and "length host \<le> MAX_HOSTNAME_LEN" "utf8_valid host"
  shows "server_name_loop buf pos (pos + (length host + 3)) = Some (string_of_bytes host)"
proof -
  have 1: "read_u8 buf pos = Some (NAME_TYPE_HOSTNAME, pos + 1)"
    "drop (pos + 1) buf = be16 (length host) @ host @ rest"
    using read_u8_drop [of pos buf] assms(1) by auto
  obtain w where 2: "read_u16 buf (pos + 1) = Some (w, pos + 1 + 2)" "unat w = length host"
    "drop (pos + 1 + 2) buf = host @ rest"
    using read_be16 [OF 1(2)] assms(2) by (auto simp: MAX_HOSTNAME_LEN_def)
  have "pos + 1 + 2 + length host \<le> length buf"
    using cursor_bound [of pos buf "[NAME_TYPE_HOSTNAME] @ be16 (length host) @ host" rest] assms(1)
    by simp
  then show ?thesis
    using 1(1) 2 assms(2,3) by (subst server_name_loop_Some) (simp add: from_utf8_def)
qed

lemma extension_loop_skip:
  assumes "drop pos buf = encode_extension x @ rest"
    and "fst x \<noteq> EXT_SERVER_NAME" "length (snd x) < 65536" "pos < e"
  shows "extension_loop buf pos e = extension_loop buf (pos + length (encode_extension x)) e"
    and "drop (pos + length (encode_extension x)) buf = rest"
proof -
  have 1: "read_u16 buf pos = Some (fst x, pos + 2)"
    "drop (pos + 2) buf = be16 (length (snd x)) @ snd x @ rest"
    using read_type [of pos buf "fst x"] assms(1) by (auto simp: encode_extension_def)
  obtain w where 2: "read_u16 buf (pos + 2) = Some (w, pos + 2 + 2)" "unat w = length (snd x)"
    using read_be16 [OF 1(2) assms(3)] by auto
  have len: "length (encode_extension x) = 4 + length (snd x)"
    by (simp add: encode_extension_def u16_to_be_bytes_def)
  show "extension_loop buf pos e = extension_loop buf (pos + length (encode_extension x)) e"
    using 1(1) 2 assms(2,4) by (subst extension_loop.simps) (simp add: len eval_nat_numeral)
  show "drop (pos + length (encode_extension x)) buf = rest"
    using assms(1) by (metis add.commute append_eq_conv_conj drop_drop)
qed

lemma length_encode_extension [simp]: "length (encode_extension x) = 4 + length (snd x)"
  by (simp add: encode_extension_def u16_to_be_bytes_def)

lemma encode_extensions_simps [simp]:
  "encode_extensions [] = []"
  "encode_extensions (x # xs) = encode_extension x @ encode_extensions xs"
  "encode_extensions (xs @ ys) = encode_extensions xs @ encode_extensions ys"
  by (simp_all add: encode_extensions_def)

lemma extension_loop_prefix:
  assumes "drop pos buf = encode_extensions pre @ rest"
    and "\<forall>x\<in>set pre. fst x \<noteq> EXT_SERVER_NAME \<and> length (snd x) < 65536"
    and "pos + length (encode_extensions pre) \<le> e"
  shows "extension_loop buf pos e = extension_loop buf (pos + length (encode_extensions pre)) e \<and>
    drop (pos + length (encode_extensions pre)) buf = rest"
  using assms
proof (induction pre arbitrary: pos)
  case (Cons x pre)
  have "drop pos buf = encode_extension x @ (encode_extensions pre @ rest)" "pos < e"
    using Cons.prems by auto
  note step = extension_loop_skip [OF this(1) _ _ this(2)]
  then have "extension_loop buf pos e = extension_loop buf (pos + length (encode_extension x)) e"
    "drop (pos + length (encode_extension x)) buf = encode_extensions pre @ rest"
    using Cons.prems(2) by auto
  then show ?case using Cons.IH [of "pos + length (encode_extension x)"] Cons.prems(2,3)
    by (simp add: add.assoc)
qed simp

lemma extension_loop_sni:
  assumes "drop pos buf = encode_extension (sni_extension host) @ rest"
    and "length host \<le> MAX_HOSTNAME_LEN" "utf8_valid host" "pos < e"
  shows "extension_loop buf pos e = Some (string_of_bytes host)"
proof -
  let ?d = "snd (sni_extension host)"
  have 1: "read_u16 buf pos = Some (EXT_SERVER_NAME, pos + 2)"
    "drop (pos + 2) buf = be16 (length ?d) @ ?d @ rest"
    using read_type [of pos buf EXT_SERVER_NAME] assms(1)
    by (auto simp: encode_extension_def sni_extension_def)
  have "length ?d < 65536" using assms(2) by (simp add: sni_extension_def MAX_HOSTNAME_LEN_def)
  with 1(2) obtain w where 2: "read_u16 buf (pos + 2) = Some (w, pos + 2 + 2)"
    "drop (pos + 2 + 2) buf = ?d @ rest"
    using read_be16 [OF 1(2)] by auto
  have "length host + 3 < 65536" using assms(2) by (simp add: MAX_HOSTNAME_LEN_def)
  with 2(2) obtain n where 3: "read_u16 buf (pos + 2 + 2) = Some (n, pos + 2 + 2 + 2)"
    "unat n = length host + 3"
    "drop (pos + 2 + 2 + 2) buf = [NAME_TYPE_HOSTNAME] @ be16 (length host) @ host @ rest"
    using read_be16 [of "pos + 2 + 2" buf "length host + 3"] by (auto simp: sni_extension_def)
  show ?thesis
    using 1(1) 2(1) 3(1,2) server_name_loop_encode [OF 3(3) assms(2,3)] assms(4)
    by (subst extension_loop.simps) simp
qed

lemma wf_hello_ext: "wf_hello ch \<Longrightarrow> x \<in> set (extensions ch) \<Longrightarrow> length (snd x) < 65536"
  by (auto simp: wf_hello_def list_all_iff)

lemma extract_sni_encode:
  assumes "wf_hello ch"
    and "extensions ch = pre @ sni_extension host # post"
    and "\<forall>x\<in>set pre. fst x \<noteq> EXT_SERVER_NAME"
    and "length host \<le> MAX_HOSTNAME_LEN" and "utf8_valid host"
  shows "extract_sni (encode_record rv ch @ trailing) = Some (string_of_bytes host)"
proof -
  let ?buf = "encode_record rv ch @ trailing"
  let ?n = "length (encode_extensions (extensions ch))"
  obtain pos where hdr: "hello_header ?buf pos (pos + ?n)"
    and d: "drop pos ?buf = encode_extensions (extensions ch) @ trailing"
    using hello_header_encode [OF assms(1) refl] by blast
  have pre: "\<forall>x\<in>set pre. fst x \<noteq> EXT_SERVER_NAME \<and> length (snd x) < 65536"
    using assms(2,3) wf_hello_ext [OF assms(1)] by auto
  let ?rest = "encode_extension (sni_extension host) @ encode_extensions post @ trailing"
  have "drop pos ?buf = encode_extensions pre @ ?rest"
    using d assms(2) by simp
  then have "extension_loop ?buf pos (pos + ?n) =
      extension_loop ?buf (pos + length (encode_extensions pre)) (pos + ?n) \<and>
      drop (pos + length (encode_extensions pre)) ?buf = ?rest"
    by (rule extension_loop_prefix) (use pre assms(2) in auto)
  moreover have "pos + length (encode_extensions pre) < pos + ?n"
    using assms(2) by simp
  ultimately have "extension_loop ?buf pos (pos + ?n) = Some (string_of_bytes host)"
    using extension_loop_sni [OF _ assms(4,5)] by simp
  with hello_header_extract [OF hdr] show ?thesis by simp
qed

lemma encode_record_header:
  "encode_record rv ch = TLS_HANDSHAKE # fst rv # snd rv # of_nat ((length (encode_body ch) + 4) div 256) #
     of_nat ((length (encode_body ch) + 4) mod 256) # HANDSHAKE_CLIENT_HELLO #
     be24 (length (encode_body ch)) @ encode_body ch"
  by (simp add: encode_record_def Let_def be16_def add.commute)

lemma peek_sni_encode:
  assumes "wf_hello ch"
  shows "peek_sni (encode_record rv ch @ trailing) = (Ok (extract_sni (encode_record rv ch)), encode_record rv ch)"
proof -
  let ?r = "encode_record rv ch" and ?n = "length (encode_body ch) + 4"
  have n: "?n < 65536" using assms by (simp add: wf_hello_def)
  have r: "take 5 (?r @ trailing) = [TLS_HANDSHAKE, fst rv, snd rv, of_nat (?n div 256), of_nat (?n mod 256)]"
    by (simp add: encode_record_header)
  have l: "length ?r = 5 + ?n" by (simp add: encode_record_header)
  have "unat (u16_from_be_bytes (take 5 (?r @ trailing) ! 3) (take 5 (?r @ trailing) ! 4)) = ?n"
    unfolding r using be16_read [OF n] by simp
  moreover have "is_tls_handshake (take 5 (?r @ trailing))"
    unfolding r by (simp add: is_tls_handshake_def MIN_TLS_HEADER_def)
  ultimately show ?thesis
    using l by (simp add: peek_sni_def MIN_TLS_HEADER_def Let_def)
qed

definition example_hello :: client_hello where
  "example_hello =
     \<lparr>legacy_version = (3, 3), random = replicate 32 7, session_id = [1, 2],
      cipher_suites = [0, 47, 0, 60], compression = [0],
      extensions = [(21, []), sni_extension [97, 46, 105, 111], (43, [2, 3, 4])]\<rparr>"

lemma example_hello_wf: "wf_hello example_hello"
  by (simp add: wf_hello_def example_hello_def encode_body_def sni_extension_def)

lemma example_hello_sni:
  "extract_sni (encode_record rv example_hello @ trailing) = Some (string_of_bytes [97, 46, 105, 111])"
  by (rule extract_sni_encode [OF example_hello_wf, of "[(21, [])]" _ "[(43, [2, 3, 4])]"])
     (simp_all add: example_hello_def EXT_SERVER_NAME_def MAX_HOSTNAME_LEN_def)

section \<open>Properties\<close>

text \<open>
  C1: completeness of the parser. For every well-formed ClientHello record whose first
  server-name extension carries a host name of at most 253 bytes of UTF-8, whatever other
  extensions stand before or after it, whatever the session id, cipher suites and
  compression methods are, and whatever bytes follow the record, \<^verbatim>\<open>extract_sni\<close> returns
  exactly that host name.
\<close>

theorem extract_sni_complete:
  assumes "wf_hello ch"
    and "extensions ch = pre @ sni_extension host # post"
    and "\<forall>x\<in>set pre. fst x \<noteq> EXT_SERVER_NAME"
    and "length host \<le> MAX_HOSTNAME_LEN" and "utf8_valid host"
  shows "extract_sni (encode_record rv ch @ trailing) = Some (string_of_bytes host) \<and>
    peek_sni (encode_record rv ch @ trailing) = (Ok (Some (string_of_bytes host)), encode_record rv ch)"
  using extract_sni_encode [OF assms, of rv trailing] extract_sni_encode [OF assms, of rv "[]"]
    peek_sni_encode [OF assms(1)] by simp

theorem extract_sni_complete_witness:
  "extract_sni (encode_record (3, 1) example_hello @ [255]) = Some (string_of_bytes [97, 46, 105, 111]) \<and>
   peek_sni (encode_record (3, 1) example_hello @ [255]) =
     (Ok (Some (string_of_bytes [97, 46, 105, 111])), encode_record (3, 1) example_hello)"
  by (rule extract_sni_complete [OF example_hello_wf, of "[(21, [])]" _ "[(43, [2, 3, 4])]"])
     (simp_all add: example_hello_def EXT_SERVER_NAME_def MAX_HOSTNAME_LEN_def)

text \<open>
  C2: soundness and bounds of the parser. Any host name it returns is a contiguous run of
  at most 253 bytes of the peeked buffer that is valid UTF-8; nothing is invented and
  nothing beyond the buffer is read, for arbitrary (also hostile) input.
\<close>

theorem extract_sni_sound:
  assumes "extract_sni buf = Some h"
  shows "\<exists>i n. n \<le> 253 \<and> i + n \<le> length buf \<and> utf8_valid (take n (drop i buf)) \<and>
    h = string_of_bytes (take n (drop i buf)) \<and> length h \<le> 253"
proof -
  from assms obtain pos e where "extension_loop buf pos e = Some h"
    by (auto simp: extract_sni_Some)
  then have "is_host_slice buf h" by (rule extension_loop_slice)
  then show ?thesis
    unfolding is_host_slice_def MAX_HOSTNAME_LEN_def by (fastforce simp: string_of_bytes_def)
qed

theorem extract_sni_sound_witness:
  "\<exists>i n. n \<le> 253 \<and> i + n \<le> length (encode_record (3, 1) example_hello) \<and>
    utf8_valid (take n (drop i (encode_record (3, 1) example_hello))) \<and>
    string_of_bytes [97, 46, 105, 111] =
      string_of_bytes (take n (drop i (encode_record (3, 1) example_hello))) \<and>
    length (string_of_bytes [97, 46, 105, 111]) \<le> 253"
  by (rule extract_sni_sound) (use example_hello_sni [of "(3, 1)" "[]"] in simp)

text \<open>
  C3: a partial ClientHello is never misread. If only a strict prefix of a ClientHello
  record has arrived, \<^verbatim>\<open>extract_sni\<close> returns \<^verbatim>\<open>None\<close>; and once it has returned a name, more
  bytes do not change the answer. So the outcome depends only on whether the whole record
  has been peeked.
\<close>

theorem extract_sni_prefix:
  assumes "wf_hello ch"
  shows "(k < length (encode_record rv ch) \<longrightarrow> extract_sni (take k (encode_record rv ch)) = None) \<and>
    (extract_sni buf = Some h \<longrightarrow> extract_sni (buf @ later) = Some h)"
proof (intro conjI impI)
  assume k: "k < length (encode_record rv ch)"
  let ?r = "encode_record rv ch"
  let ?b = "take k ?r"
  let ?n = "length (encode_body ch) + 4"
  have r: "?r = [TLS_HANDSHAKE, fst rv, snd rv] @ be16 ?n @ HANDSHAKE_CLIENT_HELLO # be24 (?n - 4) @ encode_body ch"
    by (simp add: encode_record_def Let_def add.commute)
  have n: "?n < 65536" using assms by (simp add: wf_hello_def)
  have len: "length ?r = ?n + 5" by (simp add: r)
  show "extract_sni ?b = None"
  proof (rule ccontr)
    assume "extract_sni ?b \<noteq> None"
    then obtain pos e where "hello_header ?b pos e" by (auto simp: extract_sni_Some)
    then have b: "5 + unat (u16_from_be_bytes (?b ! 3) (?b ! 4)) \<le> length ?b"
      by (rule hello_header_length)
    then have "?b ! 3 = ?r ! 3" "?b ! 4 = ?r ! 4" by auto
    then have "?b ! 3 = of_nat (?n div 256)" "?b ! 4 = of_nat (?n mod 256)"
      by (auto simp: r be16_def)
    with b be16_read [OF n] have "5 + ?n \<le> length ?b" by simp
    with k len show False by simp
  qed
next
  assume "extract_sni buf = Some h"
  then show "extract_sni (buf @ later) = Some h"
    unfolding extract_sni_Some by (blast intro: hello_header_append extension_loop_append)
qed

theorem extract_sni_prefix_witness:
  "extract_sni (take 40 (encode_record (3, 1) example_hello)) = None"
proof -
  have "40 < length (encode_record (3, 1) example_hello)"
    by (simp add: encode_record_def example_hello_def encode_body_def Let_def)
  then show ?thesis using extract_sni_prefix [OF example_hello_wf] by blast
qed

end
