(* ===== verification/Sni_Router.thy ===== *)
theory Sni_Router
  imports Wicket_Prelude
begin

text \<open>
  The SNI router of the stream proxy (\<^verbatim>\<open>crates/wicket-stream/src/router.rs\<close>): patterns are
  compiled from a hash map, sorted (exact names first, then wildcards by the length of
  their suffix) and searched in that order. The configuration map is an association list
  whose order is the hash map's iteration order.
\<close>

section \<open>Compiled patterns\<close>

datatype CompiledPattern = Exact string | Wildcard string

definition Pattern_parse :: "string \<Rightarrow> CompiledPattern" where
  "Pattern_parse pattern =
     (let pattern_lower = to_lowercase pattern in
      case strip_prefix ''*.'' pattern_lower of
        Some sfx \<Rightarrow> Wildcard (''.'' @ sfx)
      | None \<Rightarrow> Exact pattern_lower)"

fun Pattern_matches :: "CompiledPattern \<Rightarrow> string \<Rightarrow> bool" where
  "Pattern_matches (Exact exact) hostname = (hostname = exact)"
| "Pattern_matches (Wildcard sfx) hostname =
     (case strip_suffix sfx hostname of
        Some pfx \<Rightarrow> pfx \<noteq> [] \<and> CHR ''.'' \<notin> set pfx
      | None \<Rightarrow> False)"

fun Pattern_priority :: "CompiledPattern \<Rightarrow> nat" where
  "Pattern_priority (Exact _) = 0"
| "Pattern_priority (Wildcard _) = 1"

section \<open>The router\<close>

record SniRouter =
  routes :: "(CompiledPattern \<times> string) list"
  default_upstream :: "string option"

fun wildcard_cmp :: "CompiledPattern \<Rightarrow> CompiledPattern \<Rightarrow> ordering" where
  "wildcard_cmp (Wildcard sa) (Wildcard sb) = cmp (length sb) (length sa)"
| "wildcard_cmp _ _ = Equal"

definition route_cmp :: "CompiledPattern \<times> string \<Rightarrow> CompiledPattern \<times> string \<Rightarrow> ordering" where
  "route_cmp a b =
     then_with (cmp (Pattern_priority (fst a)) (Pattern_priority (fst b))) (wildcard_cmp (fst a) (fst b))"

definition SniRouter_new :: "(string, string) hashmap \<Rightarrow> string option \<Rightarrow> SniRouter" where
  "SniRouter_new sni_routes dflt =
     \<lparr>routes = sort_by route_cmp
        (map (\<lambda>(pattern, upstream). (Pattern_parse pattern, upstream)) sni_routes),
      default_upstream = dflt\<rparr>"

fun match_loop :: "(CompiledPattern \<times> string) list \<Rightarrow> string \<Rightarrow> (CompiledPattern \<times> string) option" where
  "match_loop [] hostname_lower = None"
| "match_loop (r # rs) hostname_lower =
     (if Pattern_matches (fst r) hostname_lower then Some r else match_loop rs hostname_lower)"

definition match_sni :: "SniRouter \<Rightarrow> string option \<Rightarrow> string option" where
  "match_sni self sni =
     (case sni of
        None \<Rightarrow> default_upstream self
      | Some hostname \<Rightarrow>
          (case match_loop (routes self) (to_lowercase hostname) of
             Some (_, upstream) \<Rightarrow> Some upstream
           | None \<Rightarrow> default_upstream self))"

interpretation sni: first_match "\<lambda>r h. Pattern_matches (fst r) h" match_loop
  by unfold_locales simp_all

section \<open>Reference semantics\<close>

text \<open>
  What the documentation promises, without compiling or sorting: the entry whose pattern is
  the host name itself, else the entry for the wildcard that replaces its first label, else
  the default. Names are compared without regard to ASCII case.
\<close>

definition pattern_entry :: "(string, string) hashmap \<Rightarrow> string \<Rightarrow> string option" where
  "pattern_entry m p = map_option snd (find (\<lambda>(q, u). to_lowercase q = p) m)"

definition exact_entry :: "(string, string) hashmap \<Rightarrow> string \<Rightarrow> string option" where
  "exact_entry m h = (if starts_with h ''*.'' then None else pattern_entry m h)"

definition wildcard_entry :: "(string, string) hashmap \<Rightarrow> string \<Rightarrow> string option" where
  "wildcard_entry m h =
     (case split_once (CHR ''.'') h of
        Some (label, rest) \<Rightarrow> if label = [] then None else pattern_entry m (''*.'' @ rest)
      | None \<Rightarrow> None)"

definition sni_spec :: "(string, string) hashmap \<Rightarrow> string option \<Rightarrow> string option \<Rightarrow> string option" where
  "sni_spec m dflt sni =
     (case sni of
        None \<Rightarrow> dflt
      | Some h \<Rightarrow>
          (case exact_entry m (to_lowercase h) of
             Some u \<Rightarrow> Some u
           | None \<Rightarrow>
               (case wildcard_entry m (to_lowercase h) of
                  Some u \<Rightarrow> Some u
                | None \<Rightarrow> dflt)))"

section \<open>Sorting and searching\<close>

text \<open>The sort key behind the comparison.\<close>

fun pattern_key :: "CompiledPattern \<Rightarrow> nat \<times> int" where
  "pattern_key (Exact _) = (0, 0)"
| "pattern_key (Wildcard sfx) = (1, - int (length sfx))"

lemma route_cmp_key: "route_cmp a b \<noteq> Greater \<longleftrightarrow> pattern_key (fst a) \<le> pattern_key (fst b)"
  by (cases "fst a"; cases "fst b") (auto simp: route_cmp_def cmp_def less_eq_prod_def)

lemma SniRouter_new_routes:
  "routes (SniRouter_new m d) =
     sort_key (\<lambda>r. pattern_key (fst r)) (map (\<lambda>(p, u). (Pattern_parse p, u)) m)"
  unfolding SniRouter_new_def by (simp add: sort_by_sort_key [OF route_cmp_key])

text \<open>At most two patterns match a host name: itself, and one wildcard.\<close>

definition host_wildcard :: "string \<Rightarrow> CompiledPattern option" where
  "host_wildcard h =
     (case split_once (CHR ''.'') h of
        Some (label, rest) \<Rightarrow> if label = [] then None else Some (Wildcard (''.'' @ rest))
      | None \<Rightarrow> None)"

lemma Wildcard_matches_iff:
  "Pattern_matches (Wildcard (CHR ''.'' # s)) h \<longleftrightarrow>
     (\<exists>label. label \<noteq> [] \<and> split_once (CHR ''.'') h = Some (label, s))"
  by (auto simp: split_once_Some strip_suffix_Some strip_suffix_None split: option.splits)

lemma Pattern_matches_iff:
  "(\<exists>s. p = Wildcard (CHR ''.'' # s)) \<or> (\<exists>e. p = Exact e) \<Longrightarrow>
     Pattern_matches p h \<longleftrightarrow> p = Exact h \<or> host_wildcard h = Some p"
  by (auto simp: host_wildcard_def Wildcard_matches_iff simp del: Pattern_matches.simps(2) split: option.splits)

lemma Pattern_parse_shape:
  "(\<exists>s. Pattern_parse q = Wildcard (CHR ''.'' # s)) \<or> (\<exists>e. Pattern_parse q = Exact e)"
  by (auto simp: Pattern_parse_def Let_def split: option.splits)

lemma Pattern_parse_Exact_iff:
  "Pattern_parse q = Exact h \<longleftrightarrow> \<not> starts_with h ''*.'' \<and> to_lowercase q = h"
  by (auto simp: Pattern_parse_def Let_def str_simps split: option.splits)

lemma Pattern_parse_Wildcard_iff:
  "Pattern_parse q = Wildcard (CHR ''.'' # s) \<longleftrightarrow> to_lowercase q = ''*.'' @ s"
  by (auto simp: Pattern_parse_def Let_def str_simps split: option.splits)

lemma host_wildcard_Wildcard: "host_wildcard h = Some p \<Longrightarrow> \<exists>s. p = Wildcard s"
  by (auto simp: host_wildcard_def split: option.splits if_splits)

lemma match_loop_new:
  "match_loop (routes (SniRouter_new m d)) h =
     (case find (\<lambda>r. fst r = Exact h) (map (\<lambda>(p, u). (Pattern_parse p, u)) m) of
        Some r \<Rightarrow> Some r
      | None \<Rightarrow> find (\<lambda>r. host_wildcard h = Some (fst r)) (map (\<lambda>(p, u). (Pattern_parse p, u)) m))"
proof -
  let ?rs = "map (\<lambda>(p, u). (Pattern_parse p, u)) m"
  let ?key = "\<lambda>r. pattern_key (fst r)"
  let ?P = "\<lambda>r. Pattern_matches (fst r) h"
  let ?b = "case host_wildcard h of Some p \<Rightarrow> pattern_key p | None \<Rightarrow> (1, 0)"
  have m: "?P r \<longleftrightarrow> fst r = Exact h \<or> host_wildcard h = Some (fst r)" if "r \<in> set ?rs" for r
    using that Pattern_matches_iff [OF Pattern_parse_shape] by auto
  have b: "(0, 0) < ?b"
    by (simp add: host_wildcard_def split: option.split)
  have ka: "?P r \<and> ?key r = (0, 0) \<longleftrightarrow> fst r = Exact h" if "r \<in> set ?rs" for r
    using m [OF that] host_wildcard_Wildcard [of h "fst r"] by (cases "fst r") auto
  have kb: "?P r \<and> ?key r = ?b \<longleftrightarrow> host_wildcard h = Some (fst r)" if "r \<in> set ?rs" for r
    using m [OF that] b host_wildcard_Wildcard [of h "fst r"] by (cases "fst r") auto
  have keys: "?key r = (0, 0) \<or> ?key r = ?b" if "r \<in> set (sort_key ?key ?rs)" "?P r" for r
    using that m [of r] by auto
  have "match_loop (routes (SniRouter_new m d)) h = find ?P (sort_key ?key ?rs)"
    by (simp add: SniRouter_new_routes sni.lookup_find)
  also have "\<dots> = (case find (\<lambda>r. ?P r \<and> ?key r = (0, 0)) (sort_key ?key ?rs) of
      Some r \<Rightarrow> Some r | None \<Rightarrow> find (\<lambda>r. ?P r \<and> ?key r = ?b) (sort_key ?key ?rs))"
    by (rule find_two_keys) (rule sorted_sort_key b keys, assumption?)+
  also have "\<dots> = (case find (\<lambda>r. ?P r \<and> ?key r = (0, 0)) ?rs of
      Some r \<Rightarrow> Some r | None \<Rightarrow> find (\<lambda>r. ?P r \<and> ?key r = ?b) ?rs)"
    by (simp only: find_sort_key)
  also have "find (\<lambda>r. ?P r \<and> ?key r = (0, 0)) ?rs = find (\<lambda>r. fst r = Exact h) ?rs"
    by (rule find_cong_P) (rule ka)
  also have "find (\<lambda>r. ?P r \<and> ?key r = ?b) ?rs = find (\<lambda>r. host_wildcard h = Some (fst r)) ?rs"
    by (rule find_cong_P) (rule kb)
  finally show ?thesis .
qed

lemma exact_entry_find:
  "exact_entry m h = map_option snd (find (\<lambda>r. fst r = Exact h) (map (\<lambda>(p, u). (Pattern_parse p, u)) m))"
  by (auto simp: exact_entry_def pattern_entry_def find_map_option option.map_comp Pattern_parse_Exact_iff
      find_None_iff split_def o_def)

lemma wildcard_entry_find:
  "wildcard_entry m h =
     map_option snd (find (\<lambda>r. host_wildcard h = Some (fst r)) (map (\<lambda>(p, u). (Pattern_parse p, u)) m))"
proof -
  have "Wildcard (CHR ''.'' # s) = Pattern_parse q \<longleftrightarrow> to_lowercase q = ''*.'' @ s" for s q
    using Pattern_parse_Wildcard_iff [of q s] by auto
  then show ?thesis
    by (auto simp: wildcard_entry_def pattern_entry_def host_wildcard_def find_map_option option.map_comp
        split_def o_def find_None_iff split: option.splits)
qed

lemma match_sni_spec: "match_sni (SniRouter_new m d) sni = sni_spec m d sni"
proof (cases sni)
  case (Some h)
  then show ?thesis
    unfolding match_sni_def sni_spec_def
    by (simp add: match_loop_new exact_entry_find wildcard_entry_find split: option.splits)
       (simp add: SniRouter_new_def)
qed (simp add: match_sni_def sni_spec_def SniRouter_new_def)

text \<open>With distinct lower-cased patterns an entry does not depend on the order of the map.\<close>

lemma pattern_entry_Some_iff:
  assumes "distinct (map (\<lambda>(p, u). to_lowercase p) m)"
  shows "pattern_entry m p = Some u \<longleftrightarrow> (\<exists>q. (q, u) \<in> set m \<and> to_lowercase q = p)"
  using assms by (induction m) (force simp: pattern_entry_def)+

lemma pattern_entry_perm:
  assumes "distinct (map (\<lambda>(p, u). to_lowercase p) m)" "mset m' = mset m"
  shows "pattern_entry m' p = pattern_entry m p"
proof -
  have "set m' = set m" using assms(2) by (metis set_mset_mset)
  moreover have "mset (map (\<lambda>(p, u). to_lowercase p) m') = mset (map (\<lambda>(p, u). to_lowercase p) m)"
    using assms(2) by simp
  then have "distinct (map (\<lambda>(p, u). to_lowercase p) m')"
    using assms(1) by (metis distinct_count_atmost_1 set_mset_mset)
  ultimately show ?thesis
    using pattern_entry_Some_iff [OF assms(1), of p] pattern_entry_Some_iff [of m' p]
    by (intro option_eqI) simp
qed

section \<open>Properties\<close>

text \<open>
  C4: the compiled, sorted router answers every lookup as the documented semantics does:
  exact name, else the wildcard for the first label, else the default. In particular the
  ordering of wildcards by suffix length never decides between two matches, and a wildcard
  covers exactly one non-empty label.
\<close>

theorem match_sni_refines_spec: "match_sni (SniRouter_new m d) sni = sni_spec m d sni"
  by (rule match_sni_spec)

lemma example_lower:
  "to_lowercase ''A.io'' = ''a.io''" "to_lowercase ''a.io'' = ''a.io''"
  "to_lowercase ''a.b'' = ''a.b''" "to_lowercase ''*.b'' = ''*.b''"
  by code_simp+

lemma example_entry:
  "exact_entry [(''A.io'', ''x''), (''a.io'', ''y'')] ''a.io'' = Some ''x''"
  "exact_entry [(''a.io'', ''y''), (''A.io'', ''x'')] ''a.io'' = Some ''y''"
  by code_simp+

text \<open>
  the router is a function of the configured map and not of the hash map's iteration
  order, provided no two patterns differ only in case; two that do make the answer depend
  on that order.
\<close>

theorem match_sni_order_independent:
  "distinct (map (\<lambda>(p, u). to_lowercase p) m) \<Longrightarrow> mset m' = mset m \<Longrightarrow>
     match_sni (SniRouter_new m' d) sni = match_sni (SniRouter_new m d) sni \<and>
     match_sni (SniRouter_new [(''A.io'', ''x''), (''a.io'', ''y'')] d) (Some ''a.io'') \<noteq>
     match_sni (SniRouter_new [(''a.io'', ''y''), (''A.io'', ''x'')] d) (Some ''a.io'')"
proof (intro conjI)
  assume "distinct (map (\<lambda>(p, u). to_lowercase p) m)" "mset m' = mset m"
  then have eq: "pattern_entry m' = pattern_entry m" by (intro ext pattern_entry_perm)
  show "match_sni (SniRouter_new m' d) sni = match_sni (SniRouter_new m d) sni"
    unfolding match_sni_spec sni_spec_def exact_entry_def wildcard_entry_def eq ..
next
  show "match_sni (SniRouter_new [(''A.io'', ''x''), (''a.io'', ''y'')] d) (Some ''a.io'') \<noteq>
     match_sni (SniRouter_new [(''a.io'', ''y''), (''A.io'', ''x'')] d) (Some ''a.io'')"
    by (simp add: match_sni_spec sni_spec_def example_lower example_entry)
qed

theorem match_sni_order_independent_witness:
  "match_sni (SniRouter_new [(''*.b'', ''x''), (''a.b'', ''y'')] None) (Some ''c.b'') =
   match_sni (SniRouter_new [(''a.b'', ''y''), (''*.b'', ''x'')] None) (Some ''c.b'')"
  by (rule match_sni_order_independent [THEN conjunct1]) (simp_all add: example_lower)

end
