(* ===== verification/Net_Addr.thy ===== *)
theory Net_Addr
  imports Wicket_Prelude
begin

text \<open>
  The part of \<^verbatim>\<open>std::net\<close> the program uses: IP and socket addresses, their textual form
  (\<^verbatim>\<open>Display\<close>) and the standard library's recursive-descent parser (\<^verbatim>\<open>FromStr\<close>). A parser takes
  the remaining input and returns a value with the input that is left; \<^verbatim>\<open>read_atomically\<close>,
  which restores the input on failure, is the option type.
\<close>

datatype Ipv4Addr = Ipv4 u8 u8 u8 u8

datatype Ipv6Addr = Ipv6 u16 u16 u16 u16 u16 u16 u16 u16

datatype IpAddr = V4 Ipv4Addr | V6 Ipv6Addr

datatype SocketAddr =
  SocketAddrV4 Ipv4Addr u16
| SocketAddrV6 Ipv6Addr u16 u32

fun addr_ip :: "SocketAddr \<Rightarrow> IpAddr" where
  "addr_ip (SocketAddrV4 ip _) = V4 ip"
| "addr_ip (SocketAddrV6 ip _ _) = V6 ip"

fun addr_port :: "SocketAddr \<Rightarrow> u16" where
  "addr_port (SocketAddrV4 _ p) = p"
| "addr_port (SocketAddrV6 _ p _) = p"

definition is_ipv4 :: "SocketAddr \<Rightarrow> bool" where
  "is_ipv4 a = (case a of SocketAddrV4 _ _ \<Rightarrow> True | SocketAddrV6 _ _ _ \<Rightarrow> False)"

fun octets4 :: "Ipv4Addr \<Rightarrow> u8 list" where
  "octets4 (Ipv4 a b c d) = [a, b, c, d]"

fun segments :: "Ipv6Addr \<Rightarrow> u16 list" where
  "segments (Ipv6 a b c d e f g h) = [a, b, c, d, e, f, g, h]"

definition octets6 :: "Ipv6Addr \<Rightarrow> u8 list" where
  "octets6 ip = concat (map u16_to_be_bytes (segments ip))"

fun ipv6_of :: "u16 list \<Rightarrow> Ipv6Addr option" where
  "ipv6_of [a, b, c, d, e, f, g, h] = Some (Ipv6 a b c d e f g h)"
| "ipv6_of _ = None"

definition UNSPECIFIED4 :: Ipv4Addr where
  "UNSPECIFIED4 = Ipv4 0 0 0 0"

fun to_ipv4_mapped :: "Ipv6Addr \<Rightarrow> Ipv4Addr option" where
  "to_ipv4_mapped (Ipv6 a b c d e f g h) =
     (if a = 0 \<and> b = 0 \<and> c = 0 \<and> d = 0 \<and> e = 0 \<and> f = 0xFFFF
      then Some (Ipv4 (ucast (drop_bit 8 g)) (ucast g) (ucast (drop_bit 8 h)) (ucast h))
      else None)"

fun to_ipv6_mapped :: "Ipv4Addr \<Rightarrow> Ipv6Addr" where
  "to_ipv6_mapped (Ipv4 a b c d) =
     Ipv6 0 0 0 0 0 0xFFFF (u16_from_be_bytes a b) (u16_from_be_bytes c d)"

section \<open>Numbers as text\<close>

definition digit_char :: "nat \<Rightarrow> char" where
  "digit_char d = char_of (if d < 10 then 48 + d else 87 + d)"

definition to_digit :: "nat \<Rightarrow> char \<Rightarrow> nat option" where
  "to_digit radix c =
     (let n = (of_char c :: nat);
          d = (if 48 \<le> n \<and> n \<le> 57 then n - 48
               else if 97 \<le> n \<and> n \<le> 122 then n - 87
               else if 65 \<le> n \<and> n \<le> 90 then n - 55
               else radix)
      in if d < radix then Some d else None)"

function show_radix :: "nat \<Rightarrow> nat \<Rightarrow> string" where
  "show_radix r n =
     (if r \<le> 1 \<or> n < r then [digit_char n] else show_radix r (n div r) @ [digit_char (n mod r)])"
  by auto
termination by (relation "measure snd") auto

declare show_radix.simps [simp del]

abbreviation show_nat :: "nat \<Rightarrow> string" where "show_nat \<equiv> show_radix 10"

text \<open>
  \<^verbatim>\<open>Parser::read_number\<close>: with a maximal number of digits the value is converted at the end,
  without one every step is checked against the bound of the result type.
\<close>

fun number_loop ::
  "nat \<Rightarrow> nat option \<Rightarrow> nat \<Rightarrow> nat \<Rightarrow> nat \<Rightarrow> string \<Rightarrow> (nat \<times> nat \<times> string) option" where
  "number_loop radix max_digits bound acc cnt [] = Some (acc, cnt, [])"
| "number_loop radix max_digits bound acc cnt (c # cs) =
     (case to_digit radix c of
        None \<Rightarrow> Some (acc, cnt, c # cs)
      | Some d \<Rightarrow>
          (case max_digits of
             Some m \<Rightarrow>
               if cnt + 1 > m then None
               else number_loop radix max_digits bound (acc * radix + d) (cnt + 1) cs
           | None \<Rightarrow>
               if acc * radix > bound \<or> acc * radix + d > bound then None
               else number_loop radix max_digits bound (acc * radix + d) (cnt + 1) cs))"

definition read_number ::
  "nat \<Rightarrow> nat option \<Rightarrow> bool \<Rightarrow> nat \<Rightarrow> string \<Rightarrow> (nat \<times> string) option" where
  "read_number radix max_digits allow_zero_prefix bound s =
     (case number_loop radix max_digits bound 0 0 s of
        None \<Rightarrow> None
      | Some (v, digit_count, rest) \<Rightarrow>
          if digit_count = 0 then None
          else if \<not> allow_zero_prefix \<and> hd s = CHR ''0'' \<and> digit_count > 1 then None
          else if v \<le> bound then Some (v, rest) else None)"

fun read_given_char :: "char \<Rightarrow> string \<Rightarrow> string option" where
  "read_given_char c [] = None"
| "read_given_char c (x # xs) = (if x = c then Some xs else None)"

definition read_separator ::
  "char \<Rightarrow> nat \<Rightarrow> (string \<Rightarrow> ('a \<times> string) option) \<Rightarrow> string \<Rightarrow> ('a \<times> string) option" where
  "read_separator sep index p s =
     (if index > 0 then Option.bind (read_given_char sep s) p else p s)"

definition read_octet :: "string \<Rightarrow> (u8 \<times> string) option" where
  "read_octet s = map_option (\<lambda>(v, r). (of_nat v, r)) (read_number 10 (Some 3) False 255 s)"

definition read_ipv4_addr :: "string \<Rightarrow> (Ipv4Addr \<times> string) option" where
  "read_ipv4_addr s = do {
     (a, s) \<leftarrow> read_separator CHR ''.'' 0 read_octet s;
     (b, s) \<leftarrow> read_separator CHR ''.'' 1 read_octet s;
     (c, s) \<leftarrow> read_separator CHR ''.'' 2 read_octet s;
     (d, s) \<leftarrow> read_separator CHR ''.'' 3 read_octet s;
     Some (Ipv4 a b c d, s) }"

text \<open>
  \<^verbatim>\<open>read_groups\<close> of the IPv6 parser: reads up to \<^verbatim>\<open>limit\<close> groups and returns them, whether they
  ended in an embedded IPv4 address, and the rest of the input.
\<close>

fun read_groups :: "nat \<Rightarrow> nat \<Rightarrow> u16 list \<Rightarrow> string \<Rightarrow> u16 list \<times> bool \<times> string" where
  "read_groups 0 i acc s = (acc, False, s)"
| "read_groups (Suc left) i acc s =
     (case (if left > 0 then read_separator CHR '':'' i read_ipv4_addr s else None) of
        Some (Ipv4 a b c d, rest) \<Rightarrow>
          (acc @ [u16_from_be_bytes a b, u16_from_be_bytes c d], True, rest)
      | None \<Rightarrow>
          (case read_separator CHR '':'' i (read_number 16 (Some 4) True 65535) s of
             Some (g, rest) \<Rightarrow> read_groups left (Suc i) (acc @ [of_nat g]) rest
           | None \<Rightarrow> (acc, False, s)))"

definition read_ipv6_addr :: "string \<Rightarrow> (Ipv6Addr \<times> string) option" where
  "read_ipv6_addr s =
     (case read_groups 8 0 [] s of
        (head, head_ipv4, s1) \<Rightarrow>
          if length head = 8 then map_option (\<lambda>ip. (ip, s1)) (ipv6_of head)
          else if head_ipv4 then None
          else do {
            s2 \<leftarrow> read_given_char CHR '':'' s1;
            s3 \<leftarrow> read_given_char CHR '':'' s2;
            let (tail, _, s4) = read_groups (8 - (length head + 1)) 0 [] s3;
            map_option (\<lambda>ip. (ip, s4))
              (ipv6_of (head @ replicate (8 - length head - length tail) 0 @ tail)) })"

definition read_port :: "string \<Rightarrow> (u16 \<times> string) option" where
  "read_port s = do {
     s \<leftarrow> read_given_char CHR '':'' s;
     map_option (\<lambda>(v, r). (of_nat v, r)) (read_number 10 None True 65535 s) }"

definition read_scope_id :: "string \<Rightarrow> (u32 \<times> string) option" where
  "read_scope_id s = do {
     s \<leftarrow> read_given_char CHR ''%'' s;
     map_option (\<lambda>(v, r). (of_nat v, r)) (read_number 10 None True 4294967295 s) }"

definition read_socket_addr_v4 :: "string \<Rightarrow> (SocketAddr \<times> string) option" where
  "read_socket_addr_v4 s = do {
     (ip, s) \<leftarrow> read_ipv4_addr s;
     (port, s) \<leftarrow> read_port s;
     Some (SocketAddrV4 ip port, s) }"

definition read_socket_addr_v6 :: "string \<Rightarrow> (SocketAddr \<times> string) option" where
  "read_socket_addr_v6 s = do {
     s \<leftarrow> read_given_char CHR ''['' s;
     (ip, s) \<leftarrow> read_ipv6_addr s;
     let (scope_id, s) = (case read_scope_id s of Some (i, r) \<Rightarrow> (i, r) | None \<Rightarrow> (0, s));
     s \<leftarrow> read_given_char CHR '']'' s;
     (port, s) \<leftarrow> read_port s;
     Some (SocketAddrV6 ip port scope_id, s) }"

definition read_socket_addr :: "string \<Rightarrow> (SocketAddr \<times> string) option" where
  "read_socket_addr s =
     (case read_socket_addr_v4 s of Some r \<Rightarrow> Some r | None \<Rightarrow> read_socket_addr_v6 s)"

definition parse_socket_addr :: "string \<Rightarrow> SocketAddr option" where
  "parse_socket_addr s =
     (case read_socket_addr s of Some (a, []) \<Rightarrow> Some a | _ \<Rightarrow> None)"

section \<open>Display\<close>

fun show_ipv4 :: "Ipv4Addr \<Rightarrow> string" where
  "show_ipv4 (Ipv4 a b c d) =
     show_nat (unat a) @ ''.'' @ show_nat (unat b) @ ''.'' @ show_nat (unat c) @ ''.'' @ show_nat (unat d)"

text \<open>The longest run of zero groups: (start, length), the first one where several are longest.\<close>

fun zero_run :: "nat \<Rightarrow> nat \<times> nat \<Rightarrow> nat \<times> nat \<Rightarrow> u16 list \<Rightarrow> nat \<times> nat" where
  "zero_run i longest current [] = longest"
| "zero_run i longest current (g # gs) =
     (if g = 0
      then let current = (if snd current = 0 then (i, 1) else (fst current, snd current + 1))
           in zero_run (Suc i) (if snd current > snd longest then current else longest) current gs
      else zero_run (Suc i) longest (0, 0) gs)"

fun fmt_subslice :: "u16 list \<Rightarrow> string" where
  "fmt_subslice [] = []"
| "fmt_subslice [g] = show_radix 16 (unat g)"
| "fmt_subslice (g # gs) = show_radix 16 (unat g) @ '':'' @ fmt_subslice gs"

definition show_ipv6 :: "Ipv6Addr \<Rightarrow> string" where
  "show_ipv6 ip =
     (case to_ipv4_mapped ip of
        Some ip4 \<Rightarrow> ''::ffff:'' @ show_ipv4 ip4
      | None \<Rightarrow>
          (case zero_run 0 (0, 0) (0, 0) (segments ip) of
             (start, len) \<Rightarrow>
               if len > 1
               then fmt_subslice (take start (segments ip)) @ ''::'' @
                    fmt_subslice (drop (start + len) (segments ip))
               else fmt_subslice (segments ip)))"

fun show_ip :: "IpAddr \<Rightarrow> string" where
  "show_ip (V4 ip) = show_ipv4 ip"
| "show_ip (V6 ip) = show_ipv6 ip"

fun show_socket_addr :: "SocketAddr \<Rightarrow> string" where
  "show_socket_addr (SocketAddrV4 ip port) = show_ipv4 ip @ '':'' @ show_nat (unat port)"
| "show_socket_addr (SocketAddrV6 ip port scope_id) =
     ''['' @ show_ipv6 ip @ (if scope_id = 0 then [] else ''%'' @ show_nat (unat scope_id)) @
     '']:'' @ show_nat (unat port)"

section \<open>Reading back what was shown\<close>

lemma to_digit_digit_char: "d < r \<Longrightarrow> r \<le> 36 \<Longrightarrow> to_digit r (digit_char d) = Some d"
  by (auto simp: to_digit_def digit_char_def Let_def of_char_of)

lemma show_radix_nonempty [simp]: "show_radix r n \<noteq> []"
  by (subst show_radix.simps) simp

definition stops :: "nat \<Rightarrow> string \<Rightarrow> bool" where
  "stops r rest = (case rest of [] \<Rightarrow> True | c # _ \<Rightarrow> to_digit r c = None)"

lemma number_loop_stops: "stops r rest \<Longrightarrow> number_loop r m b acc k rest = Some (acc, k, rest)"
  by (cases rest) (simp_all add: stops_def)

lemma number_loop_show_max:
  assumes "2 \<le> r" "r \<le> 36" "k + length (show_radix r n) \<le> m"
  shows "number_loop r (Some m) b acc k (show_radix r n @ rest) =
    number_loop r (Some m) b (acc * r ^ length (show_radix r n) + n) (k + length (show_radix r n)) rest"
  using assms
proof (induction r n arbitrary: rest rule: show_radix.induct)
  case (1 r n)
  show ?case
  proof (cases "n < r")
    case True
    with 1 show ?thesis by (simp add: show_radix.simps [of r n] to_digit_digit_char)
  next
    case False
    with 1 have eq: "show_radix r n = show_radix r (n div r) @ [digit_char (n mod r)]"
      by (simp add: show_radix.simps [of r n])
    from 1 False have IH: "\<And>rest. number_loop r (Some m) b acc k (show_radix r (n div r) @ rest) =
       number_loop r (Some m) b (acc * r ^ length (show_radix r (n div r)) + n div r)
         (k + length (show_radix r (n div r))) rest"
      by (simp add: eq)
    from 1 show ?thesis
      unfolding eq by (simp add: IH to_digit_digit_char algebra_simps)
  qed
qed

lemma number_loop_show_bound:
  assumes "2 \<le> r" "r \<le> 36" "acc * r ^ length (show_radix r n) + n \<le> b"
  shows "number_loop r None b acc k (show_radix r n @ rest) =
    number_loop r None b (acc * r ^ length (show_radix r n) + n) (k + length (show_radix r n)) rest"
  using assms
proof (induction r n arbitrary: rest rule: show_radix.induct)
  case (1 r n)
  show ?case
  proof (cases "n < r")
    case True
    with 1 show ?thesis by (simp add: show_radix.simps [of r n] to_digit_digit_char)
  next
    case False
    let ?v = "acc * r ^ length (show_radix r (n div r)) + n div r"
    from 1 False have eq: "show_radix r n = show_radix r (n div r) @ [digit_char (n mod r)]"
      by (simp add: show_radix.simps [of r n])
    have v: "?v * r + n mod r = acc * r ^ length (show_radix r n) + n"
      by (simp add: eq algebra_simps)
    have "?v \<le> ?v * r" using 1(2) by simp
    then have v1: "?v \<le> b" "?v * r \<le> b" "?v * r + n mod r \<le> b" using v 1(4) by linarith+
    with 1 False have IH: "\<And>rest. number_loop r None b acc k (show_radix r (n div r) @ rest) =
       number_loop r None b ?v (k + length (show_radix r (n div r))) rest" by simp
    have "number_loop r None b acc k (show_radix r n @ rest) =
        number_loop r None b (?v * r + n mod r) (k + length (show_radix r n)) rest"
      unfolding eq append.assoc IH using 1(2,3) v1(2,3) by (simp add: to_digit_digit_char not_less)
    then show ?thesis unfolding v .
  qed
qed

lemma length_show_radix: "n < r ^ k \<Longrightarrow> 0 < k \<Longrightarrow> 2 \<le> r \<Longrightarrow> length (show_radix r n) \<le> k"
proof (induction k arbitrary: n)
  case (Suc k)
  show ?case
  proof (cases "n < r")
    case True then show ?thesis by (simp add: show_radix.simps [of r n])
  next
    case False
    with Suc.prems have "0 < k" by (cases k) auto
    moreover have "n div r < r ^ k" using Suc.prems by (simp add: less_mult_imp_div_less mult.commute)
    ultimately show ?thesis using Suc False by (simp add: show_radix.simps [of r n])
  qed
qed simp

lemma digit_char_zero: "d < 36 \<Longrightarrow> digit_char d = CHR ''0'' \<longleftrightarrow> d = 0"
proof -
  have "digit_char 0 = CHR ''0''" by code_simp
  then show "d < 36 \<Longrightarrow> ?thesis"
    using to_digit_digit_char [of d 36] to_digit_digit_char [of 0 36] by auto
qed

lemma show_radix_no_leading_zero:
  "2 \<le> r \<Longrightarrow> r \<le> 36 \<Longrightarrow> hd (show_radix r n) = CHR ''0'' \<Longrightarrow> n = 0"
proof (induction r n rule: show_radix.induct)
  case (1 r n)
  then show ?case
    by (cases "n < r") (auto simp: show_radix.simps [of r n] digit_char_zero div_eq_0_iff)
qed

lemma read_number_show:
  assumes "2 \<le> r" "r \<le> 36" "n \<le> b" "stops r rest"
    and "case md of Some m \<Rightarrow> n < r ^ m \<and> 0 < m | None \<Rightarrow> True"
  shows "read_number r md z b (show_radix r n @ rest) = Some (n, rest)"
proof -
  have "number_loop r md b 0 0 (show_radix r n @ rest) = Some (n, length (show_radix r n), rest)"
    using assms length_show_radix [of n r]
    by (cases md) (simp_all add: number_loop_show_max number_loop_show_bound number_loop_stops)
  moreover have "\<not> (hd (show_radix r n) = CHR ''0'' \<and> length (show_radix r n) > 1)"
    using show_radix_no_leading_zero [OF assms(1,2), of n] assms(1)
    by (auto simp: show_radix.simps [of r 0])
  ultimately show ?thesis using assms(3) by (auto simp: read_number_def)
qed

lemma read_octet_show: "stops 10 rest \<Longrightarrow> read_octet (show_nat (unat a) @ rest) = Some (a, rest)"
  using unat_u8_bound [of a] by (simp add: read_octet_def read_number_show)

lemma stops_simps [simp]:
  "stops 10 []" "stops 10 (CHR ''.'' # s)" "stops 10 (CHR '':'' # s)" "stops 10 (CHR '']'' # s)"
  by (simp_all add: stops_def to_digit_def)

lemma read_ipv4_addr_show: "stops 10 rest \<Longrightarrow> read_ipv4_addr (show_ipv4 ip @ rest) = Some (ip, rest)"
  by (cases ip) (simp add: read_ipv4_addr_def read_separator_def read_octet_show)

lemma read_port_show: "stops 10 rest \<Longrightarrow> read_port ('':'' @ show_nat (unat p) @ rest) = Some (p, rest)"
  using unat_u16_bound [of p] by (simp add: read_port_def read_number_show)

lemma parse_show_v4: "parse_socket_addr (show_socket_addr (SocketAddrV4 ip port)) = Some (SocketAddrV4 ip port)"
  using read_port_show [of "[]" port]
  by (simp add: parse_socket_addr_def read_socket_addr_def read_socket_addr_v4_def read_ipv4_addr_show)

text \<open>
  IPv6: the group reader first tries an embedded IPv4 address, which fails on a group that is
  not followed by a dot.
\<close>

lemma number_loop_consumes:
  "number_loop r m b acc k s = Some (v, n, rest) \<Longrightarrow>
     stops r rest \<and> (\<exists>ds. s = ds @ rest \<and> (\<forall>c\<in>set ds. to_digit r c \<noteq> None))"
proof (induction r m b acc k s rule: number_loop.induct)
  case (2 r m b acc k c cs)
  show ?case
  proof (cases "to_digit r c")
    case None
    with 2(3) show ?thesis by (auto simp: stops_def)
  next
    case (Some d)
    then have "stops r rest \<and> (\<exists>ds. cs = ds @ rest \<and> (\<forall>c\<in>set ds. to_digit r c \<noteq> None))"
      using 2 by (auto split: option.splits if_splits)
    then obtain ds where "stops r rest" "cs = ds @ rest" "\<forall>c\<in>set ds. to_digit r c \<noteq> None" by blast
    with Some show ?thesis by (intro conjI exI [of _ "c # ds"]) auto
  qed
qed (simp add: stops_def)

lemma read_octet_consumes:
  "read_octet s = Some (v, rest) \<Longrightarrow> \<exists>ds. s = ds @ rest \<and> (\<forall>c\<in>set ds. to_digit 10 c \<noteq> None)"
  by (auto simp: read_octet_def read_number_def split: option.splits if_splits dest!: number_loop_consumes)

lemma to_digit_10_16: "to_digit 10 c \<noteq> None \<Longrightarrow> to_digit 16 c \<noteq> None"
  by (auto simp: to_digit_def Let_def split: if_splits)

lemma show_radix_digits: "2 \<le> r \<Longrightarrow> r \<le> 36 \<Longrightarrow> c \<in> set (show_radix r n) \<Longrightarrow> to_digit r c \<noteq> None"
proof (induction r n rule: show_radix.induct)
  case (1 r n)
  then show ?case
    by (cases "n < r") (auto simp: show_radix.simps [of r n] to_digit_digit_char)
qed

definition group_end :: "string \<Rightarrow> bool" where
  "group_end rest = (stops 16 rest \<and> (case rest of c # _ \<Rightarrow> c \<noteq> CHR ''.'' | [] \<Rightarrow> True))"

lemma read_ipv4_addr_None:
  assumes "group_end rest" "\<forall>c\<in>set ds. to_digit 16 c \<noteq> None"
  shows "read_ipv4_addr (ds @ rest) = None"
proof (rule ccontr)
  assume "read_ipv4_addr (ds @ rest) \<noteq> None"
  then obtain a t t' where a: "read_octet (ds @ rest) = Some (a, t)" and t: "t = CHR ''.'' # t'"
    by (auto simp: read_ipv4_addr_def read_separator_def bind_eq_Some_conv elim!: read_given_char.elims
        split: if_splits)
  from read_octet_consumes [OF a] obtain es where es: "ds @ rest = es @ t" "\<forall>c\<in>set es. to_digit 10 c \<noteq> None"
    by blast
  from es(1) obtain us where "ds = es @ us \<and> us @ rest = t \<or> ds @ us = es \<and> rest = us @ t"
    by (auto simp: append_eq_append_conv2)
  then show False
  proof
    assume *: "ds = es @ us \<and> us @ rest = t"
    show False
    proof (cases us)
      case Nil
      with * t assms(1) show False by (auto simp: group_end_def)
    next
      case (Cons u us')
      with * t have "CHR ''.'' \<in> set ds" by auto
      with assms(2) show False by (auto simp: to_digit_def)
    qed
  next
    assume *: "ds @ us = es \<and> rest = us @ t"
    show False
    proof (cases us)
      case Nil
      with * t assms(1) show False by (auto simp: group_end_def)
    next
      case (Cons u us')
      then have "u \<in> set es" using * by auto
      with es(2) have "to_digit 16 u \<noteq> None" by (simp add: to_digit_10_16)
      with Cons * assms(1) show False by (auto simp: group_end_def stops_def)
    qed
  qed
qed

lemma read_ipv4_addr_group:
  "group_end rest \<Longrightarrow> read_ipv4_addr (show_radix 16 n @ rest) = None"
  by (rule read_ipv4_addr_None) (auto dest: show_radix_digits [rotated 2])

lemma read_group_show:
  "group_end rest \<Longrightarrow> read_number 16 (Some 4) True 65535 (show_radix 16 (unat g) @ rest) = Some (unat (g :: u16), rest)"
  using unat_u16_bound [of g] by (simp add: read_number_show group_end_def)

text \<open>The text of further groups, and input after which no further group can be read.\<close>

definition more_groups :: "u16 list \<Rightarrow> string" where
  "more_groups gs = concat (map (\<lambda>g. '':'' @ show_radix 16 (unat g)) gs)"

lemma more_groups_simps [simp]:
  "more_groups [] = []" "more_groups (g # gs) = '':'' @ show_radix 16 (unat g) @ more_groups gs"
  by (simp_all add: more_groups_def)

lemma fmt_subslice_Cons: "fmt_subslice (g # gs) = show_radix 16 (unat g) @ more_groups gs"
  by (induction gs arbitrary: g) simp_all

definition no_group :: "string \<Rightarrow> bool" where
  "no_group rest = (group_end rest \<and> (case rest of CHR '':'' # r \<Rightarrow> group_end r | _ \<Rightarrow> True))"

lemma read_number_stops: "stops r s \<Longrightarrow> read_number r m z b s = None"
  by (simp add: read_number_def number_loop_stops)

lemma group_end_more: "no_group rest \<Longrightarrow> group_end (more_groups gs @ rest)"
  by (cases gs) (simp_all add: no_group_def group_end_def stops_def to_digit_def)

lemma read_separator_no_group:
  assumes "no_group rest"
  shows "read_separator CHR '':'' i read_ipv4_addr rest = None"
    and "read_separator CHR '':'' i (read_number 16 (Some 4) True 65535) rest = None"
proof -
  have *: "read_ipv4_addr r = None \<and> read_number 16 (Some 4) True 65535 r = None" if "group_end r" for r
    using that read_ipv4_addr_None [of r "[]"] by (auto simp: group_end_def read_number_stops)
  have "group_end rest" using assms by (simp add: no_group_def)
  moreover have "group_end r" if "read_given_char CHR '':'' rest = Some r" for r
    using that assms by (cases rest) (auto simp: no_group_def split: if_splits)
  ultimately show "read_separator CHR '':'' i read_ipv4_addr rest = None"
    "read_separator CHR '':'' i (read_number 16 (Some 4) True 65535) rest = None"
    using * by (cases "read_given_char CHR '':'' rest"; simp add: read_separator_def)+
qed

lemma read_groups_stop: "no_group rest \<Longrightarrow> read_groups n i acc rest = (acc, False, rest)"
  by (cases n) (simp_all add: read_separator_no_group)

lemma read_groups_more:
  assumes "length gs \<le> n" "0 < i" "no_group rest"
  shows "read_groups n i acc (more_groups gs @ rest) = (acc @ gs, False, rest)"
  using assms
proof (induction gs arbitrary: n i acc)
  case Nil
  then show ?case by (simp add: read_groups_stop)
next
  case (Cons g gs)
  then obtain n' where n: "n = Suc n'" by (cases n) auto
  note e = group_end_more [OF Cons.prems(3), of gs]
  show ?case
    using Cons.prems Cons.IH [of n' "Suc i" "acc @ [g]"] unfolding n
    by (auto simp: read_separator_def read_ipv4_addr_group [OF e] read_group_show [OF e])
qed

lemma read_groups_fmt:
  assumes "length gs \<le> n" "no_group rest"
  shows "read_groups n 0 [] (fmt_subslice gs @ rest) = (gs, False, rest)"
proof (cases gs)
  case Nil
  with assms(2) show ?thesis by (simp add: read_groups_stop)
next
  case (Cons g gs')
  then obtain n' where n: "n = Suc n'" using assms(1) by (cases n) auto
  note e = group_end_more [OF assms(2), of gs']
  show ?thesis
    using assms read_groups_more [of gs' n' 1 rest "[g]"] unfolding n Cons fmt_subslice_Cons
    by (auto simp: read_separator_def read_ipv4_addr_group [OF e] read_group_show [OF e])
qed

definition zero_span :: "u16 list \<Rightarrow> nat \<times> nat \<Rightarrow> bool" where
  "zero_span xs sp = (fst sp + snd sp \<le> length xs \<and> take (snd sp) (drop (fst sp) xs) = replicate (snd sp) 0)"

lemma zero_run_span:
  assumes "zero_span done longest" "zero_span done current" "snd current > 0 \<longrightarrow> fst current + snd current = length done"
  shows "zero_span (done @ gs) (zero_run (length done) longest current gs)"
  using assms
proof (induction gs arbitrary: "done" longest current)
  case (Cons g gs)
  have grow: "zero_span (done @ [g]) sp" if "zero_span done sp" for sp
    using that by (auto simp: zero_span_def)
  show ?case
  proof (cases "g = 0")
    case True
    let ?c = "if snd current = 0 then (length done, 1) else (fst current, snd current + 1)"
    have c: "zero_span (done @ [g]) ?c" "fst ?c + snd ?c = length (done @ [g])"
      using Cons.prems(2,3) True by (auto simp: zero_span_def replicate_append_same)
    have "zero_span ((done @ [g]) @ gs)
        (zero_run (length (done @ [g])) (if snd ?c > snd longest then ?c else longest) ?c gs)"
      by (rule Cons.IH) (use c grow [OF Cons.prems(1)] in auto)
    with True show ?thesis by (simp add: Let_def)
  next
    case False
    have "zero_span ((done @ [g]) @ gs) (zero_run (length (done @ [g])) longest (0, 0) gs)"
      by (rule Cons.IH) (use grow [OF Cons.prems(1)] in \<open>auto simp: zero_span_def\<close>)
    with False show ?thesis by simp
  qed
qed simp

lemma zero_span_split: "zero_span xs (s, l) \<Longrightarrow> xs = take s xs @ replicate l 0 @ drop (s + l) xs"
  unfolding zero_span_def by (metis append_take_drop_id drop_drop add.commute fst_conv snd_conv)

lemma ipv6_of_segments [simp]: "ipv6_of (segments ip) = Some ip"
  by (cases ip) simp

lemma length_segments [simp]: "length (segments ip) = 8"
  by (cases ip) simp

lemma to_ipv4_mapped_Some: "to_ipv4_mapped ip = Some ip4 \<Longrightarrow> ip = to_ipv6_mapped ip4"
  by (cases ip) (auto simp: u16_from_to_be_bytes split: if_splits)

lemma read_groups_mapped:
  assumes "stops 10 rest"
  shows "read_groups 7 0 [] (''ffff:'' @ show_ipv4 (Ipv4 a b c d) @ rest) =
    ([0xFFFF, u16_from_be_bytes a b, u16_from_be_bytes c d], True, rest)"
proof -
  let ?r = "CHR '':'' # show_ipv4 (Ipv4 a b c d) @ rest"
  have e: "group_end ?r" by (simp add: group_end_def stops_def to_digit_def)
  have "digit_char 15 = CHR ''f''" by code_simp
  then have f: "show_radix 16 (unat (0xFFFF :: u16)) = ''ffff''"
    by (simp add: show_radix.simps [of 16 65535] show_radix.simps [of 16 4095]
        show_radix.simps [of 16 255] show_radix.simps [of 16 15])
  have "read_ipv4_addr (''ffff'' @ ?r) = None"
    "read_number 16 (Some 4) True 65535 (''ffff'' @ ?r) = Some (65535, ?r)"
    using read_ipv4_addr_group [OF e, of "unat (0xFFFF :: u16)"] read_group_show [OF e, of "0xFFFF"]
    unfolding f by simp_all
  moreover have "read_groups 6 (Suc 0) [0xFFFF] ?r =
      ([0xFFFF, u16_from_be_bytes a b, u16_from_be_bytes c d], True, rest)"
    using read_groups.simps(2) [of 5 "Suc 0" "[0xFFFF]" ?r] read_ipv4_addr_show [OF assms, of "Ipv4 a b c d"]
    by (simp add: read_separator_def del: show_ipv4.simps)
  ultimately show ?thesis
    using read_groups.simps(2) [of 6 0 "[]" "''ffff'' @ ?r"]
    by (simp add: read_separator_def del: show_ipv4.simps)
qed

lemma replicate_5: "replicate 5 x = [x, x, x, x, x]"
  by (simp add: eval_nat_numeral)

lemma read_ipv6_addr_show:
  assumes "no_group rest" "stops 10 rest" "case rest of CHR '':'' # _ \<Rightarrow> False | _ \<Rightarrow> True"
  shows "read_ipv6_addr (show_ipv6 ip @ rest) = Some (ip, rest)"
proof (cases "to_ipv4_mapped ip")
  case (Some ip4)
  obtain a b c d where ip4: "ip4 = Ipv4 a b c d" by (cases ip4)
  have "read_groups 8 0 [] (''::ffff:'' @ show_ipv4 ip4 @ rest) = ([], False, ''::ffff:'' @ show_ipv4 ip4 @ rest)"
    by (rule read_groups_stop) (simp add: no_group_def group_end_def stops_def to_digit_def)
  moreover have "ip = Ipv6 0 0 0 0 0 0xFFFF (u16_from_be_bytes a b) (u16_from_be_bytes c d)"
    using to_ipv4_mapped_Some [OF Some] ip4 by simp
  ultimately show ?thesis
    using Some read_groups_mapped [OF assms(2), of a b c d] ip4
    by (simp add: show_ipv6_def read_ipv6_addr_def replicate_5 del: show_ipv4.simps read_groups.simps)
next
  case None
  let ?g = "segments ip"
  obtain s l where z: "zero_run 0 (0, 0) (0, 0) ?g = (s, l)" by fastforce
  show ?thesis
  proof (cases "l > 1")
    case True
    have sp: "zero_span ?g (s, l)"
      using zero_run_span [of "[]" "(0, 0)" "(0, 0)" ?g] z by (simp add: zero_span_def)
    then have sl: "s + l \<le> 8" by (simp add: zero_span_def)
    let ?rest = "''::'' @ fmt_subslice (drop (s + l) ?g) @ rest"
    have ng: "no_group ?rest"
      by (simp add: no_group_def group_end_def stops_def to_digit_def)
    have 1: "read_groups 8 0 [] (fmt_subslice (take s ?g) @ ?rest) = (take s ?g, False, ?rest)"
      by (rule read_groups_fmt) (use ng in simp_all)
    have 2: "read_groups (7 - s) 0 [] (fmt_subslice (drop (s + l) ?g) @ rest) = (drop (s + l) ?g, False, rest)"
      by (rule read_groups_fmt) (use assms(1) True sl in simp_all)
    have 3: "ipv6_of (take s ?g @ replicate l 0 @ drop (s + l) ?g) = Some ip"
      using zero_span_split [OF sp] by simp
    from True None z sl 1 2 3 show ?thesis
      by (simp add: show_ipv6_def read_ipv6_addr_def)
  next
    case False
    have "read_groups 8 0 [] (fmt_subslice ?g @ rest) = (?g, False, rest)"
      by (rule read_groups_fmt) (use assms(1) in simp_all)
    with False None z show ?thesis by (simp add: show_ipv6_def read_ipv6_addr_def)
  qed
qed

lemma read_scope_id_show:
  "stops 10 rest \<Longrightarrow> read_scope_id (''%'' @ show_nat (unat i) @ rest) = Some (i, rest)"
proof -
  have "unat (i :: u32) < 2 ^ 32" using unsigned_less [of i] by simp
  then show "stops 10 rest \<Longrightarrow> ?thesis" by (simp add: read_scope_id_def read_number_show)
qed

lemma parse_show_v6:
  "parse_socket_addr (show_socket_addr (SocketAddrV6 ip port scope_id)) = Some (SocketAddrV6 ip port scope_id)"
proof -
  let ?close = "CHR '']'' # CHR '':'' # show_nat (unat port)"
  define t where "t = (if scope_id = 0 then [] else ''%'' @ show_nat (unat scope_id)) @ ?close"
  have v4: "read_socket_addr_v4 (CHR ''['' # s) = None" for s
    using read_ipv4_addr_None [of "CHR ''['' # s" "[]"]
    by (simp add: read_socket_addr_v4_def group_end_def stops_def to_digit_def)
  have ip: "read_ipv6_addr (show_ipv6 ip @ t) = Some (ip, t)"
    by (rule read_ipv6_addr_show) (auto simp: t_def no_group_def group_end_def stops_def to_digit_def)
  have sc: "(case read_scope_id t of Some (i, r) \<Rightarrow> (i, r) | None \<Rightarrow> (0, t)) = (scope_id, ?close)"
    using read_scope_id_show [of ?close scope_id] by (auto simp: t_def read_scope_id_def)
  have pt: "read_port (CHR '':'' # show_nat (unat port)) = Some (port, [])"
    using read_port_show [of "[]" port] by simp
  have "read_socket_addr_v6 (CHR ''['' # show_ipv6 ip @ t) = Some (SocketAddrV6 ip port scope_id, [])"
    unfolding read_socket_addr_v6_def by (simp add: ip sc pt)
  moreover have "show_socket_addr (SocketAddrV6 ip port scope_id) = CHR ''['' # show_ipv6 ip @ t"
    by (simp add: t_def)
  ultimately show ?thesis
    by (simp only: parse_socket_addr_def read_socket_addr_def v4) simp
qed

lemma parse_show_socket_addr: "parse_socket_addr (show_socket_addr a) = Some a"
  by (cases a) (simp_all only: parse_show_v4 parse_show_v6)

end
