(* ===== verification/Proxy_Protocol.thy ===== *)
theory Proxy_Protocol
  imports Net_Addr
begin

text \<open>
  The PROXY protocol encoder (\<^verbatim>\<open>crates/wicket-stream/src/protocol.rs\<close>), versions 1 (text) and 2
  (binary), and a receiver written from the protocol's specification that reads the headers
  back. A header is sent in front of the proxied bytes.
\<close>

section \<open>The encoder\<close>

datatype ProxyProtocolVersion = V1 | V2

definition PROXY_V2_SIGNATURE :: "u8 list" where
  "PROXY_V2_SIGNATURE = [0x0D, 0x0A, 0x0D, 0x0A, 0x00, 0x0D, 0x0A, 0x51, 0x55, 0x49, 0x54, 0x0A]"

fun ipv4_of_addr :: "SocketAddr \<Rightarrow> Ipv4Addr" where
  "ipv4_of_addr (SocketAddrV4 ip _) = ip"
| "ipv4_of_addr (SocketAddrV6 ip _ _) = unwrap_or (to_ipv4_mapped ip) UNSPECIFIED4"

fun ipv6_of_addr :: "SocketAddr \<Rightarrow> Ipv6Addr" where
  "ipv6_of_addr (SocketAddrV6 ip _ _) = ip"
| "ipv6_of_addr (SocketAddrV4 ip _) = to_ipv6_mapped ip"

definition into_bytes :: "string \<Rightarrow> u8 list" where
  "into_bytes s = map (\<lambda>c. of_nat (of_char c)) s"

definition CRLF :: string where
  "CRLF = [char_of (13 :: nat), char_of (10 :: nat)]"

definition encode_v1 :: "SocketAddr \<Rightarrow> SocketAddr \<Rightarrow> u8 list" where
  "encode_v1 client_addr proxy_addr =
     (let (protocol, src_ip, dst_ip) =
        (if is_ipv4 client_addr
         then (''TCP4'', show_ipv4 (ipv4_of_addr client_addr), show_ipv4 (ipv4_of_addr proxy_addr))
         else (''TCP6'', show_ipv6 (ipv6_of_addr client_addr), show_ipv6 (ipv6_of_addr proxy_addr)));
        header = ''PROXY '' @ protocol @ '' '' @ src_ip @ '' '' @ dst_ip @ '' '' @
          show_nat (unat (addr_port client_addr)) @ '' '' @
          show_nat (unat (addr_port proxy_addr)) @ CRLF
      in into_bytes header)"

definition encode_v2 :: "SocketAddr \<Rightarrow> SocketAddr \<Rightarrow> u8 list" where
  "encode_v2 client_addr proxy_addr =
     PROXY_V2_SIGNATURE @ [0x21] @
     (if is_ipv4 client_addr
      then [0x11] @ [0x00, 0x0C] @ octets4 (ipv4_of_addr client_addr) @ octets4 (ipv4_of_addr proxy_addr)
      else [0x21] @ [0x00, 0x24] @ octets6 (ipv6_of_addr client_addr) @ octets6 (ipv6_of_addr proxy_addr)) @
     u16_to_be_bytes (addr_port client_addr) @ u16_to_be_bytes (addr_port proxy_addr)"

fun encode :: "ProxyProtocolVersion \<Rightarrow> SocketAddr \<Rightarrow> SocketAddr \<Rightarrow> u8 list" where
  "encode V1 client_addr proxy_addr = encode_v1 client_addr proxy_addr"
| "encode V2 client_addr proxy_addr = encode_v2 client_addr proxy_addr"

section \<open>A receiver\<close>

text \<open>Both ends of the connection: source and destination address and port.\<close>

type_synonym endpoints = "(IpAddr \<times> u16) \<times> (IpAddr \<times> u16)"

definition read_text_port :: "string \<Rightarrow> (u16 \<times> string) option" where
  "read_text_port s = map_option (\<lambda>(v, r). (of_nat v, r)) (read_number 10 None False 65535 s)"

definition decode_v1 :: "string \<Rightarrow> (endpoints \<times> string) option" where
  "decode_v1 s = do {
     s \<leftarrow> strip_prefix ''PROXY TCP'' s;
     let read_ip = (if hd s = CHR ''4'' then (\<lambda>t. map_option (apfst V4) (read_ipv4_addr t))
                    else (\<lambda>t. map_option (apfst V6) (read_ipv6_addr t)));
     s \<leftarrow> read_given_char CHR '' '' (tl s);
     (src, s) \<leftarrow> read_ip s;
     s \<leftarrow> read_given_char CHR '' '' s;
     (dst, s) \<leftarrow> read_ip s;
     s \<leftarrow> read_given_char CHR '' '' s;
     (sport, s) \<leftarrow> read_text_port s;
     s \<leftarrow> read_given_char CHR '' '' s;
     (dport, s) \<leftarrow> read_text_port s;
     s \<leftarrow> strip_prefix CRLF s;
     Some (((src, sport), (dst, dport)), s) }"

fun be_words :: "u8 list \<Rightarrow> u16 list" where
  "be_words (a # b # bs) = u16_from_be_bytes a b # be_words bs"
| "be_words _ = []"

fun decode_block4 :: "u8 list \<Rightarrow> endpoints option" where
  "decode_block4 [a, b, c, d, e, f, g, h, p, q, r, s] =
     Some ((V4 (Ipv4 a b c d), u16_from_be_bytes p q), (V4 (Ipv4 e f g h), u16_from_be_bytes r s))"
| "decode_block4 _ = None"

definition decode_block6 :: "u8 list \<Rightarrow> endpoints option" where
  "decode_block6 block = do {
     src \<leftarrow> ipv6_of (be_words (take 16 block));
     dst \<leftarrow> ipv6_of (be_words (take 16 (drop 16 block)));
     (case be_words (drop 32 block) of
        [sport, dport] \<Rightarrow> Some ((V6 src, sport), (V6 dst, dport))
      | _ \<Rightarrow> None) }"

text \<open>The address block is exactly as long as the length field says.\<close>

fun decode_v2_body :: "u8 list \<Rightarrow> (endpoints \<times> u8 list) option" where
  "decode_v2_body (vercmd # fam # l1 # l2 # body) =
     (let len = unat (u16_from_be_bytes l1 l2) in
      if vercmd \<noteq> 0x21 \<or> length body < len then None
      else
        map_option (\<lambda>ends. (ends, drop len body))
          (if fam = 0x11 then decode_block4 (take len body)
           else if fam = 0x21 then decode_block6 (take len body)
           else None))"
| "decode_v2_body _ = None"

definition decode_v2 :: "u8 list \<Rightarrow> (endpoints \<times> u8 list) option" where
  "decode_v2 bs = Option.bind (strip_prefix PROXY_V2_SIGNATURE bs) decode_v2_body"

text \<open>
  What the receiver is meant to learn: the client's address, and the proxy's address in the
  family of the client.
\<close>

definition announced :: "SocketAddr \<Rightarrow> SocketAddr \<Rightarrow> endpoints" where
  "announced client proxy =
     ((addr_ip client, addr_port client),
      (if is_ipv4 client then V4 (ipv4_of_addr proxy) else V6 (ipv6_of_addr proxy), addr_port proxy))"

section \<open>Reading the headers back\<close>

lemma be_words_octets6: "be_words (octets6 ip) = segments ip"
  by (cases ip) (simp add: octets6_def u16_to_be_bytes_def u16_from_to_be_bytes)

lemma length_octets6 [simp]: "length (octets6 ip) = 16"
  by (cases ip) (simp add: octets6_def u16_to_be_bytes_def)

lemma be_words_ports: "be_words (u16_to_be_bytes p @ u16_to_be_bytes q) = [p, q]"
  by (simp add: u16_to_be_bytes_def u16_from_to_be_bytes)

lemma length_u16_to_be_bytes [simp]: "length (u16_to_be_bytes p) = 2"
  by (simp add: u16_to_be_bytes_def)

lemma decode_encode_v2: "decode_v2 (encode_v2 c p @ payload) = Some (announced c p, payload)"
proof (cases "is_ipv4 c")
  case True
  obtain a1 a2 a3 a4 where c: "ipv4_of_addr c = Ipv4 a1 a2 a3 a4" by (cases "ipv4_of_addr c")
  obtain b1 b2 b3 b4 where p: "ipv4_of_addr p = Ipv4 b1 b2 b3 b4" by (cases "ipv4_of_addr p")
  have "addr_ip c = V4 (ipv4_of_addr c)" using True by (cases c) (simp_all add: is_ipv4_def)
  moreover have "unat (u16_from_be_bytes 0 12) = 12" by (simp add: unat_u16_from_be_bytes)
  ultimately show ?thesis
    using True by (simp add: decode_v2_def encode_v2_def c p announced_def Let_def u16_to_be_bytes_def
        u16_from_to_be_bytes)
next
  case False
  let ?block = "octets6 (ipv6_of_addr c) @ octets6 (ipv6_of_addr p) @
    u16_to_be_bytes (addr_port c) @ u16_to_be_bytes (addr_port p)"
  have "addr_ip c = V6 (ipv6_of_addr c)" using False by (cases c) (simp_all add: is_ipv4_def)
  then have "decode_block6 ?block = Some (announced c p)"
    using False by (simp add: decode_block6_def be_words_octets6 be_words_ports announced_def)
  moreover have "unat (u16_from_be_bytes 0 36) = 36" by (simp add: unat_u16_from_be_bytes)
  moreover have "take 36 (?block @ payload) = ?block" "drop 36 (?block @ payload) = payload"
    by simp_all
  ultimately show ?thesis
    using False by (simp add: decode_v2_def encode_v2_def Let_def)
qed

lemma stops_space [simp]: "stops 10 (CHR '' '' # s)"
  by (simp add: stops_def to_digit_def)

lemma read_text_port_show: "stops 10 rest \<Longrightarrow> read_text_port (show_nat (unat p) @ rest) = Some (p, rest)"
  using unat_u16_bound [of p] by (simp add: read_text_port_def read_number_show)

lemma stops_CRLF [simp]: "stops 10 (CRLF @ s)"
  by (simp add: stops_def CRLF_def to_digit_def of_char_of)

lemma read_ipv6_space: "read_ipv6_addr (show_ipv6 ip @ CHR '' '' # s) = Some (ip, CHR '' '' # s)"
  by (rule read_ipv6_addr_show) (simp_all add: no_group_def group_end_def stops_def to_digit_def)

definition text_header :: "SocketAddr \<Rightarrow> SocketAddr \<Rightarrow> string" where
  "text_header c p =
     ''PROXY '' @ (if is_ipv4 c then ''TCP4 '' @ show_ipv4 (ipv4_of_addr c) @ '' '' @ show_ipv4 (ipv4_of_addr p)
                   else ''TCP6 '' @ show_ipv6 (ipv6_of_addr c) @ '' '' @ show_ipv6 (ipv6_of_addr p)) @
     '' '' @ show_nat (unat (addr_port c)) @ '' '' @ show_nat (unat (addr_port p)) @ CRLF"

lemma encode_v1_text: "encode_v1 c p = into_bytes (text_header c p)"
  by (simp add: encode_v1_def text_header_def)

lemma decode_encode_v1: "decode_v1 (text_header c p @ payload) = Some (announced c p, payload)"
proof (cases "is_ipv4 c")
  case True
  have "addr_ip c = V4 (ipv4_of_addr c)" using True by (cases c) (simp_all add: is_ipv4_def)
  with True show ?thesis
    by (simp add: decode_v1_def text_header_def announced_def read_ipv4_addr_show read_text_port_show apfst_def)
next
  case False
  have "addr_ip c = V6 (ipv6_of_addr c)" using False by (cases c) (simp_all add: is_ipv4_def)
  with False show ?thesis
    by (simp add: decode_v1_def text_header_def announced_def read_ipv6_space read_text_port_show apfst_def)
qed

text \<open>Lengths of the printed addresses.\<close>

lemma length_show_ipv4: "length (show_ipv4 ip) \<le> 15"
proof -
  have o: "length (show_nat (unat (a :: u8))) \<le> 3" for a
    using length_show_radix [of "unat a" 10 3] unat_u8_bound [of a] by simp
  obtain a b c d where "ip = Ipv4 a b c d" by (cases ip)
  with o [of a] o [of b] o [of c] o [of d] show ?thesis by simp
qed

lemma length_more_groups: "length (more_groups gs) \<le> 5 * length gs"
proof (induction gs)
  case (Cons g gs)
  have "length (show_radix 16 (unat g)) \<le> 4"
    using length_show_radix [of "unat g" 16 4] unat_u16_bound [of g] by simp
  with Cons show ?case by simp
qed simp

lemma length_fmt_subslice: "length (fmt_subslice gs) \<le> 5 * length gs - 1"
proof (cases gs)
  case (Cons g gs')
  have "length (show_radix 16 (unat g)) \<le> 4"
    using length_show_radix [of "unat g" 16 4] unat_u16_bound [of g] by simp
  with Cons length_more_groups [of gs'] show ?thesis by (simp add: fmt_subslice_Cons)
qed simp

lemma length_show_ipv6: "length (show_ipv6 ip) \<le> 39"
proof (cases "to_ipv4_mapped ip")
  case (Some ip4)
  with length_show_ipv4 [of ip4] show ?thesis by (simp add: show_ipv6_def)
next
  case None
  obtain s l where z: "zero_run 0 (0, 0) (0, 0) (segments ip) = (s, l)" by fastforce
  have "s + l \<le> 8"
    using zero_run_span [of "[]" "(0, 0)" "(0, 0)" "segments ip"] z by (simp add: zero_span_def)
  with None z length_fmt_subslice [of "take s (segments ip)"]
    length_fmt_subslice [of "drop (s + l) (segments ip)"] length_fmt_subslice [of "segments ip"]
  show ?thesis by (auto simp: show_ipv6_def)
qed

lemma length_text_header: "length (text_header c p) \<le> 107"
proof -
  have port: "length (show_nat (unat (q :: u16))) \<le> 5" for q
    using length_show_radix [of "unat q" 10 5] unat_u16_bound [of q] by simp
  show ?thesis
    using port [of "addr_port c"] port [of "addr_port p"]
      length_show_ipv4 [of "ipv4_of_addr c"] length_show_ipv4 [of "ipv4_of_addr p"]
      length_show_ipv6 [of "ipv6_of_addr c"] length_show_ipv6 [of "ipv6_of_addr p"]
    by (simp add: text_header_def CRLF_def)
qed

lemma string_of_into_bytes: "map (\<lambda>b. char_of (unat b)) (into_bytes s) = s"
  by (simp add: into_bytes_def unat_of_nat o_def)

section \<open>Properties\<close>

text \<open>
  C5: whatever address families the client and the proxy have, a receiver that follows the
  PROXY protocol recovers from a version 1 or version 2 header exactly the client's address
  and port and the proxy's address and port (in the client's family), and is left with
  exactly the bytes sent after the header.
\<close>

theorem proxy_header_roundtrip:
  "decode_v2 (encode V2 client proxy @ payload) = Some (announced client proxy, payload) \<and>
   decode_v1 (map (\<lambda>b. char_of (unat b)) (encode V1 client proxy) @ text) = Some (announced client proxy, text)"
  by (simp add: decode_encode_v2 decode_encode_v1 encode_v1_text string_of_into_bytes)

text \<open>
  Header sizes. A version 1 header never exceeds the 107 bytes a receiver has to buffer;
  a version 2 header is 28 bytes for an IPv4 client and 52 bytes otherwise.
\<close>

theorem proxy_header_length:
  "length (encode V1 client proxy) \<le> 107 \<and>
   length (encode V2 client proxy) = (if is_ipv4 client then 28 else 52)"
proof -
  have "length (octets4 ip) = 4" for ip by (cases ip) simp
  then show ?thesis
    using length_text_header [of client proxy]
    by (simp add: encode_v1_text into_bytes_def encode_v2_def PROXY_V2_SIGNATURE_def)
qed

end
