(* ===== verification/Stream_Upstream.thy ===== *)
theory Stream_Upstream
  imports Net_Addr
begin

text \<open>
  Backends of the stream proxy: endpoint parsing (\<^verbatim>\<open>endpoint.rs\<close>), the source address pool
  (\<^verbatim>\<open>pool.rs\<close>), passive health tracking (\<^verbatim>\<open>health.rs\<close>) and the upstream with its round-robin
  selection (\<^verbatim>\<open>proxy.rs\<close>). Atomic counters are 64-bit words, whose addition wraps; the wall
  clock is an argument (milliseconds since the epoch, one reading per call that reads it); a
  panic is the value \<^const>\<open>None\<close>.
\<close>

section \<open>Endpoints\<close>

datatype StreamError =
  SniError string
| RoutingError string
| ConnectionError string
| ConfigError string
| Io string

datatype StreamBackendAddr = Tcp SocketAddr | Unix string

fun as_tcp :: "StreamBackendAddr \<Rightarrow> SocketAddr option" where
  "as_tcp (Tcp addr) = Some addr"
| "as_tcp (Unix _) = None"

fun as_unix_path :: "StreamBackendAddr \<Rightarrow> string option" where
  "as_unix_path (Tcp _) = None"
| "as_unix_path (Unix path) = Some path"

fun transport :: "StreamBackendAddr \<Rightarrow> string" where
  "transport (Tcp _) = ''TCP''"
| "transport (Unix _) = ''Unix''"

definition parse_unix_endpoint :: "string \<Rightarrow> string \<Rightarrow> StreamError + StreamBackendAddr" where
  "parse_unix_endpoint input path =
     (if path = [] then
        Err (ConfigError ''unix stream backend endpoint must include an absolute path'')
      else if starts_with path ''//'' then
        Err (ConfigError (''invalid Unix stream backend endpoint '' @ quoted input @ '': use unix:/absolute/path, not unix://''))
      else if \<not> starts_with path ''/'' then
        Err (ConfigError (''invalid Unix stream backend endpoint '' @ quoted input @ '': path must be absolute''))
      else Ok (Unix path))"

definition StreamBackendAddr_parse :: "string \<Rightarrow> StreamError + StreamBackendAddr" where
  "StreamBackendAddr_parse input =
     (if input = [] then Err (ConfigError ''stream backend endpoint must not be empty'')
      else
        (case strip_prefix ''unix:'' input of
           Some path \<Rightarrow> parse_unix_endpoint input path
         | None \<Rightarrow>
             (case parse_socket_addr input of
                None \<Rightarrow> Err (ConfigError (''invalid TCP stream backend endpoint '' @ quoted input @
                  '': invalid socket address syntax''))
              | Some addr \<Rightarrow> Ok (Tcp addr))))"

fun StreamBackendAddr_to_string :: "StreamBackendAddr \<Rightarrow> string" where
  "StreamBackendAddr_to_string (Tcp addr) = show_socket_addr addr"
| "StreamBackendAddr_to_string (Unix path) = ''unix:'' @ path"

section \<open>Source address pool\<close>

record SourceIpPool =
  pool_ips :: "IpAddr list"
  pool_counter :: usize

definition SourceIpPool_new :: "IpAddr list \<Rightarrow> SourceIpPool option" where
  "SourceIpPool_new ips = (if ips = [] then None else Some \<lparr>pool_ips = ips, pool_counter = 0\<rparr>)"

definition next_ip :: "SourceIpPool \<Rightarrow> IpAddr option \<times> SourceIpPool" where
  "next_ip self =
     (let c = pool_counter self; self' = self\<lparr>pool_counter := c + 1\<rparr> in
      if pool_ips self = [] then (None, self')
      else (Some (pool_ips self ! (unat c mod length (pool_ips self))), self'))"

section \<open>Backend health\<close>

record BackendHealth =
  bh_label :: string
  bh_healthy :: bool
  bh_unhealthy_since :: u64
  bh_consecutive_failures :: u64

definition BackendHealth_new :: "string \<Rightarrow> BackendHealth" where
  "BackendHealth_new lbl =
     \<lparr>bh_label = lbl, bh_healthy = True, bh_unhealthy_since = 0, bh_consecutive_failures = 0\<rparr>"

text \<open>The cooldown is a \<^verbatim>\<open>Duration\<close> in whole seconds; \<^verbatim>\<open>as_millis() as u64\<close> truncates.\<close>

definition as_millis_u64 :: "u64 \<Rightarrow> u64" where
  "as_millis_u64 secs = of_nat (unat secs * 1000)"

definition is_eligible :: "BackendHealth \<Rightarrow> u64 \<Rightarrow> u64 \<Rightarrow> bool" where
  "is_eligible self cooldown now_ms =
     (if bh_healthy self then True
      else
        let since = bh_unhealthy_since self in
        if since = 0 then True
        else saturating_sub now_ms since \<ge> as_millis_u64 cooldown)"

definition record_success :: "BackendHealth \<Rightarrow> BackendHealth" where
  "record_success self =
     self\<lparr>bh_healthy := True, bh_consecutive_failures := 0, bh_unhealthy_since := 0\<rparr>"

definition record_failure :: "BackendHealth \<Rightarrow> u64 \<Rightarrow> BackendHealth" where
  "record_failure self now_ms =
     (let was_healthy = bh_healthy self;
          self = self\<lparr>bh_healthy := False,
                      bh_consecutive_failures := bh_consecutive_failures self + 1\<rparr>
      in if was_healthy then self\<lparr>bh_unhealthy_since := now_ms\<rparr> else self)"

section \<open>Upstreams\<close>

record Upstream =
  up_name :: string
  up_servers :: "StreamBackendAddr list"
  up_health :: "BackendHealth list"
  up_counter :: usize
  up_cooldown :: u64

definition with_cooldown :: "string \<Rightarrow> StreamBackendAddr list \<Rightarrow> u64 \<Rightarrow> Upstream" where
  "with_cooldown name servers cooldown =
     \<lparr>up_name = name, up_servers = servers,
      up_health = map (\<lambda>endpoint. BackendHealth_new (StreamBackendAddr_to_string endpoint)) servers,
      up_counter = 0, up_cooldown = cooldown\<rparr>"

definition Upstream_new :: "string \<Rightarrow> StreamBackendAddr list \<Rightarrow> Upstream" where
  "Upstream_new name servers = with_cooldown name servers 30"

text \<open>
  The first pass of \<^verbatim>\<open>next_server\<close>: the slots \<^verbatim>\<open>i..len\<close> that are left. \<^verbatim>\<open>start + i\<close> wraps. The outer
  option is a panic (an index out of range), the inner one whether a server was found.
\<close>

fun eligible_loop :: "Upstream \<Rightarrow> (nat \<Rightarrow> u64) \<Rightarrow> usize \<Rightarrow> nat list \<Rightarrow> StreamBackendAddr option option" where
  "eligible_loop self clock start [] = Some None"
| "eligible_loop self clock start (i # is) =
     (let idx = unat (start + of_nat i) mod length (up_servers self) in
      if idx \<ge> length (up_health self) then None
      else if is_eligible (up_health self ! idx) (up_cooldown self) (clock i)
      then Some (Some (up_servers self ! idx))
      else eligible_loop self clock start is)"

definition next_server :: "Upstream \<Rightarrow> (nat \<Rightarrow> u64) \<Rightarrow> StreamBackendAddr option \<times> Upstream" where
  "next_server self clock =
     (let len = length (up_servers self);
          start = up_counter self;
          self' = self\<lparr>up_counter := start + 1\<rparr>
      in case eligible_loop self clock start [0..<len] of
           None \<Rightarrow> (None, self')
         | Some (Some server) \<Rightarrow> (Some server, self')
         | Some None \<Rightarrow>
             if len = 0 then (None, self')
             else (Some (up_servers self ! (unat start mod len)), self'))"

text \<open>
  The metrics the two reports write: the health gauge of a backend and the transition
  counter, as a log of updates.
\<close>

datatype health_metric =
  UPSTREAM_HEALTH string string nat
| HEALTH_TRANSITIONS string string string

text \<open>\<^verbatim>\<open>self.health.iter().find(...)\<close> followed by an update of the entry found.\<close>

fun update_first :: "('a \<Rightarrow> bool) \<Rightarrow> ('a \<Rightarrow> 'a) \<Rightarrow> 'a list \<Rightarrow> 'a list" where
  "update_first P f [] = []"
| "update_first P f (x # xs) = (if P x then f x # xs else x # update_first P f xs)"

definition report_success :: "Upstream \<Rightarrow> StreamBackendAddr \<Rightarrow> Upstream \<times> health_metric list" where
  "report_success self endpoint =
     (let lbl = StreamBackendAddr_to_string endpoint in
      case find (\<lambda>h. bh_label h = lbl) (up_health self) of
        None \<Rightarrow> (self, [])
      | Some h \<Rightarrow>
          (self\<lparr>up_health := update_first (\<lambda>h. bh_label h = lbl) record_success (up_health self)\<rparr>,
           if bh_healthy h then []
           else [UPSTREAM_HEALTH (up_name self) lbl 1,
                 HEALTH_TRANSITIONS (up_name self) lbl ''unhealthy_to_healthy'']))"

definition report_failure :: "Upstream \<Rightarrow> StreamBackendAddr \<Rightarrow> u64 \<Rightarrow> Upstream \<times> health_metric list" where
  "report_failure self endpoint now_ms =
     (let lbl = StreamBackendAddr_to_string endpoint in
      case find (\<lambda>h. bh_label h = lbl) (up_health self) of
        None \<Rightarrow> (self, [])
      | Some h \<Rightarrow>
          (self\<lparr>up_health := update_first (\<lambda>h. bh_label h = lbl) (\<lambda>h. record_failure h now_ms) (up_health self)\<rparr>,
           if bh_healthy h
           then [UPSTREAM_HEALTH (up_name self) lbl 0,
                 HEALTH_TRANSITIONS (up_name self) lbl ''healthy_to_unhealthy'']
           else []))"

section \<open>Endpoint lemmas\<close>

lemma parse_to_string_Tcp: "StreamBackendAddr_parse (show_socket_addr a) = Ok (Tcp a)"
proof -
  have p: "parse_socket_addr (show_socket_addr a) = Some a" by (rule parse_show_socket_addr)
  then have ne: "show_socket_addr a \<noteq> []"
    by (cases "show_socket_addr a")
       (auto simp: parse_socket_addr_def read_socket_addr_def read_socket_addr_v4_def
         read_socket_addr_v6_def read_ipv4_addr_def read_separator_def read_octet_def read_number_def)
  have "parse_socket_addr (CHR ''u'' # s) = None" for s
    by (simp add: parse_socket_addr_def read_socket_addr_def read_socket_addr_v4_def read_socket_addr_v6_def
        read_ipv4_addr_def read_separator_def read_octet_def read_number_def to_digit_def)
  with p have "strip_prefix ''unix:'' (show_socket_addr a) = None"
    by (auto simp: strip_prefix_None)
  with p ne show ?thesis by (simp add: StreamBackendAddr_parse_def)
qed

definition valid_backend :: "StreamBackendAddr \<Rightarrow> bool" where
  "valid_backend b = (case b of Tcp _ \<Rightarrow> True | Unix p \<Rightarrow> starts_with p ''/'' \<and> \<not> starts_with p ''//'')"

lemma parse_valid: "StreamBackendAddr_parse s = Ok b \<Longrightarrow> valid_backend b"
  by (auto simp: StreamBackendAddr_parse_def parse_unix_endpoint_def valid_backend_def
      split: if_splits option.splits)

lemma parse_to_string: "valid_backend b \<Longrightarrow> StreamBackendAddr_parse (StreamBackendAddr_to_string b) = Ok b"
proof (cases b)
  case (Unix p)
  then show "valid_backend b \<Longrightarrow> ?thesis"
    by (auto simp: valid_backend_def StreamBackendAddr_parse_def parse_unix_endpoint_def starts_with_def)
qed (simp add: parse_to_string_Tcp)

lemma to_string_inj:
  "valid_backend a \<Longrightarrow> valid_backend b \<Longrightarrow>
     StreamBackendAddr_to_string a = StreamBackendAddr_to_string b \<Longrightarrow> a = b"
  by (metis parse_to_string sum.inject(2))

section \<open>Health lemmas\<close>

lemma record_simps [simp]:
  "bh_label (record_success h) = bh_label h" "bh_label (record_failure h t) = bh_label h"
  "bh_healthy (record_success h)" "\<not> bh_healthy (record_failure h t)"
  by (simp_all add: record_success_def record_failure_def Let_def)

lemma is_eligible_healthy: "bh_healthy h \<Longrightarrow> is_eligible h c now"
  by (simp add: is_eligible_def)

lemma saturating_sub_mono: "a \<le> b \<Longrightarrow> saturating_sub a s \<le> saturating_sub b (s :: u64)"
  by (auto simp: saturating_sub_def word_le_nat_alt unat_sub)

section \<open>Upstream invariant\<close>

text \<open>
  One health entry per server, under the server's printed name, in the same order; at least
  one server; every server came out of the endpoint parser.
\<close>

definition wf_upstream :: "Upstream \<Rightarrow> bool" where
  "wf_upstream u =
     (up_servers u \<noteq> [] \<and> list_all valid_backend (up_servers u) \<and>
      map bh_label (up_health u) = map StreamBackendAddr_to_string (up_servers u))"

lemma wf_upstream_length: "wf_upstream u \<Longrightarrow> length (up_health u) = length (up_servers u)"
  by (auto simp: wf_upstream_def dest: map_eq_imp_length_eq)

lemma with_cooldown_wf: "servers \<noteq> [] \<Longrightarrow> list_all valid_backend servers \<Longrightarrow> wf_upstream (with_cooldown n servers c)"
  by (simp add: wf_upstream_def with_cooldown_def BackendHealth_new_def)

lemma map_update_first: "(\<And>x. g (f x) = g x) \<Longrightarrow> map g (update_first P f xs) = map g xs"
  by (induction xs) auto

lemma report_success_wf: "wf_upstream u \<Longrightarrow> wf_upstream (fst (report_success u b))"
  by (auto simp: report_success_def wf_upstream_def map_update_first Let_def split: option.splits)

lemma report_failure_wf: "wf_upstream u \<Longrightarrow> wf_upstream (fst (report_failure u b t))"
  by (auto simp: report_failure_def wf_upstream_def map_update_first Let_def split: option.splits)

lemma next_server_state: "snd (next_server u clock) = u\<lparr>up_counter := up_counter u + 1\<rparr>"
  by (simp add: next_server_def Let_def split: option.splits)

lemma next_server_wf: "wf_upstream u \<Longrightarrow> wf_upstream (snd (next_server u clock))"
  by (simp add: next_server_state wf_upstream_def)

text \<open>The operations in any order, as connections interleave them.\<close>

datatype upstream_event =
  NextServer "nat \<Rightarrow> u64"
| ReportSuccess StreamBackendAddr
| ReportFailure StreamBackendAddr u64

fun upstream_step :: "Upstream \<Rightarrow> upstream_event \<Rightarrow> Upstream" where
  "upstream_step u (NextServer clock) = snd (next_server u clock)"
| "upstream_step u (ReportSuccess b) = fst (report_success u b)"
| "upstream_step u (ReportFailure b t) = fst (report_failure u b t)"

lemma upstream_step_servers: "up_servers (upstream_step u e) = up_servers u"
  by (cases e) (simp_all add: next_server_state report_success_def report_failure_def Let_def split: option.splits)

interpretation ups: invariant_machine upstream_step "\<lambda>_. True" wf_upstream
  by unfold_locales (metis next_server_wf report_failure_wf report_success_wf upstream_step.elims)

lemma run_servers: "up_servers (foldl upstream_step u es) = up_servers u"
  by (induction es arbitrary: u) (simp_all add: upstream_step_servers)

section \<open>Selection lemmas\<close>

lemma eligible_loop_total:
  assumes "length (up_health u) = length (up_servers u)" "up_servers u \<noteq> []"
  shows "eligible_loop u clock start is \<noteq> None"
  using assms by (induction "is") (auto simp: Let_def not_le)

lemma eligible_loop_Some:
  "eligible_loop u clock start is = Some (Some s) \<Longrightarrow>
     \<exists>i\<in>set is. let k = unat (start + of_nat i) mod length (up_servers u) in
       s = up_servers u ! k \<and> k < length (up_health u) \<and>
       is_eligible (up_health u ! k) (up_cooldown u) (clock i)"
  by (induction "is") (auto simp: Let_def split: if_splits)

lemma eligible_loop_None:
  "eligible_loop u clock start is = Some None \<longleftrightarrow>
     (\<forall>i\<in>set is. let k = unat (start + of_nat i) mod length (up_servers u) in
       k < length (up_health u) \<and> \<not> is_eligible (up_health u ! k) (up_cooldown u) (clock i))"
  by (induction "is") (auto simp: Let_def not_le)

text \<open>As long as the counter does not wrap during the pass, the pass visits every slot.\<close>

lemma slot_visited:
  assumes "unat start + n \<le> 2 ^ 64" "k < n"
  shows "\<exists>i<n. unat (start + of_nat i :: usize) mod n = k"
proof -
  define i where "i = (k + (n - unat start mod n)) mod n"
  have i: "i < n" using assms(2) by (simp add: i_def)
  then have "i < 2 ^ 64" using assms(1) by linarith
  then have "unat (of_nat i :: usize) = i" by (simp add: unat_of_nat)
  then have "unat (start + of_nat i) = unat start + i"
    using i assms(1) by (subst unat_plus_if') auto
  moreover have "(unat start + i) mod n = k"
  proof -
    have "(unat start + i) mod n = (unat start mod n + (k + (n - unat start mod n))) mod n"
      by (simp add: i_def mod_simps)
    also have "unat start mod n + (k + (n - unat start mod n)) = k + n"
      using mod_less_divisor [of n "unat start"] assms(2) by linarith
    finally show ?thesis using assms(2) by simp
  qed
  ultimately show ?thesis using i by auto
qed

lemma next_server_healthy:
  assumes "wf_upstream u" "list_all bh_healthy (up_health u)"
  shows "fst (next_server u clock) = Some (up_servers u ! (unat (up_counter u) mod length (up_servers u)))"
proof -
  have ne: "up_servers u \<noteq> []" using assms(1) by (simp add: wf_upstream_def)
  then have "[0..<length (up_servers u)] = 0 # [1..<length (up_servers u)]"
    by (simp add: upt_conv_Cons)
  moreover have "bh_healthy (up_health u ! (unat (up_counter u) mod length (up_servers u)))"
    using assms ne by (simp add: list_all_length wf_upstream_length)
  ultimately show ?thesis
    using ne wf_upstream_length [OF assms(1)]
    by (simp add: next_server_def Let_def is_eligible_healthy not_le)
qed

fun next_servers :: "nat \<Rightarrow> Upstream \<Rightarrow> (nat \<Rightarrow> u64) \<Rightarrow> StreamBackendAddr option list" where
  "next_servers 0 u clock = []"
| "next_servers (Suc k) u clock =
     (case next_server u clock of (r, u') \<Rightarrow> r # next_servers k u' clock)"

lemma next_servers_healthy:
  assumes "wf_upstream u" "list_all bh_healthy (up_health u)" "unat (up_counter u) + k \<le> 2 ^ 64"
  shows "next_servers k u clock =
    map (\<lambda>i. Some (up_servers u ! ((unat (up_counter u) + i) mod length (up_servers u)))) [0..<k]"
  using assms
proof (induction k arbitrary: u)
  case (Suc k)
  let ?u = "snd (next_server u clock)"
  have u: "?u = u\<lparr>up_counter := up_counter u + 1\<rparr>" by (rule next_server_state)
  have c: "unat (up_counter u + 1) + k \<le> 2 ^ 64 \<and> (k > 0 \<longrightarrow> unat (up_counter u + 1) = unat (up_counter u) + 1)"
    using Suc.prems(3) by (auto simp: unat_plus_if' word_less_nat_alt)
  then have "next_servers k ?u clock =
      map (\<lambda>i. Some (up_servers u ! ((unat (up_counter u) + Suc i) mod length (up_servers u)))) [0..<k]"
    using Suc.IH [of ?u] Suc.prems by (cases "k = 0") (auto simp: u wf_upstream_def)
  moreover have "[0..<Suc k] = 0 # map Suc [0..<k]" by (simp add: upt_conv_Cons map_Suc_upt)
  ultimately show ?case
    using next_server_healthy [OF Suc.prems(1,2), of clock]
    by (simp add: case_prod_beta comp_def del: upt_Suc)
qed simp

lemma report_nth:
  assumes "wf_upstream u" "distinct (up_servers u)" "k < length (up_servers u)"
  shows "find (\<lambda>h. bh_label h = StreamBackendAddr_to_string (up_servers u ! k)) (up_health u) = Some (up_health u ! k)"
    and "update_first (\<lambda>h. bh_label h = StreamBackendAddr_to_string (up_servers u ! k)) f (up_health u) =
      (up_health u)[k := f (up_health u ! k)]"
proof -
  let ?P = "\<lambda>h. bh_label h = StreamBackendAddr_to_string (up_servers u ! k)"
  have l: "length (up_health u) = length (up_servers u)" by (rule wf_upstream_length [OF assms(1)])
  have lab: "bh_label (up_health u ! j) = StreamBackendAddr_to_string (up_servers u ! j)"
    if "j < length (up_servers u)" for j
    using assms(1) that l unfolding wf_upstream_def by (metis nth_map)
  have only: "?P (up_health u ! j) \<longleftrightarrow> j = k" if "j < length (up_servers u)" for j
  proof -
    have "valid_backend (up_servers u ! j)" "valid_backend (up_servers u ! k)"
      using assms(1,3) that by (auto simp: wf_upstream_def list_all_length)
    then show ?thesis
      using lab [OF that] to_string_inj [of "up_servers u ! j" "up_servers u ! k"] assms(2,3) that
      by (metis nth_eq_iff_index_eq)
  qed
  show "find ?P (up_health u) = Some (up_health u ! k)"
    using only assms(3) l by (auto simp: find_Some_iff)
  have gen: "\<forall>j<length hs. ?P (hs ! j) \<longleftrightarrow> j = m \<Longrightarrow> m < length hs \<Longrightarrow>
      update_first ?P f hs = hs[m := f (hs ! m)]" for hs m
  proof (induction hs arbitrary: m)
    case (Cons h hs)
    show ?case
    proof (cases m)
      case 0
      with Cons.prems(1) show ?thesis by auto
    next
      case (Suc m')
      with Cons.prems have "\<not> ?P h" "\<forall>j<length hs. ?P (hs ! j) \<longleftrightarrow> j = m'" "m' < length hs" by fastforce+
      with Cons.IH Suc show ?thesis by simp
    qed
  qed simp
  show "update_first ?P f (up_health u) = (up_health u)[k := f (up_health u ! k)]"
    by (rule gen) (use only assms(3) l in auto)
qed

section \<open>Properties\<close>

text \<open>
  C6: backend endpoints round-trip. Everything the endpoint parser accepts is a TCP address
  or an absolute Unix path, and printing an endpoint and parsing it again gives the same
  endpoint, for every IPv4, IPv6 (with zero compression, mapped addresses and scope ids) and
  Unix endpoint. Hence the printed name by which health is tracked identifies the backend.
\<close>

theorem endpoint_roundtrip:
  assumes "StreamBackendAddr_parse s = Ok b"
  shows "StreamBackendAddr_parse (StreamBackendAddr_to_string b) = Ok b \<and>
    (\<forall>s' b'. StreamBackendAddr_parse s' = Ok b' \<longrightarrow>
       StreamBackendAddr_to_string b = StreamBackendAddr_to_string b' \<longrightarrow> b = b')"
  using parse_valid [OF assms] parse_valid parse_to_string to_string_inj by blast

theorem endpoint_roundtrip_witness:
  "StreamBackendAddr_parse (StreamBackendAddr_to_string (Unix ''/run/a.sock'')) = Ok (Unix ''/run/a.sock'')"
  using endpoint_roundtrip [of "''unix:/run/a.sock''" "Unix ''/run/a.sock''"]
  by (simp add: StreamBackendAddr_parse_def parse_unix_endpoint_def starts_with_def)

text \<open>
  C7: backend selection. In any state reached by any interleaving of selections and health
  reports, \<^verbatim>\<open>next_server\<close> returns one of the configured servers and never panics; unless the
  64-bit counter wraps during the pass, it returns an eligible server whenever there is one,
  and when none is eligible it fails open to the next server in turn.
\<close>

theorem next_server_correct:
  assumes "wf_upstream u0" and u: "u = foldl upstream_step u0 es"
    and "unat (up_counter u) + length (up_servers u0) \<le> 2 ^ 64"
  shows "\<exists>k<length (up_servers u0). fst (next_server u (\<lambda>_. now)) = Some (up_servers u0 ! k) \<and>
    (if \<exists>h\<in>set (up_health u). is_eligible h (up_cooldown u) now
     then is_eligible (up_health u ! k) (up_cooldown u) now
     else k = unat (up_counter u) mod length (up_servers u0))"
proof -
  let ?n = "length (up_servers u0)"
  let ?el = "\<lambda>k. is_eligible (up_health u ! k) (up_cooldown u) now"
  have wf: "wf_upstream u" unfolding u by (rule ups.run_inv [OF assms(1)]) (simp add: list_all_iff)
  have srv: "up_servers u = up_servers u0" unfolding u by (rule run_servers)
  have len: "length (up_health u) = ?n" using wf_upstream_length [OF wf] srv by simp
  have ne: "up_servers u0 \<noteq> []" using wf srv by (simp add: wf_upstream_def)
  show ?thesis
  proof (cases "eligible_loop u (\<lambda>_. now) (up_counter u) [0..<?n]")
    case None
    with eligible_loop_total [of u "\<lambda>_. now"] len srv ne show ?thesis by (metis option.distinct(1))
  next
    case (Some r)
    show ?thesis
    proof (cases r)
      case None
      with Some have "eligible_loop u (\<lambda>_. now) (up_counter u) [0..<?n] = Some None" by simp
      then have no: "\<not> ?el (unat (up_counter u + of_nat i) mod ?n)" if "i < ?n" for i
        using that unfolding eligible_loop_None by (auto simp: Let_def srv)
      have "\<not> ?el k" if "k < ?n" for k
        using slot_visited [OF assms(3) that] no by blast
      then have "\<not> (\<exists>h\<in>set (up_health u). is_eligible h (up_cooldown u) now)"
        using len by (auto simp: in_set_conv_nth)
      moreover have "fst (next_server u (\<lambda>_. now)) = Some (up_servers u0 ! (unat (up_counter u) mod ?n))"
        using Some None ne srv by (simp add: next_server_def Let_def)
      moreover have "unat (up_counter u) mod ?n < ?n" using ne by simp
      ultimately show ?thesis by (intro exI [of _ "unat (up_counter u) mod ?n"]) simp
    next
      case (Some s)
      with \<open>_ = Some r\<close> have loop: "eligible_loop u (\<lambda>_. now) (up_counter u) [0..<?n] = Some (Some s)" by simp
      from eligible_loop_Some [OF this] obtain k where k: "k < ?n" "s = up_servers u0 ! k" "?el k"
        unfolding Let_def using len srv by auto
      moreover have "fst (next_server u (\<lambda>_. now)) = Some s"
        using loop srv by (simp add: next_server_def Let_def)
      moreover have "\<exists>h\<in>set (up_health u). is_eligible h (up_cooldown u) now"
        using k len by (metis nth_mem)
      ultimately show ?thesis by auto
    qed
  qed
qed

theorem next_server_correct_witness:
  "\<exists>k<2. fst (next_server (foldl upstream_step (with_cooldown ''u'' [Unix ''/a'', Unix ''/b''] 30) [ReportFailure (Unix ''/a'') 5])
      (\<lambda>_. 6)) = Some ([Unix ''/a'', Unix ''/b''] ! k)"
proof -
  let ?u0 = "with_cooldown ''u'' [Unix ''/a'', Unix ''/b''] 30"
  have wf: "wf_upstream ?u0" by (rule with_cooldown_wf) (simp_all add: valid_backend_def starts_with_def)
  have s: "up_servers ?u0 = [Unix ''/a'', Unix ''/b'']" by (simp add: with_cooldown_def)
  have "up_counter (foldl upstream_step ?u0 [ReportFailure (Unix ''/a'') 5]) = 0"
    by (simp add: with_cooldown_def report_failure_def Let_def split: option.split)
  then have "unat (up_counter (foldl upstream_step ?u0 [ReportFailure (Unix ''/a'') 5])) + length (up_servers ?u0) \<le> 2 ^ 64"
    using s by simp
  from next_server_correct [OF wf refl this, of 6] show ?thesis
    unfolding s by (metis length_Cons list.size(3) numeral_2_eq_2)
qed

text \<open>
  round-robin fairness. While every backend is healthy, \<^verbatim>\<open>n\<close> consecutive selections out of
  \<^verbatim>\<open>n\<close> servers return the server list rotated to the current counter: every server exactly
  once.
\<close>

theorem next_server_round_robin:
  assumes "wf_upstream u" "list_all bh_healthy (up_health u)"
    and "unat (up_counter u) + length (up_servers u) \<le> 2 ^ 64"
  shows "next_servers (length (up_servers u)) u clock = map Some (rotate (unat (up_counter u)) (up_servers u))"
  unfolding next_servers_healthy [OF assms]
  by (rule nth_equalityI) (simp_all add: nth_rotate)

theorem next_server_round_robin_witness:
  "next_servers 2 (with_cooldown ''u'' [Unix ''/a'', Unix ''/b''] 30) (\<lambda>_. 0) = [Some (Unix ''/a''), Some (Unix ''/b'')]"
proof -
  let ?u = "with_cooldown ''u'' [Unix ''/a'', Unix ''/b''] 30"
  have wf: "wf_upstream ?u" by (rule with_cooldown_wf) (simp_all add: valid_backend_def starts_with_def)
  have "list_all bh_healthy (up_health ?u)" "unat (up_counter ?u) + length (up_servers ?u) \<le> 2 ^ 64"
    by (simp_all add: with_cooldown_def BackendHealth_new_def)
  from next_server_round_robin [OF wf this, of "\<lambda>_. 0"] show ?thesis
    by (simp add: with_cooldown_def eval_nat_numeral)
qed

text \<open>
  the cooldown. A healthy backend that fails is skipped exactly until the cooldown has
  passed since that failure. The time of failure is recorded only when a healthy backend
  fails: once the cooldown has passed, a backend that keeps failing stays eligible, at every
  later time and however often it fails, until a connection succeeds.
\<close>

theorem cooldown_window:
  "(bh_healthy h \<longrightarrow> t \<noteq> 0 \<longrightarrow>
      is_eligible (record_failure h t) c now = (as_millis_u64 c \<le> saturating_sub now t)) \<and>
   (\<not> bh_healthy h \<longrightarrow> is_eligible h c now \<longrightarrow> now \<le> now' \<longrightarrow>
      is_eligible (foldl record_failure h ts) c now')"
proof (intro conjI impI)
  assume "bh_healthy h" "t \<noteq> 0"
  then show "is_eligible (record_failure h t) c now = (as_millis_u64 c \<le> saturating_sub now t)"
    by (simp add: is_eligible_def record_failure_def Let_def)
next
  assume h: "\<not> bh_healthy h" "is_eligible h c now" "now \<le> now'"
  have "bh_unhealthy_since (foldl record_failure h ts) = bh_unhealthy_since h \<and>
      \<not> bh_healthy (foldl record_failure h ts)"
    using h(1) by (induction ts rule: rev_induct) (simp_all add: record_failure_def Let_def)
  moreover have "bh_unhealthy_since h = 0 \<or> as_millis_u64 c \<le> saturating_sub now' (bh_unhealthy_since h)"
    using h saturating_sub_mono [of now now' "bh_unhealthy_since h"]
    by (auto simp: is_eligible_def Let_def split: if_splits)
  ultimately show "is_eligible (foldl record_failure h ts) c now'"
    by (auto simp: is_eligible_def Let_def)
qed

theorem cooldown_window_witness:
  "is_eligible (foldl record_failure (record_failure (BackendHealth_new ''b'') 1) [40000, 40001]) 30 40002"
proof -
  let ?h = "record_failure (BackendHealth_new ''b'') 1"
  have "\<not> bh_healthy ?h" by simp
  moreover have "is_eligible ?h 30 40000"
    by (simp add: is_eligible_def record_failure_def BackendHealth_new_def saturating_sub_def as_millis_u64_def
        Let_def)
  moreover have "(40000 :: u64) \<le> 40002" by simp
  ultimately show ?thesis using cooldown_window [of ?h 0 30 40000 40002 "[40000, 40001]"] by blast
qed

text \<open>
  health reports reach the right backend. In a well-formed upstream with distinct
  servers, reporting a failure (or a success) of the \<^verbatim>\<open>k\<close>-th server updates exactly the \<^verbatim>\<open>k\<close>-th
  health entry, and the gauge and the transition counter are written exactly when the
  backend changes from healthy to unhealthy (or back), with the new state as the value.
\<close>

theorem report_updates_backend:
  assumes "wf_upstream u" "distinct (up_servers u)" "k < length (up_servers u)"
  shows "report_failure u (up_servers u ! k) t =
      (u\<lparr>up_health := (up_health u)[k := record_failure (up_health u ! k) t]\<rparr>,
       if bh_healthy (up_health u ! k)
       then [UPSTREAM_HEALTH (up_name u) (StreamBackendAddr_to_string (up_servers u ! k)) 0,
             HEALTH_TRANSITIONS (up_name u) (StreamBackendAddr_to_string (up_servers u ! k)) ''healthy_to_unhealthy'']
       else []) \<and>
    report_success u (up_servers u ! k) =
      (u\<lparr>up_health := (up_health u)[k := record_success (up_health u ! k)]\<rparr>,
       if bh_healthy (up_health u ! k) then []
       else [UPSTREAM_HEALTH (up_name u) (StreamBackendAddr_to_string (up_servers u ! k)) 1,
             HEALTH_TRANSITIONS (up_name u) (StreamBackendAddr_to_string (up_servers u ! k)) ''unhealthy_to_healthy''])"
  by (simp add: report_failure_def report_success_def Let_def report_nth [OF assms])

theorem report_updates_backend_witness:
  "up_health (fst (report_failure (with_cooldown ''u'' [Unix ''/a'', Unix ''/b''] 30) (Unix ''/b'') 7)) ! 0 =
   BackendHealth_new ''unix:/a''"
proof -
  let ?u = "with_cooldown ''u'' [Unix ''/a'', Unix ''/b''] 30"
  have wf: "wf_upstream ?u" by (rule with_cooldown_wf) (simp_all add: valid_backend_def starts_with_def)
  have "distinct (up_servers ?u)" "1 < length (up_servers ?u)" by (simp_all add: with_cooldown_def)
  from report_updates_backend [OF wf this, of 7] show ?thesis by (simp add: with_cooldown_def)
qed

end
