(* ===== verification/Tls_Config.thy ===== *)
theory Tls_Config
  imports Wicket_Prelude
begin

text \<open>
  TLS configuration (\<^verbatim>\<open>crates/wicket-tls/src/config.rs\<close>): the configuration records, the list of
  certificates to obtain (explicit ones and those of routes with automatic TLS), and the
  resolution of a DNS provider's API token. Paths are strings; the file system and the
  environment are arguments.
\<close>

record DnsProviderConfig =
  dns_provider :: string
  dns_api_token :: string
  dns_api_token_file :: "string option"
  dns_zone_id :: "string option"

record AcmeCertConfig =
  acc_domains :: "string list"
  acc_dns :: DnsProviderConfig

record AcmeConfig =
  acme_email :: string
  acme_staging :: bool
  acme_storage :: string
  acme_renew_before_days :: u32
  acme_certs :: "AcmeCertConfig list"
  acme_default_dns :: "DnsProviderConfig option"
  acme_dns_providers :: "(string, DnsProviderConfig) hashmap"

record FileCertConfig =
  fcc_name :: string
  fcc_cert :: string
  fcc_key :: string
  fcc_domains :: "string list"

record FileConfig =
  fc_watch :: bool
  fc_poll_interval_secs :: u64
  fc_certs :: "FileCertConfig list"

datatype TlsMode = Acme | File | Mixed

record TlsConfig =
  tls_mode :: TlsMode
  tls_acme :: "AcmeConfig option"
  tls_file :: "FileConfig option"

record AutoTlsDomain =
  atd_domain :: string
  atd_provider :: "string option"

section \<open>Certificates to obtain\<close>

definition auto_domain_dns :: "AcmeConfig \<Rightarrow> AutoTlsDomain \<Rightarrow> DnsProviderConfig option" where
  "auto_domain_dns self auto_domain =
     (case atd_provider auto_domain of
        Some provider_name \<Rightarrow> hm_get (acme_dns_providers self) provider_name
      | None \<Rightarrow> acme_default_dns self)"

fun auto_certs_loop ::
  "AcmeConfig \<Rightarrow> string set \<Rightarrow> AcmeCertConfig list \<Rightarrow> AutoTlsDomain list \<Rightarrow> AcmeCertConfig list" where
  "auto_certs_loop self covered all_certs [] = all_certs"
| "auto_certs_loop self covered all_certs (auto_domain # ds) =
     (if atd_domain auto_domain \<in> covered then auto_certs_loop self covered all_certs ds
      else
        (case auto_domain_dns self auto_domain of
           Some dns \<Rightarrow>
             auto_certs_loop self covered
               (all_certs @ [\<lparr>acc_domains = [atd_domain auto_domain], acc_dns = dns\<rparr>]) ds
         | None \<Rightarrow> auto_certs_loop self covered all_certs ds))"

definition all_certs_with_providers :: "AcmeConfig \<Rightarrow> AutoTlsDomain list \<Rightarrow> AcmeCertConfig list" where
  "all_certs_with_providers self auto_tls_domains =
     auto_certs_loop self (set (concat (map acc_domains (acme_certs self)))) (acme_certs self) auto_tls_domains"

definition all_certs :: "AcmeConfig \<Rightarrow> string list \<Rightarrow> AcmeCertConfig list" where
  "all_certs self auto_tls_domains =
     all_certs_with_providers self (map (\<lambda>d. \<lparr>atd_domain = d, atd_provider = None\<rparr>) auto_tls_domains)"

section \<open>API tokens\<close>

definition resolve_api_token ::
  "(string \<Rightarrow> string + string) \<Rightarrow> (string \<Rightarrow> string option) \<Rightarrow> DnsProviderConfig \<Rightarrow> string + string" where
  "resolve_api_token read_to_string env_var self =
     (case dns_api_token_file self of
        Some token_file \<Rightarrow>
          (case read_to_string token_file of
             Inr s \<Rightarrow> Ok (trim s)
           | Inl e \<Rightarrow> Err (''Failed to read token from '' @ token_file @ '': '' @ e))
      | None \<Rightarrow>
          if dns_api_token self = [] then Err ''No api_token or api_token_file configured''
          else if starts_with (dns_api_token self) ''${'' \<and> ends_with (dns_api_token self) ''}'' then
            let var_name = take (length (dns_api_token self) - 1 - 2) (drop 2 (dns_api_token self)) in
            (case env_var var_name of
               Some v \<Rightarrow> Ok v
             | None \<Rightarrow> Err (''Environment variable '' @ var_name @ '' not set''))
          else Ok (dns_api_token self))"

section \<open>Lemmas\<close>

lemma auto_certs_loop_append:
  "auto_certs_loop self covered acc ds = acc @ auto_certs_loop self covered [] ds"
proof (induction ds arbitrary: acc)
  case (Cons d ds)
  show ?case
    by (cases "auto_domain_dns self d"; cases "atd_domain d \<in> covered")
       (simp_all add: Cons.IH [of acc] Cons.IH [of "acc @ _"] Cons.IH [of "[_]"])
qed simp

lemma auto_certs_loop_covers:
  assumes "d \<in> set ds" "atd_domain d \<notin> covered" "auto_domain_dns self d = Some dns"
  shows "\<lparr>acc_domains = [atd_domain d], acc_dns = dns\<rparr> \<in> set (auto_certs_loop self covered acc ds)"
  using assms
proof (induction ds arbitrary: acc)
  case (Cons e ds)
  show ?case
  proof (cases "e = d")
    case True
    with Cons.prems show ?thesis
      by (simp add: auto_certs_loop_append [where acc = "acc @ _"])
  next
    case False
    with Cons show ?thesis by (auto split: option.splits)
  qed
qed simp

lemma auto_certs_loop_set:
  "c \<in> set (auto_certs_loop self covered acc ds) \<Longrightarrow>
     c \<in> set acc \<or> (\<exists>d\<in>set ds. atd_domain d \<notin> covered \<and> acc_domains c = [atd_domain d] \<and>
        auto_domain_dns self d = Some (acc_dns c))"
proof (induction ds arbitrary: acc)
  case (Cons d ds)
  show ?case
  proof (cases "atd_domain d \<in> covered \<or> auto_domain_dns self d = None")
    case True
    with Cons.prems Cons.IH [of acc] show ?thesis by (auto split: if_splits)
  next
    case False
    with Cons.prems Cons.IH [of "acc @ [_]"] show ?thesis by fastforce
  qed
qed simp

lemma all_certs_prefix: "\<exists>extra. all_certs_with_providers self ds = acme_certs self @ extra"
  unfolding all_certs_with_providers_def
  using auto_certs_loop_append [of self _ "acme_certs self" ds] by blast

end
