(* ===== verification/Wicket_Config.thy ===== *)
theory Wicket_Config
  imports Net_Addr Tls_Config
begin

text \<open>
  The configuration (\<^verbatim>\<open>crates/wicket-config/src/lib.rs\<close>): its records with their defaults, the
  validation that every loaded configuration passes, and the collection of domains for
  automatic TLS. Maps are association lists in iteration order (sorted by key where the
  source has a \<^verbatim>\<open>BTreeMap\<close>). Each \<^verbatim>\<open>bail!\<close> is one constructor of \<^verbatim>\<open>config_error\<close>. Reading and
  deserialising TOML is done by the \<^verbatim>\<open>toml\<close> and \<^verbatim>\<open>serde\<close> crates.
\<close>

section \<open>Configuration records\<close>

datatype LogFormat = TextFormat | JsonFormat

datatype AccessLogFormat = Combined | JsonAccess

record LogFilesConfig =
  lf_enabled :: bool
  lf_directory :: string
  lf_error :: string
  lf_access :: string
  lf_acme :: string

record AccessLogConfig =
  al_enabled :: bool
  al_format :: AccessLogFormat

record LoggingConfig =
  log_level :: "string option"
  log_format :: "LogFormat option"
  log_files :: LogFilesConfig
  log_access :: AccessLogConfig

record ServerConfig =
  srv_listen :: SocketAddr
  srv_http_listens :: "SocketAddr list"
  srv_https_listen :: "SocketAddr option"
  srv_disable_http :: bool
  srv_workers :: "usize option"
  srv_json_logs :: bool
  srv_log_level :: string
  srv_shutdown_timeout :: u64

datatype LoadBalanceStrategy = RoundRobin | ConsistentHash

record HealthCheckConfig =
  hc_path :: string
  hc_interval :: u64
  hc_unhealthy_threshold :: u32

record UpstreamConfig =
  uc_backends :: "string list"
  uc_strategy :: LoadBalanceStrategy
  uc_health_check :: "HealthCheckConfig option"

record HeaderModifier =
  hmod_add :: "(string, string) hashmap"
  hmod_set :: "(string, string) hashmap"
  hmod_remove :: "string list"

datatype PathModifier = ReplaceFullPath string | ReplacePrefixMatch string

record RedirectFilter =
  rd_scheme :: "string option"
  rd_hostname :: "string option"
  rd_port :: "u16 option"
  rd_path :: "PathModifier option"
  rd_status_code :: u16

record UrlRewriteFilter =
  ur_hostname :: "string option"
  ur_path :: "PathModifier option"

record MirrorFilter =
  mir_upstream :: string
  mir_percent :: u8

record RouteFilters =
  rf_request_headers :: "HeaderModifier option"
  rf_response_headers :: "HeaderModifier option"
  rf_redirect :: "RedirectFilter option"
  rf_url_rewrite :: "UrlRewriteFilter option"
  rf_mirror :: "MirrorFilter option"

datatype SimpleTlsMode = Auto | Off

datatype RouteTlsConfig =
  Simple SimpleTlsMode
| AutoWithProvider string
| CertRef string

record RouteMatch =
  rm_host :: "string option"
  rm_path_prefix :: "string option"
  rm_path :: "string option"
  rm_methods :: "string list"
  rm_headers :: "(string, string) hashmap"

record RouteConfig =
  rc_name :: "string option"
  rc_match_rules :: RouteMatch
  rc_upstream :: string
  rc_tls :: "RouteTlsConfig option"
  rc_filters :: "RouteFilters option"
  rc_timeout :: "u64 option"

datatype ProxyProtocolConfig = PPNone | PPV1 | PPV2

record StreamUpstreamConfig =
  su_name :: string
  su_servers :: "string list"

record StreamConfig =
  st_name :: string
  st_listen :: string
  st_backlog :: u32
  st_reuseport :: bool
  st_proxy_protocol :: ProxyProtocolConfig
  st_source_ips :: "IpAddr list"
  st_default_upstream :: "string option"
  st_sni_routes :: "(string, string) hashmap"
  st_upstreams :: "StreamUpstreamConfig list"
  st_health_cooldown_secs :: u64
  st_connect_timeout_ms :: u64
  st_max_connections :: u32
  st_drain_timeout_secs :: u64

record Config =
  cfg_server :: ServerConfig
  cfg_upstreams :: "(string, UpstreamConfig) hashmap"
  cfg_routes :: "RouteConfig list"
  cfg_tls :: "TlsConfig option"
  cfg_streams :: "StreamConfig list"
  cfg_logging :: LoggingConfig

section \<open>Defaults\<close>

definition default_log_level :: string where "default_log_level = ''info''"
definition default_shutdown_timeout :: u64 where "default_shutdown_timeout = 30"
definition default_log_directory :: string where "default_log_directory = ''/var/log/wicket''"
definition default_error_log_file :: string where "default_error_log_file = ''error.log''"
definition default_access_log_file :: string where "default_access_log_file = ''access.log''"
definition default_acme_log_file :: string where "default_acme_log_file = ''acme.log''"
definition default_lb_strategy :: LoadBalanceStrategy where "default_lb_strategy = RoundRobin"
definition default_health_path :: string where "default_health_path = ''/health''"
definition default_health_interval :: u64 where "default_health_interval = 10"
definition default_health_threshold :: u32 where "default_health_threshold = 3"
definition default_backlog :: u32 where "default_backlog = 8000"
definition default_health_cooldown_secs :: u64 where "default_health_cooldown_secs = 30"
definition default_connect_timeout_ms :: u64 where "default_connect_timeout_ms = 5000"
definition default_max_connections :: u32 where "default_max_connections = 10000"
definition default_drain_timeout_secs :: u64 where "default_drain_timeout_secs = 30"

definition LogFilesConfig_default :: LogFilesConfig where
  "LogFilesConfig_default =
     \<lparr>lf_enabled = False, lf_directory = default_log_directory, lf_error = default_error_log_file,
      lf_access = default_access_log_file, lf_acme = default_acme_log_file\<rparr>"

definition AccessLogConfig_default :: AccessLogConfig where
  "AccessLogConfig_default = \<lparr>al_enabled = False, al_format = Combined\<rparr>"

definition LoggingConfig_default :: LoggingConfig where
  "LoggingConfig_default =
     \<lparr>log_level = None, log_format = None, log_files = LogFilesConfig_default,
      log_access = AccessLogConfig_default\<rparr>"

definition Config_default :: Config where
  "Config_default =
     \<lparr>cfg_server =
        \<lparr>srv_listen = SocketAddrV4 (Ipv4 0 0 0 0) 8080, srv_http_listens = [], srv_https_listen = None,
         srv_disable_http = False, srv_workers = None, srv_json_logs = True,
         srv_log_level = default_log_level, srv_shutdown_timeout = default_shutdown_timeout\<rparr>,
      cfg_upstreams = [], cfg_routes = [], cfg_tls = None, cfg_streams = [],
      cfg_logging = LoggingConfig_default\<rparr>"

section \<open>Listen addresses and route TLS\<close>

fun listen_addrs_loop :: "SocketAddr set \<Rightarrow> SocketAddr list \<Rightarrow> SocketAddr list \<Rightarrow> SocketAddr list" where
  "listen_addrs_loop seen addrs [] = addrs"
| "listen_addrs_loop seen addrs (addr # rest) =
     (if addr \<notin> seen then listen_addrs_loop (insert addr seen) (addrs @ [addr]) rest
      else listen_addrs_loop seen addrs rest)"

definition http_listen_addrs :: "ServerConfig \<Rightarrow> SocketAddr list" where
  "http_listen_addrs self = listen_addrs_loop {} [] (srv_listen self # srv_http_listens self)"

fun is_auto :: "RouteTlsConfig \<Rightarrow> bool" where
  "is_auto (Simple Auto) = True"
| "is_auto (AutoWithProvider _) = True"
| "is_auto _ = False"

fun provider :: "RouteTlsConfig \<Rightarrow> string option" where
  "provider (AutoWithProvider auto_name) = Some auto_name"
| "provider _ = None"

fun is_cert_ref :: "RouteTlsConfig \<Rightarrow> bool" where
  "is_cert_ref (CertRef _) = True"
| "is_cert_ref _ = False"

fun cert_name :: "RouteTlsConfig \<Rightarrow> string option" where
  "cert_name (CertRef cert) = Some cert"
| "cert_name _ = None"

section \<open>Validation\<close>

datatype config_error =
  AccessRequiresFiles
| EmptyErrorLog
| EmptyAccessLog
| EmptyAcmeLog
| UndefinedUpstream string string
| UnsupportedFilters string
| UnsupportedRewriteHostname string
| RewritePathNotAbsolute string
| UnsupportedTimeout string
| NoMatchRules string
| NoBackends string
| AcmeRequiresCert
| AcmeCertNoDomains
| AcmeSectionMissing
| FileRequiresCert
| TooManyDefaultCerts nat
| FileSectionMissing
| UnknownDnsProvider string string "string list"
| AutoProviderWithoutAcme string string
| AutoWithoutDefaultDns string
| AutoWithoutAcme string
| UnknownCertificate string string "string list"
| CertRefWithoutFile string string
| StreamNameEmpty
| StreamNameDuplicate string
| StreamListenInvalid string
| StreamListenDuplicate string
| StreamDefaultUndefined string string
| StreamSniUndefined string string string
| StreamNoUpstreams string
| StreamNoServers string string
| TomlError string

definition route_name :: "RouteConfig \<Rightarrow> string" where
  "route_name route = unwrap_or (rc_name route) ''<unnamed>''"

definition validate_logging :: "Config \<Rightarrow> config_error + unit" where
  "validate_logging self =
     (let files = log_files (cfg_logging self); access = log_access (cfg_logging self) in
      and_then (bail_if (al_enabled access \<and> \<not> lf_enabled files) AccessRequiresFiles) (\<lambda>_.
      if lf_enabled files then
        and_then (bail_if (lf_error files = []) EmptyErrorLog) (\<lambda>_.
        and_then (bail_if (lf_access files = []) EmptyAccessLog) (\<lambda>_.
        bail_if (lf_acme files = []) EmptyAcmeLog))
      else Ok ()))"

definition validate_route_filters :: "RouteConfig \<Rightarrow> RouteFilters \<Rightarrow> config_error + unit" where
  "validate_route_filters route filters =
     and_then (bail_if (rf_request_headers filters \<noteq> None \<or> rf_response_headers filters \<noteq> None \<or>
                        rf_redirect filters \<noteq> None \<or> rf_mirror filters \<noteq> None)
                 (UnsupportedFilters (route_name route))) (\<lambda>_.
     case rf_url_rewrite filters of
       None \<Rightarrow> Ok ()
     | Some url_rewrite \<Rightarrow>
         and_then (bail_if (ur_hostname url_rewrite \<noteq> None) (UnsupportedRewriteHostname (route_name route))) (\<lambda>_.
         case ur_path url_rewrite of
           None \<Rightarrow> Ok ()
         | Some path \<Rightarrow>
             let replacement = (case path of ReplaceFullPath p \<Rightarrow> p | ReplacePrefixMatch p \<Rightarrow> p) in
             bail_if (\<not> starts_with replacement ''/'') (RewritePathNotAbsolute (route_name route))))"

definition has_match :: "RouteMatch \<Rightarrow> bool" where
  "has_match m =
     (rm_host m \<noteq> None \<or> rm_path_prefix m \<noteq> None \<or> rm_path m \<noteq> None \<or>
      rm_methods m \<noteq> [] \<or> rm_headers m \<noteq> [])"

definition validate_route :: "Config \<Rightarrow> RouteConfig \<Rightarrow> config_error + unit" where
  "validate_route self route =
     and_then (bail_if (\<not> hm_contains (cfg_upstreams self) (rc_upstream route))
                 (UndefinedUpstream (route_name route) (rc_upstream route))) (\<lambda>_.
     and_then (case rc_filters route of None \<Rightarrow> Ok () | Some filters \<Rightarrow> validate_route_filters route filters) (\<lambda>_.
     and_then (bail_if (rc_timeout route \<noteq> None) (UnsupportedTimeout (route_name route))) (\<lambda>_.
     bail_if (\<not> has_match (rc_match_rules route)) (NoMatchRules (route_name route)))))"

definition validate_acme :: "TlsMode \<Rightarrow> AcmeConfig option \<Rightarrow> config_error + unit" where
  "validate_acme mode acme_section =
     (if mode = Acme \<or> mode = Mixed then
        (case acme_section of
           Some acme \<Rightarrow>
             and_then (bail_if (acme_certs acme = []) AcmeRequiresCert) (\<lambda>_.
             try_each (\<lambda>cert. bail_if (acc_domains cert = []) AcmeCertNoDomains) (acme_certs acme))
         | None \<Rightarrow> bail_if (mode = Acme) AcmeSectionMissing)
      else Ok ())"

definition validate_file :: "TlsMode \<Rightarrow> FileConfig option \<Rightarrow> config_error + unit" where
  "validate_file mode file_section =
     (if mode = File \<or> mode = Mixed then
        (case file_section of
           Some file \<Rightarrow>
             and_then (bail_if (fc_certs file = [] \<and> mode = File) FileRequiresCert) (\<lambda>_.
             let default_cert_count = length (filter (\<lambda>c. fcc_domains c = []) (fc_certs file)) in
             bail_if (default_cert_count > 1) (TooManyDefaultCerts default_cert_count))
         | None \<Rightarrow> bail_if (mode = File) FileSectionMissing)
      else Ok ())"

definition validate_tls :: "TlsConfig \<Rightarrow> config_error + unit" where
  "validate_tls tls =
     and_then (validate_acme (tls_mode tls) (tls_acme tls)) (\<lambda>_. validate_file (tls_mode tls) (tls_file tls))"

definition validate_one_route_tls :: "TlsConfig \<Rightarrow> RouteConfig \<Rightarrow> RouteTlsConfig \<Rightarrow> config_error + unit" where
  "validate_one_route_tls tls route route_tls =
     and_then
       (case provider route_tls of
          None \<Rightarrow> Ok ()
        | Some provider_name \<Rightarrow>
            (case tls_acme tls of
               Some acme \<Rightarrow>
                 bail_if (\<not> hm_contains (acme_dns_providers acme) provider_name)
                   (UnknownDnsProvider (route_name route) provider_name (hm_keys (acme_dns_providers acme)))
             | None \<Rightarrow> Err (AutoProviderWithoutAcme (route_name route) provider_name))) (\<lambda>_.
     and_then
       (if is_auto route_tls \<and> provider route_tls = None then
          (case tls_acme tls of
             Some acme \<Rightarrow> bail_if (acme_default_dns acme = None) (AutoWithoutDefaultDns (route_name route))
           | None \<Rightarrow> Err (AutoWithoutAcme (route_name route)))
        else Ok ()) (\<lambda>_.
     case cert_name route_tls of
       None \<Rightarrow> Ok ()
     | Some cert \<Rightarrow>
         (case tls_file tls of
            Some file_config \<Rightarrow>
              bail_if (\<not> list_ex (\<lambda>c. fcc_name c = cert) (fc_certs file_config))
                (UnknownCertificate (route_name route) cert (map fcc_name (fc_certs file_config)))
          | None \<Rightarrow> Err (CertRefWithoutFile (route_name route) cert))))"

definition validate_route_tls :: "Config \<Rightarrow> TlsConfig \<Rightarrow> config_error + unit" where
  "validate_route_tls self tls =
     try_each (\<lambda>route. case rc_tls route of
        None \<Rightarrow> Ok ()
      | Some route_tls \<Rightarrow> validate_one_route_tls tls route route_tls) (cfg_routes self)"

definition validate_stream :: "StreamConfig \<Rightarrow> config_error + unit" where
  "validate_stream stream =
     (let upstream_names = set (map su_name (st_upstreams stream)) in
      and_then
        (case st_default_upstream stream of
           None \<Rightarrow> Ok ()
         | Some dflt \<Rightarrow>
             bail_if (dflt \<notin> upstream_names) (StreamDefaultUndefined (st_name stream) dflt)) (\<lambda>_.
      and_then
        (try_each (\<lambda>(sni, upstream).
             bail_if (upstream \<notin> upstream_names) (StreamSniUndefined (st_name stream) sni upstream))
           (st_sni_routes stream)) (\<lambda>_.
      and_then (bail_if (st_upstreams stream = []) (StreamNoUpstreams (st_name stream))) (\<lambda>_.
      try_each (\<lambda>upstream. bail_if (su_servers upstream = [])
                  (StreamNoServers (st_name stream) (su_name upstream))) (st_upstreams stream)))))"

fun validate_streams_loop :: "string set \<Rightarrow> SocketAddr set \<Rightarrow> StreamConfig list \<Rightarrow> config_error + unit" where
  "validate_streams_loop seen_names seen_addrs [] = Ok ()"
| "validate_streams_loop seen_names seen_addrs (stream # rest) =
     and_then (bail_if (trim (st_name stream) = []) StreamNameEmpty) (\<lambda>_.
     and_then (bail_if (st_name stream \<in> seen_names) (StreamNameDuplicate (st_name stream))) (\<lambda>_.
     and_then
       (case parse_socket_addr (st_listen stream) of
          None \<Rightarrow> Err (StreamListenInvalid (st_listen stream))
        | Some addr \<Rightarrow> Ok addr) (\<lambda>addr.
     and_then (bail_if (addr \<in> seen_addrs) (StreamListenDuplicate (st_listen stream))) (\<lambda>_.
     and_then (validate_stream stream) (\<lambda>_.
     validate_streams_loop (insert (st_name stream) seen_names) (insert addr seen_addrs) rest)))))"

definition validate_streams :: "Config \<Rightarrow> config_error + unit" where
  "validate_streams self = validate_streams_loop {} {} (cfg_streams self)"

definition validate_upstreams :: "Config \<Rightarrow> config_error + unit" where
  "validate_upstreams self =
     try_each (\<lambda>(name, upstream). bail_if (uc_backends upstream = []) (NoBackends name)) (cfg_upstreams self)"

definition validate :: "Config \<Rightarrow> config_error + unit" where
  "validate self =
     and_then (validate_logging self) (\<lambda>_.
     and_then (try_each (validate_route self) (cfg_routes self)) (\<lambda>_.
     and_then (validate_upstreams self) (\<lambda>_.
     and_then
       (case cfg_tls self of
          None \<Rightarrow> Ok ()
        | Some tls \<Rightarrow> and_then (validate_tls tls) (\<lambda>_. validate_route_tls self tls)) (\<lambda>_.
     validate_streams self))))"

text \<open>\<^verbatim>\<open>Config::parse\<close>, with the TOML deserialiser as an argument.\<close>

definition Config_parse :: "(string \<Rightarrow> string + Config) \<Rightarrow> string \<Rightarrow> config_error + Config" where
  "Config_parse toml_from_str content =
     (case toml_from_str content of
        Inl e \<Rightarrow> Err (TomlError e)
      | Inr config \<Rightarrow> and_then (validate config) (\<lambda>_. Ok config))"

section \<open>Automatic TLS domains\<close>

definition route_is_auto :: "RouteConfig \<Rightarrow> bool" where
  "route_is_auto r = (case rc_tls r of Some t \<Rightarrow> is_auto t | None \<Rightarrow> False)"

definition collect_auto_tls_domains :: "Config \<Rightarrow> string list" where
  "collect_auto_tls_domains self =
     List.map_filter (\<lambda>r. rm_host (rc_match_rules r)) (filter route_is_auto (cfg_routes self))"

definition collect_auto_tls_domains_with_providers :: "Config \<Rightarrow> AutoTlsDomain list" where
  "collect_auto_tls_domains_with_providers self =
     List.map_filter (\<lambda>r. do {
        tls \<leftarrow> rc_tls r;
        if \<not> is_auto tls then None
        else do {
          host \<leftarrow> rm_host (rc_match_rules r);
          Some \<lparr>atd_domain = host, atd_provider = provider tls\<rparr> } }) (cfg_routes self)"

definition has_auto_tls_routes :: "Config \<Rightarrow> bool" where
  "has_auto_tls_routes self = list_ex route_is_auto (cfg_routes self)"

section \<open>What validation accepts\<close>

text \<open>The conditions, without the order in which they are checked.\<close>

definition logging_wf :: "LoggingConfig \<Rightarrow> bool" where
  "logging_wf l =
     ((al_enabled (log_access l) \<longrightarrow> lf_enabled (log_files l)) \<and>
      (lf_enabled (log_files l) \<longrightarrow>
         lf_error (log_files l) \<noteq> [] \<and> lf_access (log_files l) \<noteq> [] \<and> lf_acme (log_files l) \<noteq> []))"

definition filters_wf :: "RouteFilters \<Rightarrow> bool" where
  "filters_wf f =
     (rf_request_headers f = None \<and> rf_response_headers f = None \<and> rf_redirect f = None \<and> rf_mirror f = None \<and>
      (\<forall>u. rf_url_rewrite f = Some u \<longrightarrow> ur_hostname u = None \<and>
         (\<forall>p. ur_path u = Some (ReplaceFullPath p) \<or> ur_path u = Some (ReplacePrefixMatch p) \<longrightarrow> starts_with p ''/'')))"

definition route_wf :: "Config \<Rightarrow> RouteConfig \<Rightarrow> bool" where
  "route_wf c r =
     (rc_upstream r \<in> fst ` set (cfg_upstreams c) \<and> (\<forall>f. rc_filters r = Some f \<longrightarrow> filters_wf f) \<and>
      rc_timeout r = None \<and> has_match (rc_match_rules r))"

definition tls_wf :: "TlsConfig \<Rightarrow> bool" where
  "tls_wf t =
     ((tls_mode t = Acme \<longrightarrow> tls_acme t \<noteq> None) \<and> (tls_mode t = File \<longrightarrow> tls_file t \<noteq> None) \<and>
      (tls_mode t \<noteq> File \<longrightarrow> (\<forall>a. tls_acme t = Some a \<longrightarrow>
         acme_certs a \<noteq> [] \<and> (\<forall>c\<in>set (acme_certs a). acc_domains c \<noteq> []))) \<and>
      (tls_mode t \<noteq> Acme \<longrightarrow> (\<forall>f. tls_file t = Some f \<longrightarrow>
         (tls_mode t = File \<longrightarrow> fc_certs f \<noteq> []) \<and>
         length (filter (\<lambda>c. fcc_domains c = []) (fc_certs f)) \<le> 1)))"

definition route_tls_wf :: "TlsConfig \<Rightarrow> RouteTlsConfig \<Rightarrow> bool" where
  "route_tls_wf t rt =
     (case rt of
        Simple Auto \<Rightarrow> (\<exists>a. tls_acme t = Some a \<and> acme_default_dns a \<noteq> None)
      | Simple Off \<Rightarrow> True
      | AutoWithProvider p \<Rightarrow> (\<exists>a. tls_acme t = Some a \<and> p \<in> fst ` set (acme_dns_providers a))
      | CertRef n \<Rightarrow> (\<exists>f. tls_file t = Some f \<and> n \<in> fcc_name ` set (fc_certs f)))"

definition stream_wf :: "StreamConfig \<Rightarrow> bool" where
  "stream_wf s =
     ((\<forall>d. st_default_upstream s = Some d \<longrightarrow> d \<in> su_name ` set (st_upstreams s)) \<and>
      (\<forall>u\<in>snd ` set (st_sni_routes s). u \<in> su_name ` set (st_upstreams s)) \<and>
      st_upstreams s \<noteq> [] \<and> (\<forall>u\<in>set (st_upstreams s). su_servers u \<noteq> []))"

definition streams_wf :: "StreamConfig list \<Rightarrow> bool" where
  "streams_wf ss =
     (distinct (map st_name ss) \<and> distinct (map (\<lambda>s. parse_socket_addr (st_listen s)) ss) \<and>
      (\<forall>s\<in>set ss. trim (st_name s) \<noteq> [] \<and> parse_socket_addr (st_listen s) \<noteq> None \<and> stream_wf s))"

definition config_wf :: "Config \<Rightarrow> bool" where
  "config_wf c =
     (logging_wf (cfg_logging c) \<and> (\<forall>r\<in>set (cfg_routes c). route_wf c r) \<and>
      (\<forall>u\<in>snd ` set (cfg_upstreams c). uc_backends u \<noteq> []) \<and>
      (\<forall>t. cfg_tls c = Some t \<longrightarrow> tls_wf t \<and>
         (\<forall>r\<in>set (cfg_routes c). \<forall>rt. rc_tls r = Some rt \<longrightarrow> route_tls_wf t rt)) \<and>
      streams_wf (cfg_streams c))"

lemma validate_logging_iff: "validate_logging c = Ok () \<longleftrightarrow> logging_wf (cfg_logging c)"
  by (auto simp: validate_logging_def logging_wf_def Let_def and_then_Ok_iff)

lemma validate_route_filters_iff: "validate_route_filters r f = Ok () \<longleftrightarrow> filters_wf f"
  by (auto simp: validate_route_filters_def filters_wf_def and_then_Ok_iff Let_def
      split: option.splits PathModifier.splits)

lemma validate_route_iff: "validate_route c r = Ok () \<longleftrightarrow> route_wf c r"
  by (auto simp: validate_route_def route_wf_def and_then_Ok_iff validate_route_filters_iff hm_simps
      split: option.splits)

lemma validate_tls_iff: "validate_tls t = Ok () \<longleftrightarrow> tls_wf t"
  unfolding validate_tls_def and_then_Ok_iff
  by (cases "tls_mode t"; cases "tls_acme t"; cases "tls_file t")
     (auto simp: validate_acme_def validate_file_def tls_wf_def and_then_Ok_iff try_each_Ok_iff Let_def)

lemma validate_one_route_tls_iff: "validate_one_route_tls t r rt = Ok () \<longleftrightarrow> route_tls_wf t rt"
proof (cases rt)
  case (Simple m)
  then show ?thesis
    by (cases m) (auto simp: validate_one_route_tls_def route_tls_wf_def and_then_Ok_iff split: option.splits)
next
  case (AutoWithProvider p)
  then show ?thesis
    by (auto simp: validate_one_route_tls_def route_tls_wf_def and_then_Ok_iff hm_simps split: option.splits)
next
  case (CertRef n)
  then show ?thesis
    by (auto simp: validate_one_route_tls_def route_tls_wf_def and_then_Ok_iff list_ex_iff split: option.splits)
qed

lemma validate_route_tls_iff:
  "validate_route_tls c t = Ok () \<longleftrightarrow>
     (\<forall>r\<in>set (cfg_routes c). \<forall>rt. rc_tls r = Some rt \<longrightarrow> route_tls_wf t rt)"
  by (auto simp: validate_route_tls_def try_each_Ok_iff validate_one_route_tls_iff split: option.splits)

lemma validate_stream_iff: "validate_stream s = Ok () \<longleftrightarrow> stream_wf s"
  by (auto simp: validate_stream_def stream_wf_def Let_def and_then_Ok_iff try_each_Ok_iff split: option.splits)

lemma validate_streams_loop_iff:
  "validate_streams_loop names addrs ss = Ok () \<longleftrightarrow>
     streams_wf ss \<and> names \<inter> st_name ` set ss = {} \<and>
     Some ` addrs \<inter> (\<lambda>s. parse_socket_addr (st_listen s)) ` set ss = {}"
proof (induction ss arbitrary: names addrs)
  case (Cons s ss)
  show ?case
  proof (cases "parse_socket_addr (st_listen s)")
    case (Some addr)
    then show ?thesis
      by (auto simp: Cons.IH and_then_Ok_iff validate_stream_iff streams_wf_def image_iff)
  qed (simp add: and_then_Ok_iff streams_wf_def)
qed (simp add: streams_wf_def)

lemma validate_iff: "validate c = Ok () \<longleftrightarrow> config_wf c"
proof -
  have "validate_upstreams c = Ok () \<longleftrightarrow> (\<forall>u\<in>snd ` set (cfg_upstreams c). uc_backends u \<noteq> [])"
    by (auto simp: validate_upstreams_def try_each_Ok_iff)
  then show ?thesis
    unfolding validate_def config_wf_def and_then_Ok_iff validate_streams_def
    by (auto simp: validate_logging_iff try_each_Ok_iff validate_route_iff and_then_Ok_iff validate_tls_iff
        validate_route_tls_iff validate_streams_loop_iff split: option.splits)
qed

lemma listen_addrs_loop_spec:
  "distinct acc \<Longrightarrow> seen = set acc \<Longrightarrow>
     distinct (listen_addrs_loop seen acc xs) \<and> set (listen_addrs_loop seen acc xs) = set acc \<union> set xs \<and>
     (\<exists>r. listen_addrs_loop seen acc xs = acc @ r)"
proof (induction xs arbitrary: seen acc)
  case (Cons x xs)
  show ?case
  proof (cases "x \<in> seen")
    case True
    with Cons show ?thesis by auto
  next
    case False
    with Cons.prems Cons.IH [of "acc @ [x]" "insert x seen"] show ?thesis by auto
  qed
qed simp

lemma hm_get_contains: "k \<in> fst ` set m \<Longrightarrow> \<exists>v. hm_get m k = Some v"
  by (cases "hm_get m k") (auto simp: hm_get_def map_of_eq_None_iff)

text \<open>Validation gives every automatic-TLS route a DNS provider.\<close>

lemma auto_route_dns:
  assumes "route_tls_wf t rt" "is_auto rt"
  shows "\<exists>a dns. tls_acme t = Some a \<and>
    auto_domain_dns a \<lparr>atd_domain = h, atd_provider = provider rt\<rparr> = Some dns"
proof (cases rt)
  case (Simple m)
  with assms show ?thesis by (cases m) (auto simp: route_tls_wf_def auto_domain_dns_def)
next
  case (AutoWithProvider p)
  with assms obtain a where "tls_acme t = Some a" "p \<in> fst ` set (acme_dns_providers a)"
    by (auto simp: route_tls_wf_def)
  with AutoWithProvider show ?thesis
    by (auto simp: auto_domain_dns_def dest!: hm_get_contains)
qed (use assms in simp)

lemma collect_auto_domain:
  assumes "r \<in> set (cfg_routes c)" "rc_tls r = Some rt" "is_auto rt" "rm_host (rc_match_rules r) = Some h"
  shows "\<lparr>atd_domain = h, atd_provider = provider rt\<rparr> \<in> set (collect_auto_tls_domains_with_providers c)"
  using assms unfolding collect_auto_tls_domains_with_providers_def
  by (force simp: map_filter_def)

lemma collect_domains_agree:
  "map atd_domain (collect_auto_tls_domains_with_providers c) = collect_auto_tls_domains c"
proof -
  have "map atd_domain (List.map_filter (\<lambda>r. do {
        tls \<leftarrow> rc_tls r;
        if \<not> is_auto tls then None
        else do {
          host \<leftarrow> rm_host (rc_match_rules r);
          Some \<lparr>atd_domain = host, atd_provider = provider tls\<rparr> } }) rs) =
      List.map_filter (\<lambda>r. rm_host (rc_match_rules r)) (filter route_is_auto rs)" for rs
    by (induction rs) (auto simp: List.map_filter_simps route_is_auto_def split: option.splits)
  then show ?thesis
    unfolding collect_auto_tls_domains_with_providers_def collect_auto_tls_domains_def .
qed

section \<open>Properties\<close>

text \<open>
  C8: validation accepts exactly the consistent configurations: log files are named where
  enabled, every route has a match rule, a defined upstream and only supported filters, every
  upstream has a backend, TLS sections and references exist, and streams have unique
  non-blank names, unique parseable addresses, and only defined, non-empty upstreams.
\<close>

theorem validate_accepts_iff: "validate c = Ok () \<longleftrightarrow> config_wf c"
  by (rule validate_iff)


definition example_dns :: DnsProviderConfig where
  "example_dns = \<lparr>dns_provider = ''cloudflare'', dns_api_token = ''t'', dns_api_token_file = None, dns_zone_id = None\<rparr>"

definition example_acme :: "AcmeCertConfig list \<Rightarrow> TlsConfig" where
  "example_acme certs =
     \<lparr>tls_mode = Acme,
      tls_acme = Some \<lparr>acme_email = ''admin@example.com'', acme_staging = False, acme_storage = ''/var/lib/wicket'',
        acme_renew_before_days = 30, acme_certs = certs, acme_default_dns = Some example_dns,
        acme_dns_providers = []\<rparr>,
      tls_file = None\<rparr>"

definition example_route :: RouteConfig where
  "example_route =
     \<lparr>rc_name = Some ''app1'',
      rc_match_rules = \<lparr>rm_host = Some ''app1.example.com'', rm_path_prefix = Some ''/'', rm_path = None,
        rm_methods = [], rm_headers = []\<rparr>,
      rc_upstream = ''app1-backend'', rc_tls = Some (Simple Auto), rc_filters = None, rc_timeout = None\<rparr>"

definition example_config :: "AcmeCertConfig list \<Rightarrow> Config" where
  "example_config certs = Config_default
     \<lparr>cfg_upstreams := [(''app1-backend'', \<lparr>uc_backends = [''127.0.0.1:3000''], uc_strategy = RoundRobin,
        uc_health_check = None\<rparr>)],
      cfg_routes := [example_route], cfg_tls := Some (example_acme certs)\<rparr>"

lemma example_config_valid:
  "validate (example_config [\<lparr>acc_domains = [''x.io''], acc_dns = example_dns\<rparr>]) = Ok ()"
  by code_simp


text \<open>
  a configuration in ACME or mixed mode whose certificates all come from routes with
  automatic TLS is rejected, the documented multi-application example among them: the check
  asks for an explicit certificate entry although \<^verbatim>\<open>all_certs_with_providers\<close> would derive one
  from the route.
\<close>

theorem auto_tls_only_rejected:
  "(cfg_tls c = Some t \<longrightarrow> tls_mode t \<noteq> File \<longrightarrow> tls_acme t = Some a \<longrightarrow> acme_certs a = [] \<longrightarrow>
      validate c \<noteq> Ok ()) \<and>
   validate (example_config []) = Err AcmeRequiresCert \<and>
   all_certs_with_providers (the (tls_acme (example_acme [])))
     (collect_auto_tls_domains_with_providers (example_config [])) =
     [\<lparr>acc_domains = [''app1.example.com''], acc_dns = example_dns\<rparr>]"
proof (intro conjI impI)
  assume "cfg_tls c = Some t" "tls_mode t \<noteq> File" "tls_acme t = Some a" "acme_certs a = []"
  then have "\<not> config_wf c" unfolding config_wf_def tls_wf_def by auto
  then show "validate c \<noteq> Ok ()" by (simp add: validate_iff)
next
  show "validate (example_config []) = Err AcmeRequiresCert" by code_simp
  show "all_certs_with_providers (the (tls_acme (example_acme [])))
     (collect_auto_tls_domains_with_providers (example_config [])) =
     [\<lparr>acc_domains = [''app1.example.com''], acc_dns = example_dns\<rparr>]" by code_simp
qed

theorem auto_tls_only_rejected_witness:
  "validate (example_config []\<lparr>cfg_streams := []\<rparr>) \<noteq> Ok ()"
  using auto_tls_only_rejected [of "example_config []\<lparr>cfg_streams := []\<rparr>" "example_acme []" "the (tls_acme (example_acme []))"]
  by (simp add: example_config_def example_acme_def)

text \<open>
  The HTTP sockets to bind: the primary listen address first, then the additional ones,
  each exactly once and none lost.
\<close>

theorem http_listen_addrs_spec:
  "distinct (http_listen_addrs s) \<and> set (http_listen_addrs s) = insert (srv_listen s) (set (srv_http_listens s)) \<and>
   hd (http_listen_addrs s) = srv_listen s"
  using listen_addrs_loop_spec [of "[srv_listen s]" "{srv_listen s}" "srv_http_listens s"]
  by (auto simp: http_listen_addrs_def)

end
