(* ===== verification/Stream_Proxy.thy ===== *)
theory Stream_Proxy
  imports Sni Sni_Router Proxy_Protocol Stream_Upstream Wicket_Config
begin

text \<open>
  The stream proxy (\<^verbatim>\<open>crates/wicket-stream/src/proxy.rs\<close>): construction from configuration, hot
  reload, the accept loop with its connection limit and drain, and connection handling.

  Upstreams are shared objects (\<^verbatim>\<open>Arc<Upstream>\<close>) that connections keep using after a reload
  has replaced them in the proxy's table: they live in a heap, a list that only grows, and
  the table maps names to addresses. The steps of the accept loop, of every connection task
  and of a reload interleave in any order; what the network does (the bytes peeked, whether a
  connect succeeds or times out, how a copy ends) comes with the step.
\<close>

section \<open>State\<close>

type_synonym upstream_table = "(string, nat) hashmap"

record StreamProxy =
  sp_name :: string
  sp_router :: SniRouter
  sp_upstreams :: upstream_table
  sp_source_ip_pool :: "SourceIpPool option"
  sp_proxy_protocol :: "ProxyProtocolVersion option"
  sp_local_addr :: SocketAddr
  sp_connect_timeout :: u64
  sp_connection_semaphore :: "nat option"
  sp_drain_timeout :: u64

section \<open>Construction and reload\<close>

definition parse_backend_endpoints :: "string list \<Rightarrow> StreamError + StreamBackendAddr list" where
  "parse_backend_endpoints servers = try_map StreamBackendAddr_parse servers"

definition make_semaphore :: "u32 \<Rightarrow> nat option" where
  "make_semaphore max_connections = (if max_connections > 0 then Some (unat max_connections) else None)"

definition StreamProxy_new ::
  "string \<Rightarrow> SniRouter \<Rightarrow> upstream_table \<Rightarrow> SourceIpPool option \<Rightarrow> ProxyProtocolVersion option \<Rightarrow>
   SocketAddr \<Rightarrow> u64 \<Rightarrow> u32 \<Rightarrow> StreamProxy" where
  "StreamProxy_new name router table pool version local_addr connect_timeout max_connections =
     \<lparr>sp_name = name, sp_router = router, sp_upstreams = table, sp_source_ip_pool = pool,
      sp_proxy_protocol = version, sp_local_addr = local_addr, sp_connect_timeout = connect_timeout,
      sp_connection_semaphore = make_semaphore max_connections, sp_drain_timeout = 30\<rparr>"

text \<open>The loop that builds the upstreams, in \<^verbatim>\<open>from_config\<close> and in \<^verbatim>\<open>reload\<close>.\<close>

fun build_upstreams ::
  "u64 \<Rightarrow> StreamUpstreamConfig list \<Rightarrow> upstream_table \<Rightarrow> Upstream list \<Rightarrow>
   StreamError + upstream_table \<times> Upstream list" where
  "build_upstreams cooldown [] table heap = Ok (table, heap)"
| "build_upstreams cooldown (uc # ucs) table heap =
     and_then (parse_backend_endpoints (su_servers uc)) (\<lambda>servers.
     build_upstreams cooldown ucs (hm_insert (su_name uc) (length heap) table)
       (heap @ [with_cooldown (su_name uc) servers cooldown]))"

fun version_of_config :: "ProxyProtocolConfig \<Rightarrow> ProxyProtocolVersion option" where
  "version_of_config PPNone = None"
| "version_of_config PPV1 = Some V1"
| "version_of_config PPV2 = Some V2"

definition from_config :: "StreamConfig \<Rightarrow> Upstream list \<Rightarrow> StreamError + StreamProxy \<times> Upstream list" where
  "from_config config heap =
     (let router = SniRouter_new (st_sni_routes config) (st_default_upstream config) in
      and_then (build_upstreams (st_health_cooldown_secs config) (st_upstreams config) [] heap) (\<lambda>(table, heap').
      let pool = (if st_source_ips config = [] then None else SourceIpPool_new (st_source_ips config));
          version = version_of_config (st_proxy_protocol config) in
      and_then
        (case parse_socket_addr (st_listen config) of
           None \<Rightarrow> Err (ConfigError ''Invalid listen address: invalid socket address syntax'')
         | Some addr \<Rightarrow> Ok addr) (\<lambda>local_addr.
      Ok (\<lparr>sp_name = st_name config, sp_router = router, sp_upstreams = table, sp_source_ip_pool = pool,
           sp_proxy_protocol = version, sp_local_addr = local_addr,
           sp_connect_timeout = st_connect_timeout_ms config,
           sp_connection_semaphore = make_semaphore (st_max_connections config),
           sp_drain_timeout = st_drain_timeout_secs config\<rparr>, heap'))))"

text \<open>
  \<^verbatim>\<open>reload\<close> builds the new router and table first and then publishes them with two separate
  stores; \<^verbatim>\<open>reload_build\<close> is the fallible part.
\<close>

definition reload_build :: "StreamConfig \<Rightarrow> Upstream list \<Rightarrow> StreamError + SniRouter \<times> upstream_table \<times> Upstream list" where
  "reload_build config heap =
     (let router = SniRouter_new (st_sni_routes config) (st_default_upstream config) in
      and_then (build_upstreams (st_health_cooldown_secs config) (st_upstreams config) [] heap) (\<lambda>(table, heap').
      Ok (router, table, heap')))"

definition reload :: "StreamProxy \<Rightarrow> StreamConfig \<Rightarrow> Upstream list \<Rightarrow> (StreamError + unit) \<times> StreamProxy \<times> Upstream list" where
  "reload self config heap =
     (case reload_build config heap of
        Inl e \<Rightarrow> (Err e, self, heap)
      | Inr (router, table, heap') \<Rightarrow>
          (Ok (), self\<lparr>sp_router := router, sp_upstreams := table\<rparr>, heap'))"

section \<open>Connecting to a backend\<close>

definition connect_error :: "string \<Rightarrow> StreamBackendAddr \<Rightarrow> string \<Rightarrow> StreamError" where
  "connect_error kind endpoint e =
     ConnectionError (''failed to connect '' @ kind @ '' stream backend '' @
       quoted (StreamBackendAddr_to_string endpoint) @ '': '' @ e)"

text \<open>
  \<^verbatim>\<open>connect_tcp_backend\<close> takes the next source address from the pool, if there is one; the
  socket calls are an argument (source address, destination) that succeeds or fails.
\<close>

definition connect_tcp_backend ::
  "(IpAddr option \<Rightarrow> SocketAddr \<Rightarrow> string + unit) \<Rightarrow> StreamProxy \<Rightarrow> SocketAddr \<Rightarrow> (string + unit) \<times> StreamProxy" where
  "connect_tcp_backend tcp_connect self addr =
     (case sp_source_ip_pool self of
        Some pool \<Rightarrow>
          (case next_ip pool of
             (source_ip, pool') \<Rightarrow> (tcp_connect source_ip addr, self\<lparr>sp_source_ip_pool := Some pool'\<rparr>))
      | None \<Rightarrow> (tcp_connect None addr, self))"

definition connect_backend ::
  "(IpAddr option \<Rightarrow> SocketAddr \<Rightarrow> string + unit) \<Rightarrow> (string \<Rightarrow> string + unit) \<Rightarrow>
   StreamProxy \<Rightarrow> StreamBackendAddr \<Rightarrow> (StreamError + unit) \<times> StreamProxy" where
  "connect_backend tcp_connect unix_connect self endpoint =
     (case endpoint of
        Tcp addr \<Rightarrow>
          (case connect_tcp_backend tcp_connect self addr of
             (Inr _, self') \<Rightarrow> (Ok (), self')
           | (Inl e, self') \<Rightarrow> (Err (connect_error ''TCP'' endpoint (''IO error: '' @ e)), self'))
      | Unix path \<Rightarrow>
          (case unix_connect path of
             Inr _ \<Rightarrow> (Ok (), self)
           | Inl e \<Rightarrow> (Err (connect_error ''Unix'' endpoint e), self)))"

section \<open>Connection handling\<close>

datatype stream_metric =
  SNI_EXTRACTIONS string
| CONNECTION_ERRORS string
| CONNECTIONS_TOTAL string
| CONNECT_DURATION string
| CONNECTION_DURATION string
| CONNECTIONS_REJECTED
| PROXY_PATH string
| BYTES string nat
| CONFIG_RELOADS
| HEALTH health_metric

definition sni_metric :: "string option \<Rightarrow> u8 list \<Rightarrow> stream_metric" where
  "sni_metric sni peeked =
     (case sni of
        Some _ \<Rightarrow> SNI_EXTRACTIONS ''success''
      | None \<Rightarrow> SNI_EXTRACTIONS (if peeked \<noteq> [] \<and> hd peeked = 0x16 then ''failure'' else ''none''))"

text \<open>
  Steps 1 and 2 of \<^verbatim>\<open>handle_connection\<close>: the SNI of the bytes peeked (one peek of at most 4096
  bytes), the upstream's name and its object.
\<close>

definition route_connection ::
  "SniRouter \<Rightarrow> upstream_table \<Rightarrow> u8 list \<Rightarrow> (StreamError + string \<times> nat) \<times> stream_metric list" where
  "route_connection router table data =
     (let peeked = take 4096 data;
          sni = extract_sni peeked;
          ms = [sni_metric sni peeked]
      in case match_sni router sni of
           None \<Rightarrow> (Err (RoutingError ''No matching upstream''), ms @ [CONNECTION_ERRORS ''routing''])
         | Some upstream_name \<Rightarrow>
             (case hm_get table upstream_name of
                None \<Rightarrow>
                  (Err (RoutingError (''Unknown upstream: '' @ upstream_name)), ms @ [CONNECTION_ERRORS ''routing''])
              | Some upstream \<Rightarrow> (Ok (upstream_name, upstream), ms)))"

definition timeout_error :: "StreamProxy \<Rightarrow> StreamBackendAddr \<Rightarrow> StreamError" where
  "timeout_error self backend_addr =
     Io (transport backend_addr @ '' backend '' @ quoted (StreamBackendAddr_to_string backend_addr) @
         '' connect timed out after '' @ show_nat (unat (sp_connect_timeout self)) @ ''ms'')"

text \<open>How \<^verbatim>\<open>copy_bidirectional\<close> ends: the two byte counts, or an error.\<close>

datatype copy_outcome = Copied nat nat | CopyFailed string

fun copy_userspace :: "copy_outcome \<Rightarrow> (StreamError + unit) \<times> stream_metric list" where
  "copy_userspace (Copied client_to_backend backend_to_client) =
     (Ok (), [BYTES ''rx'' client_to_backend, BYTES ''tx'' backend_to_client])"
| "copy_userspace (CopyFailed e) = (Ok (), [CONNECTION_ERRORS ''transfer''])"

section \<open>The running proxy\<close>

text \<open>
  A connection task: spawned by the accept loop, then through the points of
  \<^verbatim>\<open>handle_connection\<close> where it waits or touches shared state. \<^verbatim>\<open>Returned\<close> is the task after
  \<^verbatim>\<open>handle_connection\<close>, \<^verbatim>\<open>Gone\<close> the finished task, \<^verbatim>\<open>Panicked\<close> one that died.
\<close>

datatype conn_phase =
  Spawned
| HasRouter SniRouter
| HasTables SniRouter upstream_table
| Connecting string nat StreamBackendAddr
| Copying string "u8 list"
| Returned "StreamError + unit"
| Gone
| Panicked

datatype run_phase = Accepting | Draining | Finished "StreamError + unit"

record conn =
  c_client :: SocketAddr
  c_phase :: conn_phase

record sys =
  s_proxy :: StreamProxy
  s_heap :: "Upstream list"
  s_conns :: "conn list"
  s_active_tasks :: nat
  s_gauge :: nat
  s_run :: run_phase
  s_pending :: "upstream_table option"
  s_metrics :: "stream_metric list"

datatype event =
  EvAccept SocketAddr
| EvAcceptError string
| EvLoadRouter nat
| EvLoadUpstreams nat
| EvPeek nat "string + u8 list" "nat \<Rightarrow> u64"
| EvConnect nat "IpAddr option \<Rightarrow> SocketAddr \<Rightarrow> string + unit" "string \<Rightarrow> string + unit" bool u64 "string + unit"
| EvCopied nat copy_outcome
| EvTaskEnd nat
| EvReload StreamConfig
| EvReloadStore
| EvShutdown
| EvDrainTick bool

definition set_phase :: "sys \<Rightarrow> nat \<Rightarrow> conn_phase \<Rightarrow> sys" where
  "set_phase s i p = s\<lparr>s_conns := (s_conns s)[i := (s_conns s ! i)\<lparr>c_phase := p\<rparr>]\<rparr>"

definition log_metrics :: "stream_metric list \<Rightarrow> sys \<Rightarrow> sys" where
  "log_metrics ms s = s\<lparr>s_metrics := s_metrics s @ ms\<rparr>"

text \<open>
  \<^verbatim>\<open>ConnectionGuard\<close>: the gauge goes down on every return path, and the duration is recorded if
  the connection had been established.
\<close>

definition conn_return :: "sys \<Rightarrow> nat \<Rightarrow> string option \<Rightarrow> StreamError + unit \<Rightarrow> sys" where
  "conn_return s i guard_upstream r =
     set_phase
       (log_metrics (case guard_upstream of Some u \<Rightarrow> [CONNECTION_DURATION u] | None \<Rightarrow> [])
          (s\<lparr>s_gauge := s_gauge s - 1\<rparr>)) i (Returned r)"

text \<open>
  A panic unwinds the task: the guard and the permit are dropped, but the decrement of
  \<^verbatim>\<open>active_tasks\<close> after \<^verbatim>\<open>handle_connection\<close> is not reached.
\<close>

definition release_permit :: "sys \<Rightarrow> sys" where
  "release_permit s =
     s\<lparr>s_proxy := (s_proxy s)\<lparr>sp_connection_semaphore := map_option Suc (sp_connection_semaphore (s_proxy s))\<rparr>\<rparr>"

definition conn_panic :: "sys \<Rightarrow> nat \<Rightarrow> sys" where
  "conn_panic s i = set_phase (release_permit (s\<lparr>s_gauge := s_gauge s - 1\<rparr>)) i Panicked"

definition accept :: "sys \<Rightarrow> SocketAddr \<Rightarrow> sys" where
  "accept s client_addr =
     (let spawn = (\<lambda>s. s\<lparr>s_active_tasks := s_active_tasks s + 1,
                         s_conns := s_conns s @ [\<lparr>c_client = client_addr, c_phase = Spawned\<rparr>]\<rparr>) in
      case sp_connection_semaphore (s_proxy s) of
        None \<Rightarrow> spawn s
      | Some 0 \<Rightarrow> log_metrics [CONNECTIONS_REJECTED] s
      | Some (Suc n) \<Rightarrow>
          spawn (s\<lparr>s_proxy := (s_proxy s)\<lparr>sp_connection_semaphore := Some n\<rparr>\<rparr>))"

definition task_end :: "sys \<Rightarrow> nat \<Rightarrow> sys" where
  "task_end s i =
     set_phase (release_permit (s\<lparr>s_active_tasks := s_active_tasks s - 1\<rparr>)) i Gone"

definition peek_step :: "sys \<Rightarrow> nat \<Rightarrow> SniRouter \<Rightarrow> upstream_table \<Rightarrow> string + u8 list \<Rightarrow> (nat \<Rightarrow> u64) \<Rightarrow> sys" where
  "peek_step s i router table peek clock =
     (case peek of
        Inl e \<Rightarrow> conn_return s i None (Err (Io e))
      | Inr data \<Rightarrow>
          (case route_connection router table data of
             (Inl e, ms) \<Rightarrow> conn_return (log_metrics ms s) i None (Err e)
           | (Inr (upstream_name, upstream), ms) \<Rightarrow>
               if upstream \<ge> length (s_heap s) then conn_panic (log_metrics ms s) i
               else
                 (case next_server (s_heap s ! upstream) clock of
                    (None, u') \<Rightarrow> conn_panic (log_metrics ms (s\<lparr>s_heap := (s_heap s)[upstream := u']\<rparr>)) i
                  | (Some backend_addr, u') \<Rightarrow>
                      set_phase (log_metrics ms (s\<lparr>s_heap := (s_heap s)[upstream := u']\<rparr>)) i
                        (Connecting upstream_name upstream backend_addr))))"

definition connect_step ::
  "sys \<Rightarrow> nat \<Rightarrow> string \<Rightarrow> nat \<Rightarrow> StreamBackendAddr \<Rightarrow> (IpAddr option \<Rightarrow> SocketAddr \<Rightarrow> string + unit) \<Rightarrow>
   (string \<Rightarrow> string + unit) \<Rightarrow> bool \<Rightarrow> u64 \<Rightarrow> string + unit \<Rightarrow> sys" where
  "connect_step s i upstream_name upstream backend_addr tcp_connect unix_connect elapsed now write_header =
     (case connect_backend tcp_connect unix_connect (s_proxy s) backend_addr of
        (connected, proxy') \<Rightarrow>
          let s = s\<lparr>s_proxy := proxy'\<rparr>;
              fail = (\<lambda>kind err.
                case report_failure (s_heap s ! upstream) backend_addr now of
                  (u', hm) \<Rightarrow>
                    conn_return
                      (log_metrics (map HEALTH hm @ [CONNECTION_ERRORS kind])
                         (s\<lparr>s_heap := (s_heap s)[upstream := u']\<rparr>)) i None (Err err))
          in if elapsed then fail ''connect_timeout'' (timeout_error proxy' backend_addr)
             else
               (case connected of
                  Inl e \<Rightarrow> fail ''connect'' e
                | Inr _ \<Rightarrow>
                    (case report_success (s_heap s ! upstream) backend_addr of
                       (u', hm) \<Rightarrow>
                         let s = log_metrics
                               (map HEALTH hm @ [CONNECT_DURATION upstream_name, CONNECTIONS_TOTAL upstream_name])
                               (s\<lparr>s_heap := (s_heap s)[upstream := u']\<rparr>)
                         in case sp_proxy_protocol proxy' of
                              None \<Rightarrow> set_phase (log_metrics [PROXY_PATH ''userspace''] s) i (Copying upstream_name [])
                            | Some version \<Rightarrow>
                                (case write_header of
                                   Inl e \<Rightarrow> conn_return s i (Some upstream_name) (Err (Io e))
                                 | Inr _ \<Rightarrow>
                                     set_phase (log_metrics [PROXY_PATH ''userspace''] s) i
                                       (Copying upstream_name
                                          (encode version (c_client (s_conns s ! i)) (sp_local_addr proxy')))))))"

definition copied_step :: "sys \<Rightarrow> nat \<Rightarrow> string \<Rightarrow> copy_outcome \<Rightarrow> sys" where
  "copied_step s i upstream_name outcome =
     (case copy_userspace outcome of
        (r, ms) \<Rightarrow> conn_return (log_metrics ms s) i (Some upstream_name) r)"

definition reload_step :: "sys \<Rightarrow> StreamConfig \<Rightarrow> sys" where
  "reload_step s config =
     (if s_pending s \<noteq> None then s
      else
        (case reload_build config (s_heap s) of
           Inl e \<Rightarrow> s
         | Inr (router, table, heap') \<Rightarrow>
             s\<lparr>s_heap := heap', s_proxy := (s_proxy s)\<lparr>sp_router := router\<rparr>, s_pending := Some table\<rparr>))"

definition reload_store_step :: "sys \<Rightarrow> sys" where
  "reload_store_step s =
     (case s_pending s of
        None \<Rightarrow> s
      | Some table \<Rightarrow>
          log_metrics [CONFIG_RELOADS]
            (s\<lparr>s_proxy := (s_proxy s)\<lparr>sp_upstreams := table\<rparr>, s_pending := None\<rparr>))"

definition drain_tick :: "sys \<Rightarrow> bool \<Rightarrow> sys" where
  "drain_tick s timed_out =
     (if s_active_tasks s = 0 then s\<lparr>s_run := Finished (Ok ())\<rparr>
      else if timed_out then s\<lparr>s_run := Finished (Ok ())\<rparr>
      else s)"

text \<open>The phase of a connection that exists, \<^verbatim>\<open>Gone\<close> otherwise.\<close>

definition phase_of :: "sys \<Rightarrow> nat \<Rightarrow> conn_phase" where
  "phase_of s i = (if i < length (s_conns s) then c_phase (s_conns s ! i) else Gone)"

fun sys_step :: "sys \<Rightarrow> event \<Rightarrow> sys" where
  "sys_step s (EvAccept client_addr) = (if s_run s = Accepting then accept s client_addr else s)"
| "sys_step s (EvAcceptError e) = (if s_run s = Accepting then s\<lparr>s_run := Finished (Err (Io e))\<rparr> else s)"
| "sys_step s (EvLoadRouter i) =
     (case phase_of s i of Spawned \<Rightarrow> set_phase s i (HasRouter (sp_router (s_proxy s))) | _ \<Rightarrow> s)"
| "sys_step s (EvLoadUpstreams i) =
     (case phase_of s i of
        HasRouter router \<Rightarrow>
          set_phase (s\<lparr>s_gauge := s_gauge s + 1\<rparr>) i (HasTables router (sp_upstreams (s_proxy s)))
      | _ \<Rightarrow> s)"
| "sys_step s (EvPeek i peek clock) =
     (case phase_of s i of HasTables router table \<Rightarrow> peek_step s i router table peek clock | _ \<Rightarrow> s)"
| "sys_step s (EvConnect i tcp unx elapsed now write_header) =
     (case phase_of s i of
        Connecting name upstream backend \<Rightarrow> connect_step s i name upstream backend tcp unx elapsed now write_header
      | _ \<Rightarrow> s)"
| "sys_step s (EvCopied i outcome) =
     (case phase_of s i of Copying name sent \<Rightarrow> copied_step s i name outcome | _ \<Rightarrow> s)"
| "sys_step s (EvTaskEnd i) =
     (case phase_of s i of Returned r \<Rightarrow> task_end s i | _ \<Rightarrow> s)"
| "sys_step s (EvReload config) = reload_step s config"
| "sys_step s EvReloadStore = reload_store_step s"
| "sys_step s EvShutdown = (if s_run s = Accepting then s\<lparr>s_run := Draining\<rparr> else s)"
| "sys_step s (EvDrainTick timed_out) = (if s_run s = Draining then drain_tick s timed_out else s)"

definition sys_start :: "StreamProxy \<Rightarrow> Upstream list \<Rightarrow> sys" where
  "sys_start proxy heap =
     \<lparr>s_proxy = proxy, s_heap = heap, s_conns = [], s_active_tasks = 0, s_gauge = 0, s_run = Accepting,
      s_pending = None, s_metrics = []\<rparr>"

section \<open>Building upstreams\<close>

definition table_ok :: "nat \<Rightarrow> upstream_table \<Rightarrow> bool" where
  "table_ok n table = (\<forall>k a. hm_get table k = Some a \<longrightarrow> a < n)"

lemma table_ok_get: "table_ok n t \<Longrightarrow> hm_get t k = Some a \<Longrightarrow> a < n"
  by (simp add: table_ok_def)

lemma table_ok_mono: "table_ok n t \<Longrightarrow> n \<le> m \<Longrightarrow> table_ok m t"
  by (force simp: table_ok_def)

lemma table_ok_insert: "table_ok n t \<Longrightarrow> a < n \<Longrightarrow> table_ok n (hm_insert k a t)"
  by (auto simp: table_ok_def hm_simps)

lemma parse_backend_endpoints_valid:
  "parse_backend_endpoints ss = Ok bs \<Longrightarrow> list_all valid_backend bs \<and> length bs = length ss"
  unfolding parse_backend_endpoints_def
  by (auto simp: list_all_iff dest: try_map_length try_map_set intro: parse_valid)

lemma build_upstreams_spec:
  assumes "build_upstreams cooldown ucs table heap = Ok (table', heap')"
    and "\<forall>uc\<in>set ucs. su_servers uc \<noteq> []" "table_ok (length heap) table"
  shows "table_ok (length heap') table' \<and>
    dom (hm_get table') = dom (hm_get table) \<union> su_name ` set ucs \<and>
    (\<exists>fresh. heap' = heap @ fresh \<and> length fresh = length ucs \<and>
       (\<forall>u\<in>set fresh. wf_upstream u \<and> list_all bh_healthy (up_health u) \<and> up_counter u = 0 \<and> up_cooldown u = cooldown))"
  using assms
proof (induction ucs arbitrary: table heap)
  case (Cons uc ucs)
  from Cons.prems(1) obtain servers where p: "parse_backend_endpoints (su_servers uc) = Ok servers"
    and rest: "build_upstreams cooldown ucs (hm_insert (su_name uc) (length heap) table)
      (heap @ [with_cooldown (su_name uc) servers cooldown]) = Ok (table', heap')"
    by (auto simp: and_then_Ok_iff)
  let ?u = "with_cooldown (su_name uc) servers cooldown"
  have "servers \<noteq> []" using parse_backend_endpoints_valid [OF p] Cons.prems(2) by auto
  then have u: "wf_upstream ?u" "list_all bh_healthy (up_health ?u)" "up_counter ?u = 0" "up_cooldown ?u = cooldown"
    using parse_backend_endpoints_valid [OF p]
    by (auto simp: with_cooldown_wf) (simp_all add: with_cooldown_def BackendHealth_new_def list_all_iff)
  have "table_ok (length (heap @ [?u])) (hm_insert (su_name uc) (length heap) table)"
    using table_ok_insert [OF table_ok_mono [OF Cons.prems(3), of "Suc (length heap)"]] by simp
  note IH = Cons.IH [OF rest _ this]
  with Cons.prems(2) obtain fresh where t: "table_ok (length heap') table'"
    "dom (hm_get table') = dom (hm_get (hm_insert (su_name uc) (length heap) table)) \<union> su_name ` set ucs"
    and f: "heap' = (heap @ [?u]) @ fresh" "length fresh = length ucs"
      "\<forall>u\<in>set fresh. wf_upstream u \<and> list_all bh_healthy (up_health u) \<and> up_counter u = 0 \<and> up_cooldown u = cooldown"
    by auto
  from f u have "heap' = heap @ ?u # fresh \<and> length (?u # fresh) = length (uc # ucs) \<and>
      (\<forall>u\<in>set (?u # fresh). wf_upstream u \<and> list_all bh_healthy (up_health u) \<and> up_counter u = 0 \<and> up_cooldown u = cooldown)"
    by simp
  moreover have "dom (hm_get table') = dom (hm_get table) \<union> su_name ` set (uc # ucs)"
    using t(2) by (auto simp: hm_simps)
  ultimately show ?case using t(1) by blast
qed simp

text \<open>The upstream names a router can answer with.\<close>

definition router_targets :: "SniRouter \<Rightarrow> string set" where
  "router_targets r = snd ` set (routes r) \<union> set_option (default_upstream r)"

lemma match_sni_target: "match_sni r sni = Some u \<Longrightarrow> u \<in> router_targets r"
  by (auto simp: match_sni_def router_targets_def image_iff split: option.splits dest!: sni.lookup_sound) force+

lemma SniRouter_new_targets: "router_targets (SniRouter_new m d) = snd ` set m \<union> set_option d"
proof -
  have "snd ` set (routes (SniRouter_new m d)) = snd ` set m"
    unfolding SniRouter_new_routes by (force simp: image_iff)
  then show ?thesis by (simp add: router_targets_def SniRouter_new_def)
qed

lemma stream_wf_targets:
  assumes "stream_wf c"
  shows "router_targets (SniRouter_new (st_sni_routes c) (st_default_upstream c)) \<subseteq> su_name ` set (st_upstreams c)"
  using assms unfolding SniRouter_new_targets stream_wf_def by auto

lemma reload_build_spec:
  assumes "reload_build c heap = Ok (router, table, heap')" "stream_wf c"
  shows "table_ok (length heap') table" "router_targets router \<subseteq> dom (hm_get table)"
    "\<exists>fresh. heap' = heap @ fresh \<and> (\<forall>u\<in>set fresh. wf_upstream u \<and> list_all bh_healthy (up_health u) \<and>
        up_counter u = 0 \<and> up_cooldown u = st_health_cooldown_secs c)"
proof -
  from assms(1) have b: "build_upstreams (st_health_cooldown_secs c) (st_upstreams c) [] heap = Ok (table, heap')"
    and r: "router = SniRouter_new (st_sni_routes c) (st_default_upstream c)"
    by (auto simp: reload_build_def Let_def and_then_Ok_iff)
  have "\<forall>uc\<in>set (st_upstreams c). su_servers uc \<noteq> []" using assms(2) by (simp add: stream_wf_def)
  note spec = build_upstreams_spec [OF b this]
  then show "table_ok (length heap') table" "\<exists>fresh. heap' = heap @ fresh \<and>
      (\<forall>u\<in>set fresh. wf_upstream u \<and> list_all bh_healthy (up_health u) \<and>
        up_counter u = 0 \<and> up_cooldown u = st_health_cooldown_secs c)"
    by (auto simp: table_ok_def)
  show "router_targets router \<subseteq> dom (hm_get table)"
    unfolding r using stream_wf_targets [OF assms(2)] spec by (auto simp: table_ok_def)
qed

section \<open>The invariant of the running proxy\<close>

definition count_phases :: "(conn_phase \<Rightarrow> bool) \<Rightarrow> sys \<Rightarrow> nat" where
  "count_phases P s = length (filter (\<lambda>c. P (c_phase c)) (s_conns s))"

text \<open>Tasks that hold a permit, tasks not yet ended, and connections the gauge counts.\<close>

definition holds_permit :: "conn_phase \<Rightarrow> bool" where
  "holds_permit p = (p \<noteq> Gone \<and> p \<noteq> Panicked)"

fun guarded :: "conn_phase \<Rightarrow> bool" where
  "guarded (HasTables _ _) = True"
| "guarded (Connecting _ _ _) = True"
| "guarded (Copying _ _) = True"
| "guarded _ = False"

fun permits_add_up :: "nat \<Rightarrow> nat option \<Rightarrow> nat \<Rightarrow> bool" where
  "permits_add_up limit None held = (limit = 0)"
| "permits_add_up limit (Some available) held = (limit > 0 \<and> available + held = limit)"

definition permits_ok :: "nat \<Rightarrow> sys \<Rightarrow> bool" where
  "permits_ok limit s =
     permits_add_up limit (sp_connection_semaphore (s_proxy s)) (count_phases holds_permit s)"

definition counts_inv :: "nat \<Rightarrow> sys \<Rightarrow> bool" where
  "counts_inv limit s =
     (s_active_tasks s = count_phases (\<lambda>p. p \<noteq> Gone) s \<and> s_gauge s = count_phases guarded s \<and> permits_ok limit s)"

definition header_sent :: "StreamProxy \<Rightarrow> SocketAddr \<Rightarrow> u8 list" where
  "header_sent proxy client =
     (case sp_proxy_protocol proxy of None \<Rightarrow> [] | Some v \<Rightarrow> encode v client (sp_local_addr proxy))"

definition conn_ok :: "sys \<Rightarrow> conn \<Rightarrow> bool" where
  "conn_ok s c =
     (case c_phase c of
        HasTables _ table \<Rightarrow> table_ok (length (s_heap s)) table
      | Connecting _ u b \<Rightarrow> u < length (s_heap s) \<and> b \<in> set (up_servers (s_heap s ! u))
      | Copying _ sent \<Rightarrow> sent = header_sent (s_proxy s) (c_client c)
      | Panicked \<Rightarrow> False
      | _ \<Rightarrow> True)"

definition current_table :: "sys \<Rightarrow> upstream_table" where
  "current_table s = unwrap_or (s_pending s) (sp_upstreams (s_proxy s))"

definition data_inv :: "sys \<Rightarrow> bool" where
  "data_inv s =
     (list_all wf_upstream (s_heap s) \<and> table_ok (length (s_heap s)) (sp_upstreams (s_proxy s)) \<and>
      table_ok (length (s_heap s)) (current_table s) \<and>
      router_targets (sp_router (s_proxy s)) \<subseteq> dom (hm_get (current_table s)) \<and>
      list_all (conn_ok s) (s_conns s))"

definition sys_inv :: "nat \<Rightarrow> sys \<Rightarrow> bool" where
  "sys_inv limit s = (counts_inv limit s \<and> data_inv s)"

text \<open>Reloads are given validated configurations.\<close>

fun event_ok :: "event \<Rightarrow> bool" where
  "event_ok (EvReload c) = stream_wf c"
| "event_ok _ = True"

lemma log_metrics_inv: "sys_inv limit (log_metrics m s) = sys_inv limit s"
proof -
  have "count_phases P (log_metrics m s) = count_phases P s" for P
    by (simp add: count_phases_def log_metrics_def)
  moreover have "conn_ok (log_metrics m s) = conn_ok s"
    by (rule ext) (simp add: conn_ok_def log_metrics_def split: conn_phase.split)
  ultimately show ?thesis
    by (simp add: sys_inv_def counts_inv_def permits_ok_def data_inv_def current_table_def)
       (simp add: log_metrics_def)
qed

lemma set_phase_simps [simp]:
  "s_proxy (set_phase s i p) = s_proxy s" "s_heap (set_phase s i p) = s_heap s"
  "s_active_tasks (set_phase s i p) = s_active_tasks s" "s_gauge (set_phase s i p) = s_gauge s"
  "s_pending (set_phase s i p) = s_pending s" "s_run (set_phase s i p) = s_run s"
  "length (s_conns (set_phase s i p)) = length (s_conns s)"
  by (simp_all add: set_phase_def)

lemma log_metrics_simps [simp]:
  "s_proxy (log_metrics m s) = s_proxy s" "s_heap (log_metrics m s) = s_heap s"
  "s_active_tasks (log_metrics m s) = s_active_tasks s" "s_gauge (log_metrics m s) = s_gauge s"
  "s_pending (log_metrics m s) = s_pending s" "s_run (log_metrics m s) = s_run s"
  "s_conns (log_metrics m s) = s_conns s"
  by (simp_all add: log_metrics_def)

lemma log_metrics_append: "log_metrics a (log_metrics b s) = log_metrics (b @ a) s"
  by (simp add: log_metrics_def)

lemma length_filter_update:
  "i < length xs \<Longrightarrow>
     length (filter P (xs[i := y])) + of_bool (P (xs ! i)) = length (filter P xs) + of_bool (P y)"
proof (induction xs arbitrary: i)
  case (Cons x xs)
  then show ?case by (cases i) (auto simp: of_bool_def split: if_splits)
qed simp

lemma count_set_phase:
  "i < length (s_conns s) \<Longrightarrow>
     count_phases P (set_phase s i p) + of_bool (P (phase_of s i)) = count_phases P s + of_bool (P p)"
  unfolding count_phases_def set_phase_def phase_of_def
  using length_filter_update [of i "s_conns s" "\<lambda>c. P (c_phase c)"] by simp

text \<open>
  A step of connection \<^verbatim>\<open>i\<close> from phase \<^verbatim>\<open>p\<close> to \<^verbatim>\<open>q\<close> that changes the counters by what the phases say
  keeps the counts.
\<close>

definition moves :: "nat \<Rightarrow> conn_phase \<Rightarrow> sys \<Rightarrow> sys \<Rightarrow> bool" where
  "moves i q s t =
     (i < length (s_conns s) \<and> s_conns t = (s_conns s)[i := (s_conns s ! i)\<lparr>c_phase := q\<rparr>] \<and>
      (let p = phase_of s i in
       s_active_tasks t + of_bool (p \<noteq> Gone) = s_active_tasks s + of_bool (q \<noteq> Gone) \<and>
       s_gauge t + of_bool (guarded p) = s_gauge s + of_bool (guarded q) \<and>
       (case (sp_connection_semaphore (s_proxy s), sp_connection_semaphore (s_proxy t)) of
          (None, None) \<Rightarrow> True
        | (Some m, Some n) \<Rightarrow> n + of_bool (holds_permit q) = m + of_bool (holds_permit p)
        | _ \<Rightarrow> False)))"

lemma moves_counts:
  assumes "counts_inv limit s" "moves i q s t"
  shows "counts_inv limit t"
proof -
  have i: "i < length (s_conns s)" and c: "s_conns t = s_conns (set_phase s i q)"
    using assms(2) by (simp_all add: moves_def set_phase_def)
  have eq: "count_phases P t = count_phases P (set_phase s i q)" for P
    using c by (simp add: count_phases_def)
  note cp = count_set_phase [OF i, of _ q, folded eq]
  show ?thesis
    using assms cp [of "\<lambda>p. p \<noteq> Gone"] cp [of guarded] cp [of holds_permit]
    by (auto simp: counts_inv_def moves_def Let_def permits_ok_def split: option.splits)
qed

lemma counts_pos:
  assumes "counts_inv limit s" "i < length (s_conns s)"
  shows "guarded (phase_of s i) \<Longrightarrow> 0 < s_gauge s" "phase_of s i \<noteq> Gone \<Longrightarrow> 0 < s_active_tasks s"
proof -
  have mem: "s_conns s ! i \<in> set (filter (\<lambda>c. P (c_phase c)) (s_conns s))" if "P (phase_of s i)" for P
    using that assms(2) by (simp add: phase_of_def)
  have "0 < count_phases P s" if "P (phase_of s i)" for P
    unfolding count_phases_def using mem [of P] that by (intro length_pos_if_in_set) simp
  then show "guarded (phase_of s i) \<Longrightarrow> 0 < s_gauge s" "phase_of s i \<noteq> Gone \<Longrightarrow> 0 < s_active_tasks s"
    using assms(1) by (simp_all add: counts_inv_def)
qed

text \<open>Heap and proxy seen by the other connections: objects stay where they are and keep their servers.\<close>

definition frame :: "sys \<Rightarrow> sys \<Rightarrow> bool" where
  "frame s t =
     (length (s_heap s) \<le> length (s_heap t) \<and> list_all wf_upstream (s_heap t) \<and>
      (\<forall>a<length (s_heap s). up_servers (s_heap t ! a) = up_servers (s_heap s ! a)) \<and>
      sp_proxy_protocol (s_proxy t) = sp_proxy_protocol (s_proxy s) \<and>
      sp_local_addr (s_proxy t) = sp_local_addr (s_proxy s))"

definition same_tables :: "sys \<Rightarrow> sys \<Rightarrow> bool" where
  "same_tables s t =
     (sp_router (s_proxy t) = sp_router (s_proxy s) \<and> sp_upstreams (s_proxy t) = sp_upstreams (s_proxy s) \<and>
      s_pending t = s_pending s)"

lemma conn_ok_frame: "conn_ok s c \<Longrightarrow> frame s t \<Longrightarrow> conn_ok t c"
  by (auto simp: conn_ok_def frame_def header_sent_def split: conn_phase.splits option.splits intro: table_ok_mono)

lemma data_inv_conns:
  assumes "data_inv s" "frame s t" "same_tables s t"
    and "set (s_conns t) \<subseteq> insert c (set (s_conns s))" "conn_ok t c"
  shows "data_inv t"
  using assms conn_ok_frame [OF _ assms(2)]
  by (auto simp: data_inv_def same_tables_def current_table_def list_all_iff frame_def intro: table_ok_mono)

lemma step_conn:
  assumes "sys_inv limit s" "moves i q s t" "frame s t" "same_tables s t"
    and "conn_ok t ((s_conns s ! i)\<lparr>c_phase := q\<rparr>)"
  shows "sys_inv limit t"
  using assms moves_counts data_inv_conns [of s t "(s_conns s ! i)\<lparr>c_phase := q\<rparr>"]
    set_update_subset_insert [of "s_conns s" i "(s_conns s ! i)\<lparr>c_phase := q\<rparr>"]
  by (auto simp: sys_inv_def moves_def)

lemma frame_refl: "data_inv s \<Longrightarrow> s_heap t = s_heap s \<Longrightarrow>
    sp_proxy_protocol (s_proxy t) = sp_proxy_protocol (s_proxy s) \<Longrightarrow>
    sp_local_addr (s_proxy t) = sp_local_addr (s_proxy s) \<Longrightarrow> frame s t"
  by (simp add: frame_def data_inv_def)

lemma frame_update:
  assumes "data_inv s" "a < length (s_heap s)" "s_heap t = (s_heap s)[a := u]" "wf_upstream u"
    and "up_servers u = up_servers (s_heap s ! a)"
    and "sp_proxy_protocol (s_proxy t) = sp_proxy_protocol (s_proxy s)" "sp_local_addr (s_proxy t) = sp_local_addr (s_proxy s)"
  shows "frame s t"
  using assms set_update_subset_insert [of "s_heap s" a u]
  by (auto simp: frame_def data_inv_def list_all_iff nth_list_update)

lemma phase_of_bound: "phase_of s i \<noteq> Gone \<Longrightarrow> i < length (s_conns s)"
  by (simp add: phase_of_def split: if_splits)

lemma conn_ok_phase: "data_inv s \<Longrightarrow> phase_of s i \<noteq> Gone \<Longrightarrow> conn_ok s (s_conns s ! i)"
  using phase_of_bound [of s i] by (simp add: data_inv_def list_all_length)

lemma next_server_total:
  assumes "wf_upstream u"
  shows "\<exists>b\<in>set (up_servers u). fst (next_server u clock) = Some b"
proof -
  have ne: "up_servers u \<noteq> []" and len: "length (up_health u) = length (up_servers u)"
    using assms wf_upstream_length by (auto simp: wf_upstream_def)
  obtain r where r: "eligible_loop u clock (up_counter u) [0..<length (up_servers u)] = Some r"
    using eligible_loop_total [OF len ne] by blast
  show ?thesis
  proof (cases r)
    case None
    with r ne show ?thesis by (simp add: next_server_def Let_def)
  next
    case (Some b)
    with r have "eligible_loop u clock (up_counter u) [0..<length (up_servers u)] = Some (Some b)" by simp
    from eligible_loop_Some [OF this] have "b \<in> set (up_servers u)"
      using len by (auto simp: Let_def)
    with r Some show ?thesis by (simp add: next_server_def Let_def)
  qed
qed

lemma conn_return_inv:
  assumes "sys_inv limit s" "guarded (phase_of s i)"
    and "s_conns s' = s_conns s" "s_active_tasks s' = s_active_tasks s" "s_gauge s' = s_gauge s"
    and "frame s s'" "same_tables s s'"
    and "sp_connection_semaphore (s_proxy s') = sp_connection_semaphore (s_proxy s)"
  shows "sys_inv limit (conn_return s' i g r)"
proof (rule step_conn [OF assms(1), where q = "Returned r"])
  have ng: "phase_of s i \<noteq> Gone" "phase_of s i \<noteq> Panicked" using assms(2) by auto
  note i = phase_of_bound [OF ng(1)]
  have "counts_inv limit s" using assms(1) by (simp add: sys_inv_def)
  then have "0 < s_gauge s" using counts_pos(1) [OF _ i assms(2)] by blast
  then show "moves i (Returned r) s (conn_return s' i g r)"
    using assms ng i by (auto simp: moves_def conn_return_def set_phase_def log_metrics_def Let_def holds_permit_def
        split: option.splits)
  show "frame s (conn_return s' i g r)" "same_tables s (conn_return s' i g r)"
    using assms(6,7) by (simp_all add: frame_def same_tables_def conn_return_def)
  show "conn_ok (conn_return s' i g r) ((s_conns s ! i)\<lparr>c_phase := Returned r\<rparr>)"
    by (simp add: conn_ok_def)
qed

lemma peek_step_inv:
  assumes inv: "sys_inv limit s" and ph: "phase_of s i = HasTables router table"
  shows "sys_inv limit (peek_step s i router table peek clock)"
proof (cases peek)
  case (Inl e)
  have "data_inv s" using inv by (simp add: sys_inv_def)
  with Inl inv ph show ?thesis
    by (auto simp: peek_step_def same_tables_def intro!: conn_return_inv frame_refl)
next
  case (Inr data)
  have d: "data_inv s" using inv by (simp add: sys_inv_def)
  have "phase_of s i \<noteq> Gone" using ph by simp
  note i = phase_of_bound [OF this]
  have tok: "table_ok (length (s_heap s)) table"
    using conn_ok_phase [OF d, of i] ph i by (simp add: conn_ok_def phase_of_def)
  obtain r ms where rc: "route_connection router table data = (r, ms)" by fastforce
  show ?thesis
  proof (cases r)
    case (Inl e)
    with Inr rc inv ph d show ?thesis
      by (auto simp: peek_step_def same_tables_def intro!: conn_return_inv frame_refl)
  next
    case (Inr v)
    then obtain n a where v: "r = Ok (n, a)" by (cases v) auto
    with rc have "hm_get table n = Some a"
      by (auto simp: route_connection_def Let_def split: option.splits)
    with tok have a: "a < length (s_heap s)" by (rule table_ok_get)
    then have wf: "wf_upstream (s_heap s ! a)" using d by (simp add: data_inv_def list_all_length)
    obtain b where b: "b \<in> set (up_servers (s_heap s ! a))" "fst (next_server (s_heap s ! a) clock) = Some b"
      using next_server_total [OF wf] by blast
    define u where "u = snd (next_server (s_heap s ! a) clock)"
    have u: "wf_upstream u" "up_servers u = up_servers (s_heap s ! a)"
      unfolding u_def using next_server_wf [OF wf] by (simp_all add: next_server_state)
    have t: "peek_step s i router table peek clock =
        set_phase (log_metrics ms (s\<lparr>s_heap := (s_heap s)[a := u]\<rparr>)) i (Connecting n a b)"
      using \<open>peek = Inr data\<close> rc v a b(2)
      by (cases "next_server (s_heap s ! a) clock") (simp add: peek_step_def u_def)
    show ?thesis unfolding t
    proof (rule step_conn [OF inv, where q = "Connecting n a b"])
      let ?t = "set_phase (log_metrics ms (s\<lparr>s_heap := (s_heap s)[a := u]\<rparr>)) i (Connecting n a b)"
      show "moves i (Connecting n a b) s ?t"
        using i ph by (auto simp: moves_def set_phase_def log_metrics_def Let_def holds_permit_def split: option.splits)
      show "frame s ?t" by (rule frame_update [OF d a _ u]) simp_all
      show "same_tables s ?t" by (simp add: same_tables_def)
      show "conn_ok ?t ((s_conns s ! i)\<lparr>c_phase := Connecting n a b\<rparr>)"
        using a b(1) u(2) by (simp add: conn_ok_def)
    qed
  qed
qed

lemma connect_backend_proxy:
  assumes "connect_backend tcp unx p b = (r, p')"
  shows "sp_router p' = sp_router p" "sp_upstreams p' = sp_upstreams p" "sp_proxy_protocol p' = sp_proxy_protocol p"
    "sp_local_addr p' = sp_local_addr p" "sp_connection_semaphore p' = sp_connection_semaphore p"
  using assms
  by (auto simp: connect_backend_def connect_tcp_backend_def split: StreamBackendAddr.splits option.splits prod.splits sum.splits)

lemma report_servers [simp]:
  "up_servers (fst (report_failure u b t)) = up_servers u" "up_servers (fst (report_success u b)) = up_servers u"
  by (simp_all add: report_failure_def report_success_def Let_def split: option.splits)

lemma connect_step_inv:
  assumes inv: "sys_inv limit s" and ph: "phase_of s i = Connecting n a b"
  shows "sys_inv limit (connect_step s i n a b tcp unx elapsed now wh)"
proof -
  have d: "data_inv s" using inv by (simp add: sys_inv_def)
  have "phase_of s i \<noteq> Gone" using ph by simp
  note i = phase_of_bound [OF this]
  have a: "a < length (s_heap s)"
    using conn_ok_phase [OF d, of i] ph i by (simp add: conn_ok_def phase_of_def)
  then have wf: "wf_upstream (s_heap s ! a)" using d by (simp add: data_inv_def list_all_length)
  obtain r p' where cb: "connect_backend tcp unx (s_proxy s) b = (r, p')" by fastforce
  note pr = connect_backend_proxy [OF cb]
  obtain uf hf where f: "report_failure (s_heap s ! a) b now = (uf, hf)" by fastforce
  obtain us hs where ok: "report_success (s_heap s ! a) b = (us, hs)" by fastforce
  have uf: "wf_upstream uf" "up_servers uf = up_servers (s_heap s ! a)"
    using report_failure_wf [OF wf, of b now] report_servers(1) [of "s_heap s ! a" b now] by (simp_all add: f)
  have us: "wf_upstream us" "up_servers us = up_servers (s_heap s ! a)"
    using report_success_wf [OF wf, of b] report_servers(2) [of "s_heap s ! a" b] by (simp_all add: ok)
  have ret: "sys_inv limit (conn_return (log_metrics ms (s\<lparr>s_proxy := p', s_heap := (s_heap s)[a := u]\<rparr>)) i g res)"
    if "wf_upstream u" "up_servers u = up_servers (s_heap s ! a)" for u ms g res
    by (rule conn_return_inv [OF inv])
       (use ph pr frame_update [OF d a _ that] in \<open>auto simp: same_tables_def\<close>)
  have copy: "sys_inv limit (set_phase (log_metrics ms (s\<lparr>s_proxy := p', s_heap := (s_heap s)[a := us]\<rparr>)) i (Copying n sent))"
    if "sent = header_sent (s_proxy s) (c_client (s_conns s ! i))" for ms sent
  proof (rule step_conn [OF inv, where q = "Copying n sent"])
    let ?t = "set_phase (log_metrics ms (s\<lparr>s_proxy := p', s_heap := (s_heap s)[a := us]\<rparr>)) i (Copying n sent)"
    show "moves i (Copying n sent) s ?t"
      using i ph pr(5) by (auto simp: moves_def set_phase_def log_metrics_def Let_def holds_permit_def split: option.splits)
    show "frame s ?t" by (rule frame_update [OF d a _ us]) (simp_all add: pr)
    show "same_tables s ?t" by (simp add: same_tables_def pr)
    show "conn_ok ?t ((s_conns s ! i)\<lparr>c_phase := Copying n sent\<rparr>)"
      using that pr(3,4) by (simp add: conn_ok_def header_sent_def split: option.splits)
  qed
  have ret2: "sys_inv limit (conn_return (log_metrics ms (s\<lparr>s_proxy := p', s_heap := (s_heap s)[a := us]\<rparr>)) i g res)"
    for ms g res by (rule ret [OF us])
  have sent: "header_sent (s_proxy s) (c_client (s_conns s ! i)) =
      (case sp_proxy_protocol p' of None \<Rightarrow> [] | Some v \<Rightarrow> encode v (c_client (s_conns s ! i)) (sp_local_addr p'))"
    by (simp add: header_sent_def pr split: option.split)
  show ?thesis
  proof (cases "elapsed \<or> \<not> is_ok r")
    case True
    then show ?thesis
      using ret [OF uf] by (cases r) (auto simp: connect_step_def cb f Let_def)
  next
    case False
    then obtain x where "r = Ok x" "\<not> elapsed" by (cases r) auto
    then show ?thesis
      using ret2 copy [OF sent [symmetric]]
      by (cases "sp_proxy_protocol p'"; cases wh) (simp_all add: connect_step_def cb ok Let_def log_metrics_append sent)
  qed
qed

lemma task_end_inv:
  assumes inv: "sys_inv limit s" and ph: "phase_of s i = Returned r"
  shows "sys_inv limit (task_end s i)"
proof (rule step_conn [OF inv, where q = Gone])
  have d: "data_inv s" "counts_inv limit s" using inv by (simp_all add: sys_inv_def)
  have ng: "phase_of s i \<noteq> Gone" using ph by simp
  note i = phase_of_bound [OF ng]
  show "moves i Gone s (task_end s i)"
    using i ph counts_pos(2) [OF d(2) i ng]
    by (auto simp: moves_def task_end_def release_permit_def set_phase_def Let_def holds_permit_def split: option.splits)
  show "frame s (task_end s i)" using d(1) by (auto simp: task_end_def release_permit_def intro!: frame_refl)
  show "same_tables s (task_end s i)" by (simp add: same_tables_def task_end_def release_permit_def)
qed (simp add: conn_ok_def)

lemma accept_inv:
  assumes inv: "sys_inv limit s"
  shows "sys_inv limit (accept s client)"
proof -
  have d: "data_inv s" using inv by (simp add: sys_inv_def)
  let ?c = "\<lparr>c_client = client, c_phase = Spawned\<rparr>"
  have sp: "sys_inv limit t"
    if "s_conns t = s_conns s @ [?c]" "s_active_tasks t = s_active_tasks s + 1" "s_gauge t = s_gauge s"
      "s_heap t = s_heap s" "s_pending t = s_pending s" "s_proxy t = (s_proxy s)\<lparr>sp_connection_semaphore := m\<rparr>"
      "case (sp_connection_semaphore (s_proxy s), m) of (None, None) \<Rightarrow> True
        | (Some k, Some n) \<Rightarrow> k = Suc n | _ \<Rightarrow> False" for t m
  proof -
    have "data_inv t"
      by (rule data_inv_conns [OF d, where c = ?c])
         (use that d in \<open>auto simp: same_tables_def conn_ok_def intro!: frame_refl\<close>)
    moreover have "counts_inv limit t"
      using inv that by (auto simp: sys_inv_def counts_inv_def count_phases_def permits_ok_def holds_permit_def
          split: option.splits)
    ultimately show ?thesis by (simp add: sys_inv_def)
  qed
  show ?thesis
  proof (cases "sp_connection_semaphore (s_proxy s)")
    case None
    then show ?thesis
      unfolding accept_def Let_def by (simp, intro sp [where m = None]) simp_all
  next
    case (Some k)
    show ?thesis
    proof (cases k)
      case 0
      with Some inv show ?thesis by (simp add: accept_def Let_def log_metrics_inv)
    next
      case (Suc n)
      with Some show ?thesis
        unfolding accept_def Let_def by (simp, intro sp [where m = "Some n"]) simp_all
    qed
  qed
qed

lemma reload_step_inv:
  assumes inv: "sys_inv limit s" and wf: "stream_wf c"
  shows "sys_inv limit (reload_step s c)"
proof (cases "s_pending s \<noteq> None \<or> \<not> is_ok (reload_build c (s_heap s))")
  case True
  with inv show ?thesis by (auto simp: reload_step_def split: sum.splits)
next
  case False
  then obtain router table heap' where b: "reload_build c (s_heap s) = Ok (router, table, heap')"
    and pend: "s_pending s = None" by (auto simp: is_ok_iff)
  note spec = reload_build_spec [OF b wf]
  obtain fresh where h: "heap' = s_heap s @ fresh" "\<forall>u\<in>set fresh. wf_upstream u" using spec(3) by blast
  let ?t = "s\<lparr>s_heap := heap', s_proxy := (s_proxy s)\<lparr>sp_router := router\<rparr>, s_pending := Some table\<rparr>"
  have d: "data_inv s" "counts_inv limit s" using inv by (simp_all add: sys_inv_def)
  have fr: "frame s ?t" using d(1) h by (auto simp: frame_def data_inv_def list_all_iff nth_append)
  have "data_inv ?t"
    using d(1) spec(1,2) h fr conn_ok_frame [OF _ fr]
    by (auto simp: data_inv_def current_table_def list_all_iff intro: table_ok_mono)
  moreover have "counts_inv limit ?t"
    using d(2) by (simp add: counts_inv_def count_phases_def permits_ok_def)
  ultimately show ?thesis using b pend by (simp add: reload_step_def sys_inv_def)
qed

lemma reload_store_step_inv:
  assumes inv: "sys_inv limit s"
  shows "sys_inv limit (reload_store_step s)"
proof (cases "s_pending s")
  case (Some table)
  let ?t = "s\<lparr>s_proxy := (s_proxy s)\<lparr>sp_upstreams := table\<rparr>, s_pending := None\<rparr>"
  have d: "data_inv s" "counts_inv limit s" using inv by (simp_all add: sys_inv_def)
  have fr: "frame s ?t" using d(1) by (auto intro!: frame_refl)
  have "data_inv ?t"
    using d(1) Some conn_ok_frame [OF _ fr] by (auto simp: data_inv_def current_table_def list_all_iff)
  moreover have "counts_inv limit ?t"
    using d(2) by (simp add: counts_inv_def count_phases_def permits_ok_def)
  ultimately have "sys_inv limit ?t" by (simp add: sys_inv_def)
  with Some show ?thesis by (simp add: reload_store_step_def log_metrics_inv)
qed (use inv in \<open>simp add: reload_store_step_def\<close>)

lemma set_run_inv: "sys_inv limit (s\<lparr>s_run := r\<rparr>) = sys_inv limit s"
proof -
  have "conn_ok (s\<lparr>s_run := r\<rparr>) = conn_ok s"
    by (rule ext) (simp add: conn_ok_def split: conn_phase.split)
  then show ?thesis
    by (simp add: sys_inv_def counts_inv_def permits_ok_def data_inv_def current_table_def count_phases_def)
qed

lemma load_router_inv:
  assumes inv: "sys_inv limit s" and ph: "phase_of s i = Spawned"
  shows "sys_inv limit (set_phase s i (HasRouter r))"
proof (rule step_conn [OF inv, where q = "HasRouter r"])
  have i: "i < length (s_conns s)" using ph phase_of_bound [of s i] by simp
  show "moves i (HasRouter r) s (set_phase s i (HasRouter r))"
    using i ph by (auto simp: moves_def set_phase_def Let_def holds_permit_def split: option.splits)
  show "frame s (set_phase s i (HasRouter r))" using inv by (auto simp: sys_inv_def intro!: frame_refl)
qed (simp_all add: same_tables_def conn_ok_def)

lemma load_upstreams_inv:
  assumes inv: "sys_inv limit s" and ph: "phase_of s i = HasRouter r"
  shows "sys_inv limit (set_phase (s\<lparr>s_gauge := s_gauge s + 1\<rparr>) i (HasTables r (sp_upstreams (s_proxy s))))"
    (is "sys_inv limit (set_phase ?s i ?q)")
proof (rule step_conn [OF inv, where q = ?q])
  have d: "data_inv s" using inv by (simp add: sys_inv_def)
  have i: "i < length (s_conns s)" using ph phase_of_bound [of s i] by simp
  show "moves i ?q s (set_phase ?s i ?q)"
    using i ph by (auto simp: moves_def set_phase_def Let_def holds_permit_def split: option.splits)
  show "frame s (set_phase ?s i ?q)" using d by (auto intro!: frame_refl)
  show "conn_ok (set_phase ?s i ?q) ((s_conns s ! i)\<lparr>c_phase := ?q\<rparr>)"
    using d by (simp add: conn_ok_def data_inv_def)
qed (simp add: same_tables_def)

lemma copied_step_inv:
  assumes inv: "sys_inv limit s" and ph: "phase_of s i = Copying n sent"
  shows "sys_inv limit (copied_step s i n outcome)"
proof -
  have "data_inv s" using inv by (simp add: sys_inv_def)
  then show ?thesis
    using ph by (cases outcome)
      (auto simp: copied_step_def same_tables_def intro!: conn_return_inv [OF inv] frame_refl)
qed

lemmas step_invs = accept_inv load_router_inv load_upstreams_inv [simplified] peek_step_inv connect_step_inv copied_step_inv
  task_end_inv reload_step_inv reload_store_step_inv set_run_inv

lemma sys_step_inv: "sys_inv limit s \<Longrightarrow> event_ok e \<Longrightarrow> sys_inv limit (sys_step s e)"
  by (cases e) (simp_all add: step_invs drain_tick_def split: conn_phase.split)

interpretation strm: invariant_machine sys_step event_ok "sys_inv limit"
  by unfold_locales (rule sys_step_inv)

lemma sys_start_inv:
  assumes "from_config c [] = Ok (proxy, heap)" "stream_wf c"
  shows "sys_inv (unat (st_max_connections c)) (sys_start proxy heap)"
proof -
  have "reload_build c [] = Ok (sp_router proxy, sp_upstreams proxy, heap)"
    "sp_connection_semaphore proxy = make_semaphore (st_max_connections c)"
    using assms(1) by (auto simp: from_config_def reload_build_def Let_def and_then_Ok_iff)
  with reload_build_spec [OF this(1) assms(2)] show ?thesis
    by (auto simp: sys_inv_def counts_inv_def count_phases_def permits_ok_def data_inv_def sys_start_def
        current_table_def make_semaphore_def list_all_iff unat_gt_0 word_gt_0)
qed

section \<open>Routing without a reload under way\<close>

definition unknown_upstream :: "StreamError \<Rightarrow> bool" where
  "unknown_upstream e = (\<exists>n. e = RoutingError (''Unknown upstream: '' @ n))"

definition phase_consistent :: "upstream_table \<Rightarrow> conn_phase \<Rightarrow> bool" where
  "phase_consistent table p =
     (case p of
        HasRouter r \<Rightarrow> router_targets r \<subseteq> dom (hm_get table)
      | HasTables r t \<Rightarrow> router_targets r \<subseteq> dom (hm_get t)
      | Returned (Inl e) \<Rightarrow> \<not> unknown_upstream e
      | _ \<Rightarrow> True)"

definition consistent :: "sys \<Rightarrow> bool" where
  "consistent s =
     (s_pending s = None \<and> router_targets (sp_router (s_proxy s)) \<subseteq> dom (hm_get (sp_upstreams (s_proxy s))) \<and>
      (\<forall>c\<in>set (s_conns s). phase_consistent (sp_upstreams (s_proxy s)) (c_phase c)))"

fun is_reload :: "event \<Rightarrow> bool" where
  "is_reload (EvReload _) = True"
| "is_reload EvReloadStore = True"
| "is_reload _ = False"

lemma consistent_set_phase:
  assumes "consistent s" "same_tables s t" "s_conns t = s_conns (set_phase s i q)"
    and "phase_consistent (sp_upstreams (s_proxy s)) q"
  shows "consistent t"
  using assms set_update_subset_insert [of "s_conns s" i "(s_conns s ! i)\<lparr>c_phase := q\<rparr>"]
  by (auto simp: consistent_def same_tables_def set_phase_def)

lemma conn_return_conns: "s_conns s' = s_conns s \<Longrightarrow> s_conns (conn_return s' i g r) = s_conns (set_phase s i (Returned r))"
  by (simp add: conn_return_def set_phase_def)

lemma conn_return_tables: "same_tables s (conn_return s' i g r) = same_tables s s'"
  by (simp add: same_tables_def conn_return_def)

lemma same_tables_simps [simp]:
  "same_tables s s" "same_tables s (log_metrics m t) = same_tables s t"
  by (simp_all add: same_tables_def)

lemma phase_consistent_simps [simp]: "phase_consistent t Spawned" "phase_consistent t Gone"
  by (simp_all add: phase_consistent_def)

lemma route_connection_known:
  assumes "route_connection router table data = (Inl e, ms)" "router_targets router \<subseteq> dom (hm_get table)"
  shows "\<not> unknown_upstream e"
  using assms match_sni_target [of router "extract_sni (take 4096 data)"]
  by (auto simp: route_connection_def Let_def unknown_upstream_def split: option.splits)

lemma consistent_phase:
  "consistent s \<Longrightarrow> i < length (s_conns s) \<Longrightarrow> phase_consistent (sp_upstreams (s_proxy s)) (phase_of s i)"
  by (simp add: consistent_def phase_of_def)

lemma peek_step_consistent:
  assumes "consistent s" "phase_of s i = HasTables router table"
  shows "consistent (peek_step s i router table peek clock)"
proof -
  have i: "i < length (s_conns s)" using assms(2) phase_of_bound [of s i] by simp
  then have t: "router_targets router \<subseteq> dom (hm_get table)"
    using consistent_phase [OF assms(1) i] assms(2) by (simp add: phase_consistent_def)
  have "\<exists>q. s_conns (peek_step s i router table peek clock) = s_conns (set_phase s i q) \<and>
      same_tables s (peek_step s i router table peek clock) \<and>
      phase_consistent (sp_upstreams (s_proxy s)) q"
  proof (cases peek)
    case (Inl e)
    then show ?thesis
      by (intro exI [of _ "Returned (Err (Io e))"])
         (simp add: peek_step_def conn_return_conns conn_return_tables phase_consistent_def unknown_upstream_def)
  next
    case (Inr data)
    obtain r ms where rc: "route_connection router table data = (r, ms)" by fastforce
    show ?thesis
    proof (cases r)
      case (Inl e)
      with Inr rc route_connection_known [OF _ t] show ?thesis
        by (intro exI [of _ "Returned (Err e)"])
           (simp add: peek_step_def conn_return_conns conn_return_tables phase_consistent_def)
    next
      case (Inr v)
      with \<open>peek = _\<close> rc show ?thesis
        by (cases v; cases "next_server (s_heap s ! snd v) clock"; cases "fst (next_server (s_heap s ! snd v) clock)")
           (auto simp: peek_step_def conn_panic_def release_permit_def same_tables_def set_phase_def
             phase_consistent_def intro: exI [of _ Panicked] exI [of _ "Connecting _ _ _"])
    qed
  qed
  then show ?thesis using consistent_set_phase [OF assms(1)] by blast
qed

lemma connect_step_consistent:
  assumes "consistent s" "phase_of s i = Connecting n a b"
  shows "consistent (connect_step s i n a b tcp unx elapsed now wh)"
proof -
  obtain r p' where cb: "connect_backend tcp unx (s_proxy s) b = (r, p')" by fastforce
  note pr = connect_backend_proxy [OF cb]
  have r: "\<not> unknown_upstream e" if "r = Inl e" for e
    using cb that by (auto simp: connect_backend_def connect_error_def unknown_upstream_def
        split: StreamBackendAddr.splits prod.splits sum.splits)
  obtain uf hf where f: "report_failure (s_heap s ! a) b now = (uf, hf)" by fastforce
  obtain us hs where ok: "report_success (s_heap s ! a) b = (us, hs)" by fastforce
  have ret: "consistent (conn_return s' i g res)"
    if "s_conns s' = s_conns s" "same_tables s s'" "\<And>e. res = Inl e \<Longrightarrow> \<not> unknown_upstream e" for s' g res
    by (rule consistent_set_phase [OF assms(1), of _ i "Returned res"])
       (use that in \<open>auto simp: conn_return_conns conn_return_tables phase_consistent_def split: sum.splits\<close>)
  have copy: "consistent (set_phase s' i (Copying n sent))"
    if "s_conns s' = s_conns s" "same_tables s s'" for s' sent
    by (rule consistent_set_phase [OF assms(1), of _ i "Copying n sent"])
       (use that in \<open>auto simp: set_phase_def phase_consistent_def same_tables_def\<close>)
  have st: "same_tables s (s\<lparr>s_proxy := p', s_heap := h\<rparr>)" "same_tables s (log_metrics m s') = same_tables s s'" for h m s'
    using pr by (simp_all add: same_tables_def)
  show ?thesis
    unfolding connect_step_def cb prod.case Let_def
    using r by (auto simp: f ok st timeout_error_def unknown_upstream_def split: sum.split option.split intro!: ret copy)
qed

lemma consistent_log [simp]: "consistent (log_metrics m s) = consistent s"
  by (simp add: consistent_def)

lemma sys_step_consistent:
  assumes "consistent s" "\<not> is_reload e"
  shows "consistent (sys_step s e)"
proof -
  have set_ph: "consistent (set_phase t i q)"
    if "s_conns t = s_conns s" "same_tables s t" "phase_consistent (sp_upstreams (s_proxy s)) q" for t i q
    by (rule consistent_set_phase [OF assms(1), of _ i q]) (use that in \<open>auto simp: set_phase_def same_tables_def\<close>)
  have acc: "consistent (accept s c)" for c
    using assms(1)
    by (auto simp: accept_def Let_def consistent_def split: option.split nat.split)
  have run: "consistent (s\<lparr>s_run := r\<rparr>)" for r using assms(1) by (simp add: consistent_def)
  have ld: "phase_consistent (sp_upstreams (s_proxy s)) (HasRouter (sp_router (s_proxy s)))"
    using assms(1) by (simp add: consistent_def phase_consistent_def)
  have lu: "phase_consistent (sp_upstreams (s_proxy s)) (HasTables r (sp_upstreams (s_proxy s)))"
    if "phase_of s i = HasRouter r" for i r
    using consistent_phase [OF assms(1), of i] that phase_of_bound [of s i] by (simp add: phase_consistent_def)
  have cp: "consistent (copied_step s i n out)" for i n out
    using assms(1) by (cases out)
      (auto simp: copied_step_def conn_return_def phase_consistent_def same_tables_def intro!: set_ph)
  show ?thesis
    using assms
    by (cases e) (auto simp: acc run ld lu cp peek_step_consistent connect_step_consistent drain_tick_def task_end_def
        release_permit_def same_tables_def split: conn_phase.split intro!: set_ph)
qed

interpretation quiet: invariant_machine sys_step "\<lambda>e. \<not> is_reload e" consistent
  by unfold_locales (rule sys_step_consistent)

lemma sys_start_consistent:
  assumes "from_config c [] = Ok (proxy, heap)" "stream_wf c"
  shows "consistent (sys_start proxy heap)"
  using sys_start_inv [OF assms] by (simp add: sys_inv_def data_inv_def consistent_def sys_start_def current_table_def)

section \<open>Properties\<close>

text \<open>
  Configurations for the witnesses: one upstream \<^verbatim>\<open>a\<close> (or \<^verbatim>\<open>b\<close>) behind a Unix socket, used as the
  default, and a limit of one connection.
\<close>

definition example_stream :: "string \<Rightarrow> StreamConfig" where
  "example_stream up =
     \<lparr>st_name = ''s'', st_listen = ''0.0.0.0:443'', st_backlog = default_backlog, st_reuseport = True,
      st_proxy_protocol = PPV2, st_source_ips = [], st_default_upstream = Some up, st_sni_routes = [],
      st_upstreams = [\<lparr>su_name = up, su_servers = [''unix:/run/x'']\<rparr>],
      st_health_cooldown_secs = 30, st_connect_timeout_ms = 5000, st_max_connections = 1,
      st_drain_timeout_secs = 30\<rparr>"

definition example_table :: "string \<Rightarrow> nat \<Rightarrow> upstream_table" where
  "example_table up a = [(up, a)]"

definition example_upstream :: "string \<Rightarrow> Upstream" where
  "example_upstream up = with_cooldown up [Unix ''/run/x''] 30"

definition example_proxy :: StreamProxy where
  "example_proxy =
     \<lparr>sp_name = ''s'', sp_router = SniRouter_new [] (Some ''a''), sp_upstreams = example_table ''a'' 0,
      sp_source_ip_pool = None, sp_proxy_protocol = Some V2, sp_local_addr = SocketAddrV4 (Ipv4 0 0 0 0) 443,
      sp_connect_timeout = 5000, sp_connection_semaphore = Some 1, sp_drain_timeout = 30\<rparr>"

lemma example_stream_wf: "stream_wf (example_stream up)"
  by (simp add: stream_wf_def example_stream_def)

lemma example_build:
  "build_upstreams 30 [\<lparr>su_name = up, su_servers = [''unix:/run/x'']\<rparr>] [] heap =
     Ok (example_table up (length heap), heap @ [example_upstream up])"
  by (simp add: parse_backend_endpoints_def StreamBackendAddr_parse_def parse_unix_endpoint_def starts_with_def
      example_table_def example_upstream_def hm_insert_def)

lemma example_listen: "parse_socket_addr ''0.0.0.0:443'' = Some (SocketAddrV4 (Ipv4 0 0 0 0) 443)"
proof -
  have "digit_char 0 = CHR ''0''" "digit_char 3 = CHR ''3''" "digit_char 4 = CHR ''4''" by code_simp+
  then have "show_socket_addr (SocketAddrV4 (Ipv4 0 0 0 0) 443) = ''0.0.0.0:443''"
    by (simp add: show_radix.simps [of 10 0] show_radix.simps [of 10 443] show_radix.simps [of 10 44]
        show_radix.simps [of 10 4])
  then show ?thesis using parse_show_socket_addr by metis
qed

lemma example_from_config: "from_config (example_stream ''a'') [] = Ok (example_proxy, [example_upstream ''a''])"
  using example_build [of "''a''" "[]"]
  by (simp add: from_config_def Let_def example_stream_def example_listen make_semaphore_def example_proxy_def)

text \<open>
  C10: the connection limit and the bookkeeping. However accepts, connection steps, failures,
  reloads with validated configurations, shutdown and drain interleave: no task panics, the
  permits held and the permits available add up to the configured limit (so at most
  \<^verbatim>\<open>max_connections\<close> connections are open and no permit leaks), \<^verbatim>\<open>active_tasks\<close> counts exactly the
  tasks that have not ended, and the gauge counts exactly the connections being served.
\<close>

theorem connection_accounting:
  assumes "from_config c [] = Ok (proxy, heap)" "stream_wf c" "list_all event_ok es"
    and s: "s = foldl sys_step (sys_start proxy heap) es"
  shows "count_phases (\<lambda>p. p = Panicked) s = 0 \<and>
    (st_max_connections c \<noteq> 0 \<longrightarrow>
       (\<exists>n. sp_connection_semaphore (s_proxy s) = Some n \<and>
          n + count_phases holds_permit s = unat (st_max_connections c))) \<and>
    s_active_tasks s = count_phases (\<lambda>p. p \<noteq> Gone) s \<and> s_gauge s = count_phases guarded s"
proof -
  have inv: "sys_inv (unat (st_max_connections c)) s"
    unfolding s by (rule strm.run_inv [OF sys_start_inv [OF assms(1,2)] assms(3)])
  then have "count_phases (\<lambda>p. p = Panicked) s = 0"
    by (auto simp: sys_inv_def data_inv_def count_phases_def conn_ok_def list_all_iff filter_empty_conv)
  moreover have "permits_ok (unat (st_max_connections c)) s" using inv by (simp add: sys_inv_def counts_inv_def)
  then have "st_max_connections c \<noteq> 0 \<longrightarrow> (\<exists>n. sp_connection_semaphore (s_proxy s) = Some n \<and>
      n + count_phases holds_permit s = unat (st_max_connections c))"
    by (cases "sp_connection_semaphore (s_proxy s)") (simp_all add: permits_ok_def word_unat_eq_iff)
  ultimately show ?thesis using inv by (simp add: sys_inv_def counts_inv_def)
qed

theorem connection_accounting_witness:
  "\<exists>n. sp_connection_semaphore (s_proxy (foldl sys_step (sys_start example_proxy [example_upstream ''a''])
       [EvAccept (SocketAddrV4 (Ipv4 1 2 3 4) 5), EvReload (example_stream ''b''), EvLoadRouter 0])) = Some n \<and> n \<le> 1"
proof -
  let ?es = "[EvAccept (SocketAddrV4 (Ipv4 1 2 3 4) 5), EvReload (example_stream ''b''), EvLoadRouter 0]"
  have "st_max_connections (example_stream ''a'') = 1" by (simp add: example_stream_def)
  moreover have "list_all event_ok ?es" by (simp add: example_stream_wf)
  ultimately show ?thesis
    using connection_accounting [OF example_from_config example_stream_wf _ refl, of ?es] by fastforce
qed


lemma match_default: "match_sni (SniRouter_new [] d) sni = d"
  by (simp add: match_sni_spec sni_spec_def exact_entry_def wildcard_entry_def pattern_entry_def split: option.split)

lemma example_next: "next_server (example_upstream u) clock = (Some (Unix ''/run/x''), (example_upstream u)\<lparr>up_counter := 1\<rparr>)"
  by (simp add: example_upstream_def next_server_def with_cooldown_def BackendHealth_new_def is_eligible_def Let_def)

definition example_reset :: "event list" where
  "example_reset =
     [EvAccept (SocketAddrV4 (Ipv4 1 2 3 4) 5), EvLoadRouter 0, EvLoadUpstreams 0, EvPeek 0 (Inl ''reset'') (\<lambda>_. 0)]"


text \<open>
  the router and the upstream table are published by two separate stores and read by two
  separate loads, so a reload is not atomic for a connection that starts while it is under
  way. A connection that loads the router before the reload and the table after it ends with
  "Unknown upstream", although both configurations are valid.
\<close>

theorem reload_race:
  "stream_wf (example_stream ''a'') \<and> stream_wf (example_stream ''b'') \<and>
   from_config (example_stream ''a'') [] = Ok (example_proxy, [example_upstream ''a'']) \<and>
   c_phase (s_conns (foldl sys_step (sys_start example_proxy [example_upstream ''a''])
      [EvAccept (SocketAddrV4 (Ipv4 1 2 3 4) 5), EvLoadRouter 0, EvReload (example_stream ''b''), EvReloadStore,
       EvLoadUpstreams 0, EvPeek 0 (Inr []) (\<lambda>_. 0)]) ! 0) =
     Returned (Err (RoutingError ''Unknown upstream: a''))"
proof -
  have "reload_build (example_stream ''b'') [example_upstream ''a''] =
      Ok (SniRouter_new [] (Some ''b''), example_table ''b'' 1, [example_upstream ''a'', example_upstream ''b''])"
    using example_build [of "''b''" "[example_upstream ''a'']"]
    by (simp add: reload_build_def Let_def example_stream_def)
  then have "c_phase (s_conns (foldl sys_step (sys_start example_proxy [example_upstream ''a''])
      [EvAccept (SocketAddrV4 (Ipv4 1 2 3 4) 5), EvLoadRouter 0, EvReload (example_stream ''b''), EvReloadStore,
       EvLoadUpstreams 0, EvPeek 0 (Inr []) (\<lambda>_. 0)]) ! 0) =
     Returned (Err (RoutingError ''Unknown upstream: a''))"
    by (simp add: sys_start_def accept_def Let_def example_proxy_def phase_of_def set_phase_def reload_step_def
        reload_store_step_def peek_step_def route_connection_def match_default example_table_def conn_return_def
        log_metrics_def hm_get_def)
  then show ?thesis using example_stream_wf example_from_config by simp
qed

text \<open>
  what a reload changes. A configuration whose endpoints do not parse leaves the proxy
  and the heap as they are. A validated one replaces the router and the table, keeps every
  object that connections may still use exactly as it was, and starts all new upstreams
  healthy; the listen address, the PROXY protocol version, the connect timeout, the source
  addresses, the connection limit and the drain timeout are not reloaded.
\<close>

theorem reload_effect:
  assumes "stream_wf c" "reload self c heap = (r, self', heap')"
  shows "case r of
      Inl e \<Rightarrow> self' = self \<and> heap' = heap
    | Inr _ \<Rightarrow>
        self' = self\<lparr>sp_router := SniRouter_new (st_sni_routes c) (st_default_upstream c),
                     sp_upstreams := sp_upstreams self'\<rparr> \<and>
        router_targets (sp_router self') \<subseteq> dom (hm_get (sp_upstreams self')) \<and>
        table_ok (length heap') (sp_upstreams self') \<and>
        take (length heap) heap' = heap \<and>
        (\<forall>u\<in>set (drop (length heap) heap'). wf_upstream u \<and> list_all bh_healthy (up_health u))"
proof (cases "reload_build c heap")
  case (Inl e)
  with assms(2) show ?thesis by (auto simp: reload_def)
next
  case (Inr v)
  then obtain router table h where b: "reload_build c heap = Ok (router, table, h)" by (cases v) auto
  then have router: "router = SniRouter_new (st_sni_routes c) (st_default_upstream c)"
    by (auto simp: reload_build_def Let_def and_then_Ok_iff)
  have r: "r = Ok ()" "self' = self\<lparr>sp_router := router, sp_upstreams := table\<rparr>" "heap' = h"
    using assms(2) b by (auto simp: reload_def)
  from reload_build_spec [OF b assms(1)] show ?thesis by (auto simp: r router)
qed

theorem reload_effect_witness:
  "take 1 (snd (snd (reload example_proxy (example_stream ''b'') [example_upstream ''a'']))) = [example_upstream ''a'']"
proof -
  have b: "reload_build (example_stream ''b'') [example_upstream ''a''] =
      Ok (SniRouter_new [] (Some ''b''), example_table ''b'' 1, [example_upstream ''a'', example_upstream ''b''])"
    using example_build [of "''b''" "[example_upstream ''a'']"]
    by (simp add: reload_build_def Let_def example_stream_def)
  then have "reload example_proxy (example_stream ''b'') [example_upstream ''a''] =
     (Ok (), example_proxy\<lparr>sp_router := SniRouter_new [] (Some ''b''), sp_upstreams := example_table ''b'' 1\<rparr>,
      [example_upstream ''a'', example_upstream ''b''])" by (simp add: reload_def)
  from reload_effect [OF example_stream_wf this] show ?thesis using b by (simp add: reload_def)
qed




definition example_copy :: "event list" where
  "example_copy =
     [EvAccept (SocketAddrV4 (Ipv4 1 2 3 4) 5), EvLoadRouter 0, EvLoadUpstreams 0, EvPeek 0 (Inr []) (\<lambda>_. 0),
      EvConnect 0 (\<lambda>_ _. Inr ()) (\<lambda>_. Inr ()) False 0 (Inr ())]"


end
