(* ===== verification/Http_Router.thy ===== *)
theory Http_Router
  imports Wicket_Config
begin

text \<open>
  The HTTP router (\<^verbatim>\<open>crates/wicket-core/src/routing.rs\<close>): routes are compiled from the
  configuration, searched in order, and the first one that matches host, path, method and
  headers wins; a matched route may rewrite the path. Case mapping is the ASCII one: host
  names and methods of a request are ASCII.
\<close>

section \<open>Matchers\<close>

datatype HostMatcher = HostExact string | WildcardPrefix string

datatype PathMatcher = PathExact string | PathPrefix string

datatype route_error = InvalidHostPattern string

definition HostMatcher_compile :: "string \<Rightarrow> route_error + HostMatcher" where
  "HostMatcher_compile pattern =
     (case strip_prefix ''*.'' pattern of
        Some sfx \<Rightarrow> Ok (WildcardPrefix (''.'' @ to_lowercase sfx))
      | None \<Rightarrow>
          if CHR ''*'' \<in> set pattern then Err (InvalidHostPattern pattern)
          else Ok (HostExact (to_lowercase pattern)))"

definition HostMatcher_matches :: "HostMatcher \<Rightarrow> string \<Rightarrow> bool" where
  "HostMatcher_matches self host =
     (let host_without_port = split_first CHR '':'' (to_lowercase host) in
      case self of
        HostExact expected \<Rightarrow> host_without_port = expected
      | WildcardPrefix sfx \<Rightarrow>
          if \<not> ends_with host_without_port sfx then False
          else
            let prefix_len = length host_without_port - length sfx in
            if prefix_len = 0 then False
            else CHR ''.'' \<notin> set (take prefix_len host_without_port))"

fun PathMatcher_matches :: "PathMatcher \<Rightarrow> string \<Rightarrow> bool" where
  "PathMatcher_matches (PathExact expected) path = (path = expected)"
| "PathMatcher_matches (PathPrefix pfx) path =
     (starts_with path pfx \<or> (ends_with pfx ''/'' \<and> path = take (length pfx - 1) pfx))"

section \<open>Compiled routes\<close>

record CompiledRoute =
  cr_name :: "string option"
  cr_upstream :: string
  cr_host_matcher :: "HostMatcher option"
  cr_path_matcher :: "PathMatcher option"
  cr_methods :: "string list"
  cr_headers :: "(string, string) hashmap"
  cr_url_rewrite :: "UrlRewriteFilter option"

record Router =
  rt_routes :: "CompiledRoute list"

text \<open>The result of matching a request (\<^verbatim>\<open>RouteMatch\<close> of the source's routing module).\<close>

record MatchedRoute =
  mr_route_name :: "string option"
  mr_upstream :: string
  mr_url_rewrite :: "UrlRewriteFilter option"
  mr_matched_path_prefix :: string

definition compile_path :: "RouteMatch \<Rightarrow> PathMatcher option" where
  "compile_path m =
     (case rm_path m of
        Some exact \<Rightarrow> Some (PathExact exact)
      | None \<Rightarrow> map_option PathPrefix (rm_path_prefix m))"

definition CompiledRoute_compile :: "RouteConfig \<Rightarrow> route_error + CompiledRoute" where
  "CompiledRoute_compile config =
     and_then
       (case rm_host (rc_match_rules config) of
          Some h \<Rightarrow> and_then (HostMatcher_compile h) (\<lambda>m. Ok (Some m))
        | None \<Rightarrow> Ok None) (\<lambda>host_matcher.
     Ok \<lparr>cr_name = rc_name config, cr_upstream = rc_upstream config, cr_host_matcher = host_matcher,
         cr_path_matcher = compile_path (rc_match_rules config),
         cr_methods = map to_uppercase (rm_methods (rc_match_rules config)),
         cr_headers = rm_headers (rc_match_rules config),
         cr_url_rewrite = Option.bind (rc_filters config) rf_url_rewrite\<rparr>)"

definition headers_match :: "(string, string) hashmap \<Rightarrow> (string, string) hashmap \<Rightarrow> bool" where
  "headers_match required headers = list_all (\<lambda>(key, value). hm_get headers key = Some value) required"

definition CompiledRoute_matches ::
  "CompiledRoute \<Rightarrow> string option \<Rightarrow> string \<Rightarrow> string \<Rightarrow> (string, string) hashmap \<Rightarrow> bool" where
  "CompiledRoute_matches self host path method headers =
     ((case cr_host_matcher self of
         None \<Rightarrow> True
       | Some matcher \<Rightarrow> (case host of Some h \<Rightarrow> HostMatcher_matches matcher h | None \<Rightarrow> False)) \<and>
      (case cr_path_matcher self of None \<Rightarrow> True | Some matcher \<Rightarrow> PathMatcher_matches matcher path) \<and>
      (cr_methods self = [] \<or> to_uppercase method \<in> set (cr_methods self)) \<and>
      headers_match (cr_headers self) headers)"

definition matched_path_prefix :: "CompiledRoute \<Rightarrow> string \<Rightarrow> string" where
  "matched_path_prefix self path =
     (case cr_path_matcher self of
        Some (PathExact exact) \<Rightarrow> exact
      | Some (PathPrefix pfx) \<Rightarrow> pfx
      | None \<Rightarrow> path)"

definition Router_build :: "RouteConfig list \<Rightarrow> route_error + Router" where
  "Router_build routes =
     and_then (try_map CompiledRoute_compile routes) (\<lambda>compiled. Ok \<lparr>rt_routes = compiled\<rparr>)"

definition has_header_matchers :: "Router \<Rightarrow> bool" where
  "has_header_matchers self = list_ex (\<lambda>r. cr_headers r \<noteq> []) (rt_routes self)"

text \<open>What a request is matched on: host, path, method and headers.\<close>

type_synonym request_key = "string option \<times> string \<times> string \<times> (string, string) hashmap"

definition route_matches :: "CompiledRoute \<Rightarrow> request_key \<Rightarrow> bool" where
  "route_matches r k = (case k of (host, path, method, headers) \<Rightarrow> CompiledRoute_matches r host path method headers)"

fun match_routes :: "CompiledRoute list \<Rightarrow> request_key \<Rightarrow> CompiledRoute option" where
  "match_routes [] k = None"
| "match_routes (route # rest) k = (if route_matches route k then Some route else match_routes rest k)"

definition match_request ::
  "Router \<Rightarrow> string option \<Rightarrow> string \<Rightarrow> string \<Rightarrow> (string, string) hashmap \<Rightarrow> MatchedRoute option" where
  "match_request self host path method headers =
     map_option (\<lambda>route.
       \<lparr>mr_route_name = cr_name route, mr_upstream = cr_upstream route,
        mr_url_rewrite = cr_url_rewrite route,
        mr_matched_path_prefix = matched_path_prefix route path\<rparr>)
       (match_routes (rt_routes self) (host, path, method, headers))"

interpretation http: first_match route_matches match_routes
  by unfold_locales simp_all

section \<open>URL rewriting\<close>

definition replace_path_prefix :: "string \<Rightarrow> string \<Rightarrow> string \<Rightarrow> string" where
  "replace_path_prefix path matched_prefix replacement =
     (let sfx = unwrap_or (strip_prefix matched_prefix path) path in
      if sfx = [] then replacement
      else if ends_with replacement ''/'' \<and> starts_with sfx ''/'' then
        trim_end_matches CHR ''/'' replacement @ sfx
      else if ends_with replacement ''/'' \<or> starts_with sfx ''/'' then replacement @ sfx
      else replacement @ ''/'' @ sfx)"

definition rewrite_path_and_query ::
  "string \<Rightarrow> string option \<Rightarrow> string \<Rightarrow> UrlRewriteFilter \<Rightarrow> string option" where
  "rewrite_path_and_query path query matched_prefix rewrite = do {
     path_rewrite \<leftarrow> ur_path rewrite;
     let rewritten_path =
       (case path_rewrite of
          ReplaceFullPath replacement \<Rightarrow> replacement
        | ReplacePrefixMatch replacement \<Rightarrow> replace_path_prefix path matched_prefix replacement);
     Some (case query of Some q \<Rightarrow> rewritten_path @ ''?'' @ q | None \<Rightarrow> rewritten_path) }"

section \<open>Reference semantics\<close>

text \<open>What a configured route accepts, read off the configuration without compiling it.\<close>

definition host_name :: "string \<Rightarrow> string" where
  "host_name host = split_first CHR '':'' (to_lowercase host)"

definition host_accepts :: "string \<Rightarrow> string \<Rightarrow> bool" where
  "host_accepts pattern host =
     (case strip_prefix ''*.'' pattern of
        Some domain \<Rightarrow>
          (\<exists>label. label \<noteq> [] \<and> CHR ''.'' \<notin> set label \<and> host_name host = label @ ''.'' @ to_lowercase domain)
      | None \<Rightarrow> host_name host = to_lowercase pattern)"

definition path_accepts :: "RouteMatch \<Rightarrow> string \<Rightarrow> bool" where
  "path_accepts m path =
     (case rm_path m of
        Some exact \<Rightarrow> path = exact
      | None \<Rightarrow>
          (case rm_path_prefix m of
             None \<Rightarrow> True
           | Some pfx \<Rightarrow> (\<exists>rest. path = pfx @ rest) \<or> pfx = path @ ''/''))"

definition route_accepts :: "request_key \<Rightarrow> RouteConfig \<Rightarrow> bool" where
  "route_accepts k r =
     (case k of
        (host, path, method, headers) \<Rightarrow>
          let m = rc_match_rules r in
          (\<forall>p. rm_host m = Some p \<longrightarrow> (\<exists>h. host = Some h \<and> host_accepts p h)) \<and>
          path_accepts m path \<and>
          (rm_methods m = [] \<or> to_uppercase method \<in> to_uppercase ` set (rm_methods m)) \<and>
          (\<forall>(key, v)\<in>set (rm_headers m). hm_get headers key = Some v))"

definition route_prefix :: "RouteMatch \<Rightarrow> string \<Rightarrow> string" where
  "route_prefix m path =
     (case rm_path m of Some exact \<Rightarrow> exact | None \<Rightarrow> unwrap_or (rm_path_prefix m) path)"

definition route_result :: "string \<Rightarrow> RouteConfig \<Rightarrow> MatchedRoute" where
  "route_result path r =
     \<lparr>mr_route_name = rc_name r, mr_upstream = rc_upstream r,
      mr_url_rewrite = Option.bind (rc_filters r) rf_url_rewrite,
      mr_matched_path_prefix = route_prefix (rc_match_rules r) path\<rparr>"

definition host_pattern_ok :: "RouteConfig \<Rightarrow> bool" where
  "host_pattern_ok r =
     (\<forall>p. rm_host (rc_match_rules r) = Some p \<longrightarrow> starts_with p ''*.'' \<or> CHR ''*'' \<notin> set p)"

section \<open>Lemmas\<close>

lemma HostMatcher_compile_matches:
  assumes "HostMatcher_compile p = Ok m"
  shows "HostMatcher_matches m h = host_accepts p h"
proof (cases "strip_prefix ''*.'' p")
  case None
  with assms show ?thesis
    by (auto simp: HostMatcher_compile_def HostMatcher_matches_def host_accepts_def host_name_def Let_def split: if_splits)
next
  case (Some d)
  then have m: "m = WildcardPrefix (''.'' @ to_lowercase d)" using assms by (simp add: HostMatcher_compile_def)
  let ?h = "host_name h" and ?s = "''.'' @ to_lowercase d"
  have "HostMatcher_matches m h \<longleftrightarrow> (\<exists>l. l \<noteq> [] \<and> CHR ''.'' \<notin> set l \<and> ?h = l @ ?s)"
    unfolding m HostMatcher_matches_def Let_def host_name_def [symmetric]
    by (auto simp: ends_with_iff)
  with Some show ?thesis by (simp add: host_accepts_def)
qed

lemma PathMatcher_prefix_iff:
  "PathMatcher_matches (PathPrefix pfx) path \<longleftrightarrow> (\<exists>rest. path = pfx @ rest) \<or> pfx = path @ ''/''"
  by (auto simp: starts_with_iff ends_with_iff)

lemma compile_path_matches:
  "(case compile_path m of None \<Rightarrow> True | Some pm \<Rightarrow> PathMatcher_matches pm path) = path_accepts m path"
  by (auto simp: compile_path_def path_accepts_def PathMatcher_prefix_iff simp del: PathMatcher_matches.simps(2)
      split: option.splits)

lemma compile_Ok_iff: "is_ok (CompiledRoute_compile r) \<longleftrightarrow> host_pattern_ok r"
proof (cases "rm_host (rc_match_rules r)")
  case (Some p)
  then show ?thesis
    by (cases "strip_prefix ''*.'' p")
       (auto simp: CompiledRoute_compile_def HostMatcher_compile_def host_pattern_ok_def starts_with_def)
qed (simp add: CompiledRoute_compile_def host_pattern_ok_def)

lemma compile_matches:
  assumes "CompiledRoute_compile r = Ok cr"
  shows "route_matches cr k = route_accepts k r"
proof -
  obtain host path mth hs where k: "k = (host, path, mth, hs)" by (cases k) auto
  let ?m = "rc_match_rules r"
  from assms obtain hm where cr: "cr = \<lparr>cr_name = rc_name r, cr_upstream = rc_upstream r, cr_host_matcher = hm,
         cr_path_matcher = compile_path ?m, cr_methods = map to_uppercase (rm_methods ?m),
         cr_headers = rm_headers ?m, cr_url_rewrite = Option.bind (rc_filters r) rf_url_rewrite\<rparr>"
    and hm: "case rm_host ?m of Some p \<Rightarrow> \<exists>m. hm = Some m \<and> HostMatcher_compile p = Ok m | None \<Rightarrow> hm = None"
    by (auto simp: CompiledRoute_compile_def and_then_Ok_iff split: option.splits)
  have host: "(case hm of None \<Rightarrow> True | Some m \<Rightarrow> (case host of Some h \<Rightarrow> HostMatcher_matches m h | None \<Rightarrow> False)) =
      (\<forall>p. rm_host ?m = Some p \<longrightarrow> (\<exists>h. host = Some h \<and> host_accepts p h))"
    using hm by (auto simp: HostMatcher_compile_matches split: option.splits)
  show ?thesis
    unfolding k route_matches_def route_accepts_def CompiledRoute_matches_def prod.case Let_def
    by (simp add: cr host compile_path_matches headers_match_def list_all_iff)
qed

lemma compile_result:
  assumes "CompiledRoute_compile r = Ok cr"
  shows "\<lparr>mr_route_name = cr_name cr, mr_upstream = cr_upstream cr, mr_url_rewrite = cr_url_rewrite cr,
      mr_matched_path_prefix = matched_path_prefix cr path\<rparr> = route_result path r"
  using assms
  by (auto simp: CompiledRoute_compile_def and_then_Ok_iff route_result_def matched_path_prefix_def compile_path_def
      route_prefix_def split: option.splits)

lemma match_request_find:
  assumes "Router_build rs = Ok router"
  shows "match_request router host path method headers =
    map_option (route_result path) (find (route_accepts (host, path, method, headers)) rs)"
proof -
  from assms obtain crs where crs: "try_map CompiledRoute_compile rs = Ok crs" "router = \<lparr>rt_routes = crs\<rparr>"
    by (auto simp: Router_build_def and_then_Ok_iff)
  from crs(1) have "list_all2 (\<lambda>r cr. CompiledRoute_compile r = Ok cr) rs crs" by (simp add: try_map_Ok_iff)
  then have "map_option (\<lambda>route.
       \<lparr>mr_route_name = cr_name route, mr_upstream = cr_upstream route, mr_url_rewrite = cr_url_rewrite route,
        mr_matched_path_prefix = matched_path_prefix route path\<rparr>)
       (match_routes crs (host, path, method, headers)) =
    map_option (route_result path) (find (route_accepts (host, path, method, headers)) rs)"
    by (induction rule: list_all2_induct) (simp_all add: compile_matches compile_result)
  then show ?thesis by (simp add: match_request_def crs(2))
qed

lemma ascii_lower_upper: "ascii_lower (ascii_upper c) = ascii_lower c"
proof (cases "97 \<le> (of_char c :: nat) \<and> (of_char c :: nat) \<le> 122")
  case True
  then have "((of_char c :: nat) - 32) mod 256 = of_char c - 32" by (intro mod_less) linarith
  then have u: "(of_char (ascii_upper c) :: nat) = of_char c - 32"
    unfolding ascii_upper_def using True by (simp only: if_True simp_thms of_char_of)
  have "ascii_lower (ascii_upper c) = char_of ((of_char c :: nat) - 32 + 32)"
    unfolding ascii_lower_def u using True by (subst if_P) (linarith, rule refl)
  also have "(of_char c :: nat) - 32 + 32 = of_char c" using True by linarith
  finally show ?thesis using True by (simp add: ascii_lower_def)
next
  case False
  then have "ascii_upper c = c" unfolding ascii_upper_def by (rule if_not_P)
  then show ?thesis by simp
qed

lemma to_lowercase_to_uppercase [simp]: "to_lowercase (to_uppercase s) = to_lowercase s"
  by (simp add: to_lowercase_def to_uppercase_def ascii_lower_upper)

lemma ascii_lower_colon: "ascii_lower c = CHR '':'' \<longleftrightarrow> c = CHR '':''"
  by (rule ascii_lower_eq_iff) simp_all

lemma colon_in_to_lowercase: "CHR '':'' \<in> set (to_lowercase s) \<longleftrightarrow> CHR '':'' \<in> set s"
proof -
  have "ascii_lower CHR '':'' = CHR '':''" by (simp add: ascii_lower_colon)
  then show ?thesis by (auto simp: to_lowercase_def image_iff ascii_lower_colon eq_commute [of "CHR '':''"])
qed

lemma host_name_port: "CHR '':'' \<notin> set h \<Longrightarrow> host_name (h @ '':'' @ port) = host_name h"
proof -
  have "ascii_lower CHR '':'' = CHR '':''" by (simp add: ascii_lower_colon)
  then show "CHR '':'' \<notin> set h \<Longrightarrow> ?thesis"
    by (simp add: host_name_def to_lowercase_Cons colon_in_to_lowercase)
qed

lemma host_name_upper: "host_name (to_uppercase h) = host_name h"
  by (simp add: host_name_def)

lemma HostMatcher_matches_name: "host_name h = host_name h' \<Longrightarrow> HostMatcher_matches m h = HostMatcher_matches m h'"
  by (simp add: HostMatcher_matches_def host_name_def)

lemma trim_end_matches_decomp: "\<exists>n. s = trim_end_matches c s @ replicate n c"
proof -
  let ?d = "takeWhile (\<lambda>x. x = c) (rev s)"
  have "rev s = ?d @ dropWhile (\<lambda>x. x = c) (rev s)" by simp
  then have "s = rev (dropWhile (\<lambda>x. x = c) (rev s)) @ rev ?d" by (metis rev_append rev_rev_ident)
  moreover have d: "replicate (length ?d) c = ?d"
    by (rule replicate_length_same) (auto dest: set_takeWhileD)
  have "rev ?d = replicate (length ?d) c" by (subst d [symmetric]) (rule rev_replicate)
  ultimately have "s = trim_end_matches c s @ replicate (length ?d) c" by (simp only: trim_end_matches_def)
  then show ?thesis ..
qed

lemma starts_with_trim_end:
  assumes "starts_with s [c]" "trim_end_matches d s \<noteq> []"
  shows "starts_with (trim_end_matches d s) [c]"
proof -
  obtain n where s: "s = trim_end_matches d s @ replicate n d" using trim_end_matches_decomp [of s d] ..
  obtain x xs where t: "trim_end_matches d s = x # xs" using assms(2) by (cases "trim_end_matches d s") simp_all
  have "s = (x # xs) @ replicate n d" using s unfolding t .
  then have "x = c" using assms(1) by (auto simp: starts_with_iff)
  then show ?thesis unfolding t by (simp add: starts_with_iff)
qed

lemma starts_with_appendI: "starts_with s [c] \<Longrightarrow> starts_with (s @ t) [c]"
  by (auto simp: starts_with_iff)

lemma starts_with_append_trim:
  "starts_with s [c] \<Longrightarrow> starts_with t [c] \<Longrightarrow> starts_with (trim_end_matches d s @ t) [c]"
  by (cases "trim_end_matches d s = []") (simp_all add: starts_with_trim_end starts_with_appendI)

lemma replace_path_prefix_slash:
  assumes "starts_with replacement ''/''"
  shows "starts_with (replace_path_prefix path pfx replacement) ''/''"
  using assms by (simp add: replace_path_prefix_def Let_def starts_with_append_trim starts_with_appendI)

section \<open>Properties\<close>

text \<open>
  C14: the compiled router is the configuration. It builds exactly when every host pattern is
  a plain name or a prefix wildcard, and then answers a request with the first route, in
  configuration order, whose host, path, method and header conditions hold as configured,
  with that route's name, upstream, rewrite and matched prefix.
\<close>

theorem router_refines_config:
  "(is_ok (Router_build rs) \<longleftrightarrow> (\<forall>r\<in>set rs. host_pattern_ok r)) \<and>
   (Router_build rs = Ok router \<longrightarrow>
      match_request router host path method headers =
        map_option (route_result path) (find (route_accepts (host, path, method, headers)) rs))"
proof (intro conjI impI)
  show "is_ok (Router_build rs) \<longleftrightarrow> (\<forall>r\<in>set rs. host_pattern_ok r)"
    using is_ok_try_map [of CompiledRoute_compile rs]
    by (cases "try_map CompiledRoute_compile rs") (simp_all add: Router_build_def compile_Ok_iff)
qed (rule match_request_find)

definition example_api :: RouteConfig where
  "example_api =
     \<lparr>rc_name = Some ''api'',
      rc_match_rules = \<lparr>rm_host = Some ''*.example.com'', rm_path_prefix = Some ''/api/'', rm_path = None,
        rm_methods = [''get''], rm_headers = []\<rparr>,
      rc_upstream = ''u'', rc_tls = None, rc_filters = None, rc_timeout = None\<rparr>"

definition example_router :: Router where
  "example_router =
     \<lparr>rt_routes = [\<lparr>cr_name = Some ''api'', cr_upstream = ''u'', cr_host_matcher = Some (WildcardPrefix ''.example.com''),
        cr_path_matcher = Some (PathPrefix ''/api/''), cr_methods = [''GET''], cr_headers = [], cr_url_rewrite = None\<rparr>]\<rparr>"

lemma example_router_build: "Router_build [example_api] = Ok example_router"
  by code_simp

lemma example_accepts: "route_accepts (Some ''A.example.com:80'', ''/api/x'', ''GET'', []) example_api"
proof -
  have "match_request example_router (Some ''A.example.com:80'') ''/api/x'' ''GET'' [] \<noteq> None" by code_simp
  then show ?thesis by (auto simp: match_request_find [OF example_router_build] split: if_splits)
qed

theorem router_refines_config_witness:
  "match_request example_router (Some ''A.example.com:80'') ''/api/x'' ''GET'' [] =
     Some (route_result ''/api/x'' example_api)"
  using router_refines_config [of "[example_api]" example_router "Some ''A.example.com:80''" "''/api/x''" "''GET''" "[]"]
  by (simp add: example_router_build example_accepts)



text \<open>
  path rewriting in a validated configuration. The rewritten path of a request with an
  absolute path is absolute and the query is kept unchanged; a prefix replacement puts exactly
  the part of the path after the matched prefix behind the replacement. A request for the
  prefix without its trailing slash, which the prefix also matches, keeps its whole path
  behind the replacement instead of being rewritten to it.
\<close>

theorem rewrite_correct:
  "(filters_wf f \<longrightarrow> rf_url_rewrite f = Some u \<longrightarrow> starts_with path ''/'' \<longrightarrow>
      rewrite_path_and_query path q pfx u = Some out \<longrightarrow>
      starts_with out ''/'' \<and>
      (\<exists>p. rewrite_path_and_query path None pfx u = Some p \<and>
         out = p @ (case q of None \<Rightarrow> [] | Some qs \<Rightarrow> ''?'' @ qs))) \<and>
   (rest \<noteq> [] \<longrightarrow> \<not> ends_with repl ''/'' \<longrightarrow>
      replace_path_prefix (pfx @ rest) pfx repl = repl @ (if starts_with rest ''/'' then rest else ''/'' @ rest)) \<and>
   replace_path_prefix pfx pfx repl = repl \<and>
   PathMatcher_matches (PathPrefix ''/api/'') ''/api'' \<and>
   replace_path_prefix ''/api'' ''/api/'' ''/v2'' = ''/v2/api''"
proof (intro conjI impI)
  assume f: "filters_wf f" "rf_url_rewrite f = Some u" and p: "starts_with path ''/''"
    and out: "rewrite_path_and_query path q pfx u = Some out"
  from out obtain pm where pm: "ur_path u = Some pm" by (auto simp: rewrite_path_and_query_def bind_eq_Some_conv)
  let ?p = "case pm of ReplaceFullPath r \<Rightarrow> r | ReplacePrefixMatch r \<Rightarrow> replace_path_prefix path pfx r"
  have o: "out = ?p @ (case q of None \<Rightarrow> [] | Some qs \<Rightarrow> ''?'' @ qs)"
    using out pm by (auto simp: rewrite_path_and_query_def split: option.splits)
  have "starts_with ?p ''/''"
    using f p pm by (cases pm) (auto simp: filters_wf_def replace_path_prefix_slash)
  then show "starts_with out ''/''" unfolding o by (auto simp: starts_with_iff)
  show "\<exists>p. rewrite_path_and_query path None pfx u = Some p \<and>
         out = p @ (case q of None \<Rightarrow> [] | Some qs \<Rightarrow> ''?'' @ qs)"
    using pm o by (simp add: rewrite_path_and_query_def)
next
  assume "rest \<noteq> []" "\<not> ends_with repl ''/''"
  then show "replace_path_prefix (pfx @ rest) pfx repl = repl @ (if starts_with rest ''/'' then rest else ''/'' @ rest)"
    by (simp add: replace_path_prefix_def Let_def)
next
  have "strip_prefix pfx pfx = Some []" using strip_prefix_append [of pfx "[]"] by simp
  then show "replace_path_prefix pfx pfx repl = repl" by (simp add: replace_path_prefix_def Let_def)
qed (code_simp+)

theorem rewrite_correct_witness:
  "replace_path_prefix (''/api'' @ ''/x'') ''/api'' ''/v2'' = ''/v2'' @ ''/x''"
proof -
  have "\<not> ends_with ''/v2'' ''/''" "starts_with ''/x'' ''/''" by code_simp+
  then show ?thesis
    using rewrite_correct [where rest = "''/x''" and repl = "''/v2''" and pfx = "''/api''"] by auto
qed

end
