(* ===== verification/Rust_Std.thy ===== *)
theory Rust_Std
  imports Net_Addr
begin

text \<open>
  More of the standard library, as the sources use it: \<^verbatim>\<open>str::parse\<close> for an unsigned type of a
  given width, zero-padded hexadecimal, \<^verbatim>\<open>str::replace\<close> of characters, and paths. Not code of the
  repository.
\<close>

section \<open>Integers as text\<close>

text \<open>
  \<^verbatim>\<open>from_str_radix\<close> with radix ten for an unsigned type: an optional plus sign, at least one
  digit, and every step checked for overflow.
\<close>

fun digits_loop :: "nat \<Rightarrow> nat \<Rightarrow> string \<Rightarrow> nat option" where
  "digits_loop bound acc [] = Some acc"
| "digits_loop bound acc (c # cs) =
     (case to_digit 10 c of
        None \<Rightarrow> None
      | Some d \<Rightarrow> if acc * 10 + d < bound then digits_loop bound (acc * 10 + d) cs else None)"

definition parse_unsigned :: "nat \<Rightarrow> string \<Rightarrow> nat option" where
  "parse_unsigned bound s =
     (case s of
        [] \<Rightarrow> None
      | c # cs \<Rightarrow> if c = CHR ''+'' \<and> cs \<noteq> [] then digits_loop bound 0 cs else digits_loop bound 0 s)"

definition parse_u64 :: "string \<Rightarrow> u64 option" where
  "parse_u64 s = map_option of_nat (parse_unsigned (2 ^ 64) s)"

definition hex16 :: "u64 \<Rightarrow> string" where
  "hex16 w = (let s = show_radix 16 (unat w) in replicate (16 - length s) CHR ''0'' @ s)"

lemma digits_loop_append:
  "digits_loop bound acc (xs @ ys) = Option.bind (digits_loop bound acc xs) (\<lambda>a. digits_loop bound a ys)"
  by (induction xs arbitrary: acc) (simp_all split: option.split)

lemma digits_loop_show: "n < bound \<Longrightarrow> digits_loop bound 0 (show_nat n) = Some n"
proof (induction n rule: less_induct)
  case (less n)
  show ?case
  proof (cases "n < 10")
    case True
    with less.prems show ?thesis by (simp add: show_radix.simps [of 10 n] to_digit_digit_char)
  next
    case False
    with less show ?thesis
      by (simp add: show_radix.simps [of 10 n] digits_loop_append to_digit_digit_char)
  qed
qed

lemma show_radix_head:
  assumes "1 < r" "r \<le> 16"
  shows "\<exists>d cs. d < r \<and> show_radix r n = digit_char d # cs"
proof (induction n rule: less_induct)
  case (less n)
  show ?case
  proof (cases "n < r")
    case True
    then show ?thesis using assms by (auto simp: show_radix.simps [of r n])
  next
    case False
    then have "n div r < n" using assms by (intro div_less_dividend) auto
    from less [OF this] False assms show ?thesis by (auto simp: show_radix.simps [of r n])
  qed
qed

lemma parse_unsigned_show: "n < bound \<Longrightarrow> parse_unsigned bound (show_nat n) = Some n"
proof -
  assume n: "n < bound"
  obtain d cs where d: "d < 10" "show_nat n = digit_char d # cs" using show_radix_head [of 10 n] by auto
  have "to_digit 10 CHR ''+'' = None" by code_simp
  moreover have "to_digit 10 (digit_char d) = Some d" using d(1) by (simp add: to_digit_digit_char)
  ultimately have "digit_char d \<noteq> CHR ''+''" by force
  then show ?thesis using digits_loop_show [OF n] d by (simp add: parse_unsigned_def)
qed

text \<open>Printing and parsing an unsigned 64-bit number gives the number back.\<close>

lemma parse_u64_show: "parse_u64 (show_nat (unat w)) = Some w"
proof -
  have "unat w < 2 ^ 64" using unsigned_less [of w] by simp
  from parse_unsigned_show [OF this] show ?thesis by (simp add: parse_u64_def)
qed

section \<open>Replacing characters\<close>

text \<open>\<^verbatim>\<open>str::replace\<close> of a character by a string.\<close>

definition replace_char :: "char \<Rightarrow> string \<Rightarrow> string \<Rightarrow> string" where
  "replace_char a r s = concat (map (\<lambda>c. if c = a then r else [c]) s)"

lemma replace_char_simps [simp]:
  "replace_char a r [] = []"
  "replace_char a r (c # s) = (if c = a then r else [c]) @ replace_char a r s"
  "replace_char a r (s @ t) = replace_char a r s @ replace_char a r t"
  by (simp_all add: replace_char_def)

section \<open>Paths\<close>

text \<open>\<^verbatim>\<open>Path::join\<close>: an absolute second path replaces the first.\<close>

definition path_join :: "string \<Rightarrow> string \<Rightarrow> string" where
  "path_join dir p =
     (if starts_with p ''/'' then p
      else if dir = [] \<or> ends_with dir ''/'' then dir @ p
      else dir @ ''/'' @ p)"

end
