(* ===== verification/Http_Proxy.thy ===== *)
theory Http_Proxy
  imports Http_Router Rust_Std
begin

text \<open>
  The HTTP proxy (\<^verbatim>\<open>crates/wicket-core/src/proxy.rs\<close>): construction and reload, the callbacks that
  Pingora runs for a request, their metrics, and the access log. Sessions, requests and
  responses are records of what the callbacks read from Pingora: a header list has the
  lower-case name and the text of each value in order, \<^verbatim>\<open>None\<close> where the value is not visible
  ASCII (\<^verbatim>\<open>to_str\<close> fails). The load balancers and the operations that Pingora offers on an
  upstream request are arguments. Times are in milliseconds.
\<close>

section \<open>Requests\<close>

definition HEADER_REQUEST_ID :: string where "HEADER_REQUEST_ID = ''x-request-id''"
definition HEADER_HOST :: string where "HEADER_HOST = ''host''"
definition HEADER_X_FORWARDED_FOR :: string where "HEADER_X_FORWARDED_FOR = ''x-forwarded-for''"
definition HEADER_CONTENT_LENGTH :: string where "HEADER_CONTENT_LENGTH = ''content-length''"
definition HEADER_REFERER :: string where "HEADER_REFERER = ''referer''"
definition HEADER_USER_AGENT :: string where "HEADER_USER_AGENT = ''user-agent''"
definition LISTENER_DEFAULT :: string where "LISTENER_DEFAULT = ''default''"
definition ERROR_NO_HEALTHY_BACKENDS :: string where "ERROR_NO_HEALTHY_BACKENDS = ''no_healthy_backends''"

type_synonym header_list = "(string \<times> string option) list"

record RequestHeader =
  rq_method :: string
  rq_path :: string
  rq_query :: "string option"
  rq_uri :: string
  rq_authority :: "string option"
  rq_version :: string
  rq_headers :: header_list

record ResponseHeader =
  rs_status :: u16
  rs_headers :: header_list

datatype ClientAddr = Inet SocketAddr | OtherAddr string

record Session =
  se_req_header :: RequestHeader
  se_tls_sni :: "string option"
  se_client_addr :: "ClientAddr option"
  se_response_written :: "ResponseHeader option"

datatype ErrorType =
  HTTPStatus u16 | InternalError | ConnectTimedout | ReadTimedout | WriteTimedout | ConnectRefused
| ConnectionClosed | OtherError

record WicketCtx =
  cx_route_match :: "MatchedRoute option"
  cx_start_time :: u64
  cx_request_id :: string
  cx_method :: string
  cx_upstream_connect_time :: "u64 option"
  cx_metrics_recorded :: bool

text \<open>\<^verbatim>\<open>headers.get(name).and_then(|v| v.to_str().ok())\<close>: the first value, if it is text.\<close>

definition header_str :: "header_list \<Rightarrow> string \<Rightarrow> string option" where
  "header_str headers name = Option.bind (map_of headers name) (\<lambda>v. v)"

definition request_host :: "RequestHeader \<Rightarrow> string option" where
  "request_host req =
     (case header_str (rq_headers req) HEADER_HOST of Some h \<Rightarrow> Some h | None \<Rightarrow> rq_authority req)"

definition normalize_hostname :: "string \<Rightarrow> string" where
  "normalize_hostname host =
     (let host = to_lowercase (trim_end_matches CHR ''.'' host) in
      case Option.bind (strip_prefix ''['' host) (split_once CHR '']'') of
        Some (stripped, _) \<Rightarrow> stripped
      | None \<Rightarrow> split_first CHR '':'' host)"

definition same_hostname :: "string \<Rightarrow> string \<Rightarrow> bool" where
  "same_hostname host sni = (normalize_hostname host = normalize_hostname sni)"

definition generate_request_id :: "u64 \<Rightarrow> string" where
  "generate_request_id val = ''req_'' @ hex16 val"

definition classify_http_error :: "u16 \<Rightarrow> string" where
  "classify_http_error status = (if status \<ge> 500 then ''server_error'' else ''client_error'')"

section \<open>Metrics\<close>

datatype gauge =
  CLIENT_CONNECTIONS_ACTIVE string | HTTP_REQUESTS_ACTIVE string | UPSTREAM_CONNECTIONS_ACTIVE string

datatype counter =
  CLIENT_CONNECTIONS_TOTAL string | ROUTE_NOT_FOUND_TOTAL | UPSTREAM_ERRORS_TOTAL string string
| HTTP_REQUESTS_TOTAL string string string | HTTP_ERRORS_TOTAL string string string string
| BYTES_SENT_TOTAL string | BYTES_RECEIVED_TOTAL string

datatype histogram = HTTP_REQUEST_DURATION_SECONDS string string | UPSTREAM_DURATION_SECONDS string

datatype http_metric =
  GaugeInc gauge | GaugeDec gauge | CounterInc counter | CounterAdd counter u64 | Observe histogram u64

section \<open>Access log\<close>

record AccessLogger =
  alg_path :: string
  alg_format :: AccessLogFormat

record AccessLogEntry =
  ae_remote_addr :: string
  ae_time_local :: string
  ae_method :: string
  ae_request_uri :: string
  ae_protocol :: string
  ae_status :: u16
  ae_bytes_sent :: u64
  ae_referer :: string
  ae_user_agent :: string
  ae_request_id :: string
  ae_route :: string
  ae_upstream :: string
  ae_duration_ms :: u64

datatype proxy_error = RouteError route_error | LoadBalancerError string | IoError string

definition AccessLogger_from_config ::
  "(string \<Rightarrow> string + unit) \<Rightarrow> (string \<Rightarrow> string + unit) \<Rightarrow> Config \<Rightarrow> proxy_error + AccessLogger option" where
  "AccessLogger_from_config create_dir_all open_append config =
     (let logging = cfg_logging config in
      if \<not> al_enabled (log_access logging) \<or> \<not> lf_enabled (log_files logging) then Ok None
      else
        let directory = lf_directory (log_files logging);
            path = path_join directory (lf_access (log_files logging)) in
        case create_dir_all directory of
          Inl e \<Rightarrow> Err (IoError e)
        | Inr _ \<Rightarrow>
            (case open_append path of
               Inl e \<Rightarrow> Err (IoError e)
             | Inr _ \<Rightarrow> Ok (Some \<lparr>alg_path = path, alg_format = al_format (log_access logging)\<rparr>)))"

definition escape_access_field :: "string \<Rightarrow> string" where
  "escape_access_field val =
     (let s = replace_char CHR 0x5C [CHR 0x5C, CHR 0x5C] val;
          s = replace_char CHR 0x22 [CHR 0x5C, CHR 0x22] s;
          s = replace_char CHR 0x0A [CHR 0x5C, CHR ''n''] s;
          s = replace_char CHR 0x0D [CHR 0x5C, CHR ''r''] s
      in replace_char CHR 0x09 [CHR 0x5C, CHR ''t''] s)"

definition escape_json :: "string \<Rightarrow> string" where
  "escape_json val =
     (let s = replace_char CHR 0x5C [CHR 0x5C, CHR 0x5C] val;
          s = replace_char CHR 0x22 [CHR 0x5C, CHR 0x22] s;
          s = replace_char CHR 0x0A [CHR 0x5C, CHR ''n''] s;
          s = replace_char CHR 0x0D [CHR 0x5C, CHR ''r''] s
      in replace_char CHR 0x09 [CHR 0x5C, CHR ''t''] s)"

text \<open>A double quote, and a field in double quotes.\<close>

definition dquoted :: "string \<Rightarrow> string" where
  "dquoted s = CHR 0x22 # s @ [CHR 0x22]"

definition format_combined_access_log :: "AccessLogEntry \<Rightarrow> string" where
  "format_combined_access_log entry =
     escape_access_field (ae_remote_addr entry) @ '' - - ['' @ ae_time_local entry @ ''] '' @
     dquoted (escape_access_field (ae_method entry) @ '' '' @ escape_access_field (ae_request_uri entry) @ '' '' @
       escape_access_field (ae_protocol entry)) @ '' '' @
     show_nat (unat (ae_status entry)) @ '' '' @ show_nat (unat (ae_bytes_sent entry)) @ '' '' @
     dquoted (escape_access_field (ae_referer entry)) @ '' '' @
     dquoted (escape_access_field (ae_user_agent entry)) @ '' '' @
     dquoted (escape_access_field (ae_request_id entry)) @ '' '' @
     dquoted (escape_access_field (ae_route entry)) @ '' '' @
     dquoted (escape_access_field (ae_upstream entry)) @ '' '' @
     show_nat (unat (ae_duration_ms entry))"

definition json_text :: "string \<Rightarrow> string \<Rightarrow> string" where
  "json_text key val = dquoted key @ '':'' @ dquoted (escape_json val)"

definition json_num :: "string \<Rightarrow> nat \<Rightarrow> string" where
  "json_num key val = dquoted key @ '':'' @ show_nat val"

definition format_json_access_log :: "AccessLogEntry \<Rightarrow> string" where
  "format_json_access_log entry =
     ''{'' @ json_text ''remote_addr'' (ae_remote_addr entry) @
     '','' @ json_text ''time_local'' (ae_time_local entry) @
     '','' @ json_text ''method'' (ae_method entry) @
     '','' @ json_text ''request_uri'' (ae_request_uri entry) @
     '','' @ json_text ''protocol'' (ae_protocol entry) @
     '','' @ json_num ''status'' (unat (ae_status entry)) @
     '','' @ json_num ''bytes_sent'' (unat (ae_bytes_sent entry)) @
     '','' @ json_text ''referer'' (ae_referer entry) @
     '','' @ json_text ''user_agent'' (ae_user_agent entry) @
     '','' @ json_text ''request_id'' (ae_request_id entry) @
     '','' @ json_text ''route'' (ae_route entry) @
     '','' @ json_text ''upstream'' (ae_upstream entry) @
     '','' @ json_num ''duration_ms'' (unat (ae_duration_ms entry)) @ ''}''"

text \<open>The text that \<^verbatim>\<open>AccessLogger::write\<close> appends to the file.\<close>

definition AccessLogger_write :: "AccessLogger \<Rightarrow> AccessLogEntry \<Rightarrow> string" where
  "AccessLogger_write self entry =
     (case alg_format self of
        Combined \<Rightarrow> format_combined_access_log entry
      | JsonAccess \<Rightarrow> format_json_access_log entry) @ [CHR 0x0A]"

section \<open>Construction and reload\<close>

text \<open>
  A cluster has the balancer of its strategy. The constructors of the balancers and the
  health check set-up are the fields of \<^verbatim>\<open>lb_library\<close>; \<open>'rr\<close> and \<open>'kt\<close> are their types.
\<close>

record ('rr, 'kt) UpstreamCluster =
  lb_round_robin :: "'rr option"
  lb_ketama :: "'kt option"
  lb_strategy :: LoadBalanceStrategy

record ('rr, 'kt) lb_library =
  rr_try_from_iter :: "string list \<Rightarrow> string + 'rr"
  rr_set_health_check :: "u64 \<Rightarrow> 'rr \<Rightarrow> 'rr"
  kt_try_from_iter :: "string list \<Rightarrow> string + 'kt"

record ('rr, 'kt, 'cm) WicketProxy =
  wp_router :: Router
  wp_upstreams :: "(string, ('rr, 'kt) UpstreamCluster) hashmap"
  wp_cert_manager :: "'cm option"
  wp_access_logger :: "AccessLogger option"

definition strip_scheme :: "string \<Rightarrow> string" where
  "strip_scheme b =
     (case strip_prefix ''http://'' b of
        Some addr \<Rightarrow> addr
      | None \<Rightarrow> unwrap_or (strip_prefix ''https://'' b) b)"

definition UpstreamCluster_new ::
  "('rr, 'kt) lb_library \<Rightarrow> UpstreamConfig \<Rightarrow> proxy_error + ('rr, 'kt) UpstreamCluster" where
  "UpstreamCluster_new lib config =
     (let backends = map strip_scheme (uc_backends config) in
      case uc_strategy config of
        RoundRobin \<Rightarrow>
          (case rr_try_from_iter lib backends of
             Inl e \<Rightarrow> Err (LoadBalancerError e)
           | Inr lb \<Rightarrow>
               let lb = (case uc_health_check config of
                           Some hc \<Rightarrow> rr_set_health_check lib (hc_interval hc) lb
                         | None \<Rightarrow> lb)
               in Ok \<lparr>lb_round_robin = Some lb, lb_ketama = None, lb_strategy = RoundRobin\<rparr>)
      | ConsistentHash \<Rightarrow>
          (case kt_try_from_iter lib backends of
             Inl e \<Rightarrow> Err (LoadBalancerError e)
           | Inr lb \<Rightarrow> Ok \<lparr>lb_round_robin = None, lb_ketama = Some lb, lb_strategy = ConsistentHash\<rparr>))"

text \<open>\<^verbatim>\<open>WicketProxy::build_upstreams\<close>: the loop over the configured upstreams.\<close>

fun build_clusters ::
  "('rr, 'kt) lb_library \<Rightarrow> (string, UpstreamConfig) hashmap \<Rightarrow> (string, ('rr, 'kt) UpstreamCluster) hashmap \<Rightarrow>
   proxy_error + (string, ('rr, 'kt) UpstreamCluster) hashmap" where
  "build_clusters lib [] table = Ok table"
| "build_clusters lib ((name, config) # configs) table =
     and_then (UpstreamCluster_new lib config) (\<lambda>cluster. build_clusters lib configs (hm_insert name cluster table))"

definition WicketProxy_build_upstreams ::
  "('rr, 'kt) lb_library \<Rightarrow> (string, UpstreamConfig) hashmap \<Rightarrow>
   proxy_error + (string, ('rr, 'kt) UpstreamCluster) hashmap" where
  "WicketProxy_build_upstreams lib configs = build_clusters lib configs []"

definition build_router :: "Config \<Rightarrow> proxy_error + Router" where
  "build_router config =
     (case Router_build (cfg_routes config) of Inl e \<Rightarrow> Err (RouteError e) | Inr router \<Rightarrow> Ok router)"

definition WicketProxy_new ::
  "('rr, 'kt) lb_library \<Rightarrow> (string \<Rightarrow> string + unit) \<Rightarrow> (string \<Rightarrow> string + unit) \<Rightarrow> Config \<Rightarrow>
   proxy_error + ('rr, 'kt, 'cm) WicketProxy" where
  "WicketProxy_new lib create_dir_all open_append config =
     and_then (build_router config) (\<lambda>router.
     and_then (WicketProxy_build_upstreams lib (cfg_upstreams config)) (\<lambda>upstreams.
     and_then (AccessLogger_from_config create_dir_all open_append config) (\<lambda>access_logger.
     Ok \<lparr>wp_router = router, wp_upstreams = upstreams, wp_cert_manager = None,
         wp_access_logger = access_logger\<rparr>)))"

definition with_cert_manager :: "'cm \<Rightarrow> ('rr, 'kt, 'cm) WicketProxy \<Rightarrow> ('rr, 'kt, 'cm) WicketProxy" where
  "with_cert_manager manager self = self\<lparr>wp_cert_manager := Some manager\<rparr>"

text \<open>
  \<^verbatim>\<open>apply_reload\<close>: both parts are built before either is stored, then stored one after the other;
  \<^verbatim>\<open>store_router\<close> and \<^verbatim>\<open>store_upstreams\<close> are the two stores.
\<close>

definition reload_parts ::
  "('rr, 'kt) lb_library \<Rightarrow> Config \<Rightarrow> proxy_error + Router \<times> (string, ('rr, 'kt) UpstreamCluster) hashmap" where
  "reload_parts lib config =
     and_then (build_router config) (\<lambda>router.
     and_then (WicketProxy_build_upstreams lib (cfg_upstreams config)) (\<lambda>upstreams.
     Ok (router, upstreams)))"

definition store_router :: "Router \<Rightarrow> ('rr, 'kt, 'cm) WicketProxy \<Rightarrow> ('rr, 'kt, 'cm) WicketProxy" where
  "store_router router self = self\<lparr>wp_router := router\<rparr>"

definition store_upstreams ::
  "(string, ('rr, 'kt) UpstreamCluster) hashmap \<Rightarrow> ('rr, 'kt, 'cm) WicketProxy \<Rightarrow> ('rr, 'kt, 'cm) WicketProxy" where
  "store_upstreams upstreams self = self\<lparr>wp_upstreams := upstreams\<rparr>"

definition apply_reload ::
  "('rr, 'kt) lb_library \<Rightarrow> Config \<Rightarrow> ('rr, 'kt, 'cm) WicketProxy \<Rightarrow>
   (proxy_error + unit) \<times> ('rr, 'kt, 'cm) WicketProxy" where
  "apply_reload lib config self =
     (case reload_parts lib config of
        Inl e \<Rightarrow> (Err e, self)
      | Inr (router, upstreams) \<Rightarrow> (Ok (), store_upstreams upstreams (store_router router self)))"

section \<open>Callbacks\<close>

record HttpPeer =
  hp_addr :: SocketAddr
  hp_tls :: bool
  hp_sni :: string

text \<open>What a balancer picks for a key, with at most the given number of tries; it may change between calls.\<close>

type_synonym 'lb selection = "'lb \<Rightarrow> string \<Rightarrow> nat \<Rightarrow> SocketAddr option"

definition select_peer ::
  "'rr selection \<Rightarrow> 'kt selection \<Rightarrow> ('rr, 'kt) UpstreamCluster \<Rightarrow> string \<Rightarrow> HttpPeer option" where
  "select_peer rr_select kt_select self key = do {
     addr \<leftarrow> (case lb_strategy self of
       RoundRobin \<Rightarrow> Option.bind (lb_round_robin self) (\<lambda>lb. rr_select lb key 256)
     | ConsistentHash \<Rightarrow> Option.bind (lb_ketama self) (\<lambda>lb. kt_select lb key 256));
     Some \<lparr>hp_addr = addr, hp_tls = False, hp_sni = []\<rparr>
   }"

definition get_peer ::
  "'rr selection \<Rightarrow> 'kt selection \<Rightarrow> ('rr, 'kt, 'cm) WicketProxy \<Rightarrow> string \<Rightarrow> string \<Rightarrow> HttpPeer option" where
  "get_peer rr_select kt_select self upstream_name key = do {
     cluster \<leftarrow> hm_get (wp_upstreams self) upstream_name;
     select_peer rr_select kt_select cluster key
   }"

definition new_ctx :: "u64 \<Rightarrow> u64 \<Rightarrow> WicketCtx \<times> http_metric list" where
  "new_ctx now random =
     (\<lparr>cx_route_match = None, cx_start_time = now, cx_request_id = generate_request_id random, cx_method = [],
       cx_upstream_connect_time = None, cx_metrics_recorded = False\<rparr>,
      [GaugeInc (CLIENT_CONNECTIONS_ACTIVE LISTENER_DEFAULT), CounterInc (CLIENT_CONNECTIONS_TOTAL LISTENER_DEFAULT)])"

text \<open>The header map for matching: a later value of a header replaces an earlier one.\<close>

definition collect_headers :: "header_list \<Rightarrow> (string, string) hashmap" where
  "collect_headers headers =
     fold (\<lambda>(k, v) m. case v of Some v \<Rightarrow> hm_insert (to_lowercase k) v m | None \<Rightarrow> m) headers []"

definition route_label :: "MatchedRoute \<Rightarrow> string" where
  "route_label rm = unwrap_or (mr_route_name rm) (mr_upstream rm)"

definition request_filter ::
  "('rr, 'kt, 'cm) WicketProxy \<Rightarrow> Session \<Rightarrow> WicketCtx \<Rightarrow> (ErrorType + bool) \<times> WicketCtx \<times> http_metric list" where
  "request_filter self session ctx =
     (let req_header = se_req_header session;
          ctx = (case header_str (rq_headers req_header) HEADER_REQUEST_ID of
                   Some incoming_id \<Rightarrow> ctx\<lparr>cx_request_id := incoming_id\<rparr>
                 | None \<Rightarrow> ctx);
          host = request_host req_header;
          path = rq_path req_header;
          method = rq_method req_header
      in if (case (se_tls_sni session, host) of
               (Some sni, Some host) \<Rightarrow> \<not> same_hostname host sni
             | _ \<Rightarrow> False)
         then (Err (HTTPStatus 421), ctx, [])
         else
           let ctx = ctx\<lparr>cx_method := method\<rparr>;
               router = wp_router self;
               headers = (if has_header_matchers router then collect_headers (rq_headers req_header) else []);
               route_match = match_request router host path method headers;
               metrics = (case route_match of
                            Some rm \<Rightarrow> [GaugeInc (HTTP_REQUESTS_ACTIVE (route_label rm))]
                          | None \<Rightarrow> [CounterInc ROUTE_NOT_FOUND_TOTAL])
           in (Ok False, ctx\<lparr>cx_route_match := route_match\<rparr>, metrics))"

definition upstream_peer ::
  "'rr selection \<Rightarrow> 'kt selection \<Rightarrow> u64 \<Rightarrow> ('rr, 'kt, 'cm) WicketProxy \<Rightarrow> Session \<Rightarrow> WicketCtx \<Rightarrow>
   (ErrorType + HttpPeer) \<times> WicketCtx \<times> http_metric list" where
  "upstream_peer rr_select kt_select now self session ctx =
     (case cx_route_match ctx of
        None \<Rightarrow> (Err (HTTPStatus 404), ctx, [])
      | Some route_match \<Rightarrow>
          let key = rq_path (se_req_header session);
              upstream = mr_upstream route_match in
          case get_peer rr_select kt_select self upstream key of
            None \<Rightarrow>
              (Err (HTTPStatus 503), ctx, [CounterInc (UPSTREAM_ERRORS_TOTAL upstream ERROR_NO_HEALTHY_BACKENDS)])
          | Some peer \<Rightarrow>
              (Ok peer, ctx\<lparr>cx_upstream_connect_time := Some now\<rparr>,
               [GaugeInc (UPSTREAM_CONNECTIONS_ACTIVE upstream)]))"

text \<open>
  \<^verbatim>\<open>set_raw_path\<close> and \<^verbatim>\<open>insert_header\<close> are Pingora's operations on the request that is sent
  upstream.
\<close>

definition forwarded_for :: "header_list \<Rightarrow> string \<Rightarrow> string" where
  "forwarded_for headers client_ip =
     (case map_of headers HEADER_X_FORWARDED_FOR of
        Some existing \<Rightarrow> unwrap_or existing [] @ '', '' @ client_ip
      | None \<Rightarrow> client_ip)"

definition rewrite_upstream_path ::
  "(string \<Rightarrow> RequestHeader \<Rightarrow> string + RequestHeader) \<Rightarrow> WicketCtx \<Rightarrow> RequestHeader \<Rightarrow> ErrorType + RequestHeader" where
  "rewrite_upstream_path set_raw_path ctx upstream_request =
     (case cx_route_match ctx of
        None \<Rightarrow> Ok upstream_request
      | Some route_match \<Rightarrow>
          (case mr_url_rewrite route_match of
             None \<Rightarrow> Ok upstream_request
           | Some rewrite \<Rightarrow>
               (case rewrite_path_and_query (rq_path upstream_request) (rq_query upstream_request)
                       (mr_matched_path_prefix route_match) rewrite of
                  None \<Rightarrow> Ok upstream_request
                | Some path_and_query \<Rightarrow>
                    (case set_raw_path path_and_query upstream_request of
                       Inl e \<Rightarrow> Err InternalError
                     | Inr r \<Rightarrow> Ok r))))"

definition upstream_request_filter ::
  "(string \<Rightarrow> RequestHeader \<Rightarrow> string + RequestHeader) \<Rightarrow>
   (string \<Rightarrow> string \<Rightarrow> RequestHeader \<Rightarrow> string + RequestHeader) \<Rightarrow>
   Session \<Rightarrow> RequestHeader \<Rightarrow> WicketCtx \<Rightarrow> ErrorType + RequestHeader" where
  "upstream_request_filter set_raw_path insert_header session upstream_request ctx =
     and_then (rewrite_upstream_path set_raw_path ctx upstream_request) (\<lambda>r.
     case insert_header HEADER_REQUEST_ID (cx_request_id ctx) r of
       Inl e \<Rightarrow> Err InternalError
     | Inr r \<Rightarrow>
         (case se_client_addr session of
            Some (Inet inet_addr) \<Rightarrow>
              (case insert_header HEADER_X_FORWARDED_FOR
                      (forwarded_for (rq_headers r) (show_ip (addr_ip inet_addr))) r of
                 Inl e \<Rightarrow> Err InternalError
               | Inr r \<Rightarrow> Ok r)
          | _ \<Rightarrow> Ok r))"

definition error_label :: "ErrorType \<Rightarrow> string" where
  "error_label e =
     (case e of
        ConnectTimedout \<Rightarrow> ''connect_timeout''
      | ReadTimedout \<Rightarrow> ''read_timeout''
      | WriteTimedout \<Rightarrow> ''write_timeout''
      | ConnectRefused \<Rightarrow> ''connect_refused''
      | ConnectionClosed \<Rightarrow> ''connection_closed''
      | _ \<Rightarrow> ''other'')"

definition content_length :: "header_list \<Rightarrow> u64 option" where
  "content_length headers = Option.bind (header_str headers HEADER_CONTENT_LENGTH) parse_u64"

definition remote_addr :: "Session \<Rightarrow> string" where
  "remote_addr session =
     (case se_client_addr session of
        Some (Inet addr) \<Rightarrow> show_ip (addr_ip addr)
      | Some (OtherAddr text) \<Rightarrow> text
      | None \<Rightarrow> ''-'')"

text \<open>The route and upstream labels that \<^verbatim>\<open>logging\<close> uses.\<close>

definition log_labels :: "WicketCtx \<Rightarrow> string \<times> string" where
  "log_labels ctx =
     (case cx_route_match ctx of
        Some rm \<Rightarrow> (route_label rm, mr_upstream rm)
      | None \<Rightarrow> (''unknown'', ''unknown''))"

definition logging ::
  "u64 \<Rightarrow> string \<Rightarrow> ('rr, 'kt, 'cm) WicketProxy \<Rightarrow> Session \<Rightarrow> ErrorType option \<Rightarrow> WicketCtx \<Rightarrow>
   WicketCtx \<times> http_metric list \<times> string" where
  "logging now time_local self session error ctx =
     (if cx_metrics_recorded ctx then (ctx, [], [])
      else
        let ctx = ctx\<lparr>cx_metrics_recorded := True\<rparr>;
            duration = now - cx_start_time ctx;
            req_header = se_req_header session;
            status = (case se_response_written session of Some r \<Rightarrow> rs_status r | None \<Rightarrow> 0);
            method = (if cx_method ctx = [] then rq_method req_header else cx_method ctx);
            referer = unwrap_or (header_str (rq_headers req_header) HEADER_REFERER) ''-'';
            user_agent = unwrap_or (header_str (rq_headers req_header) HEADER_USER_AGENT) ''-'';
            (route, upstream) = log_labels ctx;
            status_str = show_nat (unat status);
            sent = (case se_response_written session of Some r \<Rightarrow> content_length (rs_headers r) | None \<Rightarrow> None);
            received = content_length (rq_headers req_header);
            metrics =
              [CounterInc (HTTP_REQUESTS_TOTAL method route status_str),
               Observe (HTTP_REQUEST_DURATION_SECONDS method route) duration] @
              (if cx_route_match ctx \<noteq> None then [GaugeDec (HTTP_REQUESTS_ACTIVE route)] else []) @
              (case cx_upstream_connect_time ctx of
                 Some upstream_start \<Rightarrow>
                   [Observe (UPSTREAM_DURATION_SECONDS upstream) (now - upstream_start),
                    GaugeDec (UPSTREAM_CONNECTIONS_ACTIVE upstream)]
               | None \<Rightarrow> []) @
              (if status \<ge> 400
               then [CounterInc (HTTP_ERRORS_TOTAL method route status_str (classify_http_error status))] else []) @
              (case error of Some e \<Rightarrow> [CounterInc (UPSTREAM_ERRORS_TOTAL upstream (error_label e))] | None \<Rightarrow> []) @
              (case sent of Some bytes \<Rightarrow> [CounterAdd (BYTES_SENT_TOTAL route) bytes] | None \<Rightarrow> []) @
              (case received of Some bytes \<Rightarrow> [CounterAdd (BYTES_RECEIVED_TOTAL route) bytes] | None \<Rightarrow> []) @
              [GaugeDec (CLIENT_CONNECTIONS_ACTIVE LISTENER_DEFAULT)];
            entry = \<lparr>ae_remote_addr = remote_addr session, ae_time_local = time_local, ae_method = method,
              ae_request_uri = rq_uri req_header, ae_protocol = rq_version req_header, ae_status = status,
              ae_bytes_sent = unwrap_or sent 0, ae_referer = referer, ae_user_agent = user_agent,
              ae_request_id = cx_request_id ctx, ae_route = route, ae_upstream = upstream,
              ae_duration_ms = duration\<rparr>
        in (ctx, metrics,
            case wp_access_logger self of Some access_logger \<Rightarrow> AccessLogger_write access_logger entry | None \<Rightarrow> []))"

section \<open>The life of a request\<close>

text \<open>
  Pingora calls \<^verbatim>\<open>request_filter\<close> once, then \<^verbatim>\<open>upstream_peer\<close> for every attempt to reach an
  upstream, and \<^verbatim>\<open>logging\<close> at the end. Each call comes with the proxy as it is at that time,
  since a reload may happen between two calls. A call that is not due changes nothing.
\<close>

datatype request_phase = Fresh | Routed | Rejected | Logged

record request_state =
  q_ctx :: WicketCtx
  q_phase :: request_phase
  q_metrics :: "http_metric list"
  q_log :: string

datatype ('rr, 'kt, 'cm) callback =
  CallRequestFilter "('rr, 'kt, 'cm) WicketProxy" Session
| CallUpstreamPeer "('rr, 'kt, 'cm) WicketProxy" Session "'rr selection" "'kt selection" u64
| CallLogging "('rr, 'kt, 'cm) WicketProxy" Session "ErrorType option" u64 string

definition http_start :: "u64 \<Rightarrow> u64 \<Rightarrow> request_state" where
  "http_start now random =
     (case new_ctx now random of
        (ctx, ms) \<Rightarrow> \<lparr>q_ctx = ctx, q_phase = Fresh, q_metrics = ms, q_log = []\<rparr>)"

fun http_step :: "request_state \<Rightarrow> ('rr, 'kt, 'cm) callback \<Rightarrow> request_state" where
  "http_step q (CallRequestFilter self session) =
     (if q_phase q \<noteq> Fresh then q
      else
        (case request_filter self session (q_ctx q) of
           (r, ctx, ms) \<Rightarrow>
             q\<lparr>q_ctx := ctx, q_phase := (case r of Inl _ \<Rightarrow> Rejected | Inr _ \<Rightarrow> Routed),
               q_metrics := q_metrics q @ ms\<rparr>))"
| "http_step q (CallUpstreamPeer self session rr_select kt_select now) =
     (if q_phase q \<noteq> Routed then q
      else
        (case upstream_peer rr_select kt_select now self session (q_ctx q) of
           (r, ctx, ms) \<Rightarrow> q\<lparr>q_ctx := ctx, q_metrics := q_metrics q @ ms\<rparr>))"
| "http_step q (CallLogging self session error now time_local) =
     (case logging now time_local self session error (q_ctx q) of
        (ctx, ms, text) \<Rightarrow>
          q\<lparr>q_ctx := ctx, q_phase := Logged, q_metrics := q_metrics q @ ms, q_log := q_log q @ text\<rparr>)"

section \<open>Access log lines\<close>

definition escape_char :: "char \<Rightarrow> string" where
  "escape_char c =
     (if c = CHR 0x5C then [CHR 0x5C, CHR 0x5C]
      else if c = CHR 0x22 then [CHR 0x5C, CHR 0x22]
      else if c = CHR 0x0A then [CHR 0x5C, CHR ''n'']
      else if c = CHR 0x0D then [CHR 0x5C, CHR ''r'']
      else if c = CHR 0x09 then [CHR 0x5C, CHR ''t'']
      else [c])"

lemma escape_json_chars: "escape_json s = concat (map escape_char s)"
  by (induction s) (simp_all add: escape_json_def escape_char_def Let_def)

lemma escape_access_field_json: "escape_access_field s = escape_json s"
  by (simp add: escape_access_field_def escape_json_def)

lemma newline_notin_escape [simp]: "CHR 0x0A \<notin> set (escape_json s)"
  by (auto simp: escape_json_chars escape_char_def split: if_splits)

text \<open>Reading an escaped string up to the closing quote.\<close>

definition unescape_char :: "char \<Rightarrow> char" where
  "unescape_char c =
     (if c = CHR ''n'' then CHR 0x0A else if c = CHR ''r'' then CHR 0x0D
      else if c = CHR ''t'' then CHR 0x09 else c)"

fun read_text :: "string \<Rightarrow> (string \<times> string) option" where
  "read_text [] = None"
| "read_text (c # cs) =
     (if c = CHR 0x22 then Some ([], cs)
      else if c = CHR 0x5C
      then (case cs of
              [] \<Rightarrow> None
            | d # ds \<Rightarrow> map_option (\<lambda>(a, b). (unescape_char d # a, b)) (read_text ds))
      else map_option (\<lambda>(a, b). (c # a, b)) (read_text cs))"

lemma read_text_escape: "read_text (escape_json s @ CHR 0x22 # rest) = Some (s, rest)"
  by (induction s) (simp_all add: escape_json_chars escape_char_def unescape_char_def)

definition read_json_text :: "string \<Rightarrow> string \<Rightarrow> (string \<times> string) option" where
  "read_json_text key s =
     Option.bind (strip_prefix (dquoted key @ '':'' @ [CHR 0x22]) s) read_text"

definition read_json_num :: "string \<Rightarrow> nat \<Rightarrow> string \<Rightarrow> (nat \<times> string) option" where
  "read_json_num key bound s = do {
     r \<leftarrow> strip_prefix (dquoted key @ '':'') s;
     n \<leftarrow> parse_unsigned bound (takeWhile (\<lambda>c. to_digit 10 c \<noteq> None) r);
     Some (n, dropWhile (\<lambda>c. to_digit 10 c \<noteq> None) r)
   }"

lemma read_json_text [simp]: "read_json_text key (json_text key v @ rest) = Some (v, rest)"
proof -
  have "json_text key v @ rest = (dquoted key @ '':'' @ [CHR 0x22]) @ (escape_json v @ CHR 0x22 # rest)"
    by (simp add: json_text_def dquoted_def)
  then show ?thesis by (simp only: read_json_text_def strip_prefix_append bind.bind_lunit read_text_escape)
qed

lemma read_json_num:
  assumes "n < bound" "c = CHR '','' \<or> c = CHR ''}''"
  shows "read_json_num key bound (json_num key n @ c # rest) = Some (n, c # rest)"
proof -
  have c: "to_digit 10 CHR '','' = None" "to_digit 10 CHR ''}'' = None" by code_simp+
  have all: "\<forall>x\<in>set (show_nat n). to_digit 10 x \<noteq> None" using show_radix_digits [of 10 _ n] by auto
  have "json_num key n @ c # rest = (dquoted key @ '':'') @ (show_nat n @ c # rest)"
    by (simp add: json_num_def)
  moreover have "takeWhile (\<lambda>c. to_digit 10 c \<noteq> None) (show_nat n @ c # rest) = show_nat n"
    using all assms(2) c by (auto simp: takeWhile_append2)
  moreover have "dropWhile (\<lambda>c. to_digit 10 c \<noteq> None) (show_nat n @ c # rest) = c # rest"
    using all assms(2) c by (auto simp: dropWhile_append2)
  ultimately show ?thesis
    using parse_unsigned_show [OF assms(1)]
    by (simp only: read_json_num_def strip_prefix_append bind.bind_lunit)
qed

text \<open>Reading a whole line of the JSON log.\<close>

definition decode_json_access_log :: "string \<Rightarrow> AccessLogEntry option" where
  "decode_json_access_log s = do {
     s \<leftarrow> strip_prefix ''{'' s;
     (remote, s) \<leftarrow> read_json_text ''remote_addr'' s; s \<leftarrow> strip_prefix '','' s;
     (time, s) \<leftarrow> read_json_text ''time_local'' s; s \<leftarrow> strip_prefix '','' s;
     (mth, s) \<leftarrow> read_json_text ''method'' s; s \<leftarrow> strip_prefix '','' s;
     (uri, s) \<leftarrow> read_json_text ''request_uri'' s; s \<leftarrow> strip_prefix '','' s;
     (protocol, s) \<leftarrow> read_json_text ''protocol'' s; s \<leftarrow> strip_prefix '','' s;
     (status, s) \<leftarrow> read_json_num ''status'' (2 ^ 16) s; s \<leftarrow> strip_prefix '','' s;
     (bytes, s) \<leftarrow> read_json_num ''bytes_sent'' (2 ^ 64) s; s \<leftarrow> strip_prefix '','' s;
     (referer, s) \<leftarrow> read_json_text ''referer'' s; s \<leftarrow> strip_prefix '','' s;
     (agent, s) \<leftarrow> read_json_text ''user_agent'' s; s \<leftarrow> strip_prefix '','' s;
     (rid, s) \<leftarrow> read_json_text ''request_id'' s; s \<leftarrow> strip_prefix '','' s;
     (route, s) \<leftarrow> read_json_text ''route'' s; s \<leftarrow> strip_prefix '','' s;
     (upstream, s) \<leftarrow> read_json_text ''upstream'' s; s \<leftarrow> strip_prefix '','' s;
     (duration, s) \<leftarrow> read_json_num ''duration_ms'' (2 ^ 64) s;
     if s = ''}''
     then Some \<lparr>ae_remote_addr = remote, ae_time_local = time, ae_method = mth, ae_request_uri = uri,
       ae_protocol = protocol, ae_status = of_nat status, ae_bytes_sent = of_nat bytes, ae_referer = referer,
       ae_user_agent = agent, ae_request_id = rid, ae_route = route, ae_upstream = upstream,
       ae_duration_ms = of_nat duration\<rparr>
     else None
   }"

lemma word_number_bounds: "unat (a :: u16) < 65536" "unat (b :: u64) < 18446744073709551616"
  using unsigned_less [of a] unsigned_less [of b] by simp_all

lemma strip_prefix_char [simp]: "strip_prefix [c] (c # s) = Some s"
  by simp

lemma decode_format_json: "decode_json_access_log (format_json_access_log e) = Some e"
  unfolding decode_json_access_log_def format_json_access_log_def append_assoc
  by (simp add: read_json_num word_number_bounds del: strip_prefix.simps)

lemma newline_notin_digits [simp]: "CHR 0x0A \<notin> set (show_nat n)"
proof
  assume "CHR 0x0A \<in> set (show_nat n)"
  moreover have "to_digit 10 CHR 0x0A = None" by code_simp
  ultimately show False using show_radix_digits [of 10 "CHR 0x0A" n] by simp
qed

lemma newline_notin_json: "CHR 0x0A \<notin> set (format_json_access_log e)"
  by (simp add: format_json_access_log_def json_text_def json_num_def dquoted_def)

lemma newline_notin_combined:
  "CHR 0x0A \<notin> set (ae_time_local e) \<Longrightarrow> CHR 0x0A \<notin> set (format_combined_access_log e)"
  by (simp add: format_combined_access_log_def dquoted_def escape_access_field_json)

section \<open>Routing a request\<close>

lemma build_clusters_other:
  "build_clusters lib configs table = Ok t \<Longrightarrow> u \<notin> fst ` set configs \<Longrightarrow> hm_get t u = hm_get table u"
  by (induction lib configs table arbitrary: t rule: build_clusters.induct)
     (auto simp: and_then_Ok_iff hm_simps)

lemma build_clusters_get:
  "build_clusters lib configs table = Ok t \<Longrightarrow> hm_ok configs \<Longrightarrow> hm_get configs u = Some uc \<Longrightarrow>
   \<exists>c. UpstreamCluster_new lib uc = Ok c \<and> hm_get t u = Some c"
proof (induction lib configs table arbitrary: t rule: build_clusters.induct)
  case (2 lib name config configs table)
  then obtain c where c: "UpstreamCluster_new lib config = Ok c"
    and b: "build_clusters lib configs (hm_insert name c table) = Ok t" by (auto simp: and_then_Ok_iff)
  have ok: "hm_ok configs" "name \<notin> fst ` set configs" using 2(3) by (auto simp: hm_ok_def)
  show ?case
  proof (cases "u = name")
    case True
    then have "uc = config" using 2(4) by (simp add: hm_get_def)
    then show ?thesis using c build_clusters_other [OF b ok(2)] True by (simp add: hm_simps)
  next
    case False
    then have "hm_get configs u = Some uc" using 2(4) by (simp add: hm_get_def)
    from 2(1) [OF b ok(1) this] show ?thesis .
  qed
qed simp

lemma match_request_no_headers:
  assumes "\<not> has_header_matchers router"
  shows "match_request router host path mth headers = match_request router host path mth []"
proof -
  have "match_routes rs (host, path, mth, headers) = match_routes rs (host, path, mth, [])"
    if "\<forall>r\<in>set rs. cr_headers r = []" for rs
    using that by (induction rs) (auto simp: route_matches_def CompiledRoute_matches_def headers_match_def)
  then show ?thesis using assms by (simp add: match_request_def has_header_matchers_def list_ex_iff)
qed

lemma collect_headers_step:
  "hm_get (fold (\<lambda>(k, v) m. case v of Some v \<Rightarrow> hm_insert (to_lowercase k) v m | None \<Rightarrow> m) headers m) k = Some v \<Longrightarrow>
   hm_get m k = Some v \<or> to_lowercase k = k"
proof (induction headers arbitrary: m)
  case (Cons h headers)
  then show ?case by (cases h; cases "snd h") (fastforce simp: hm_simps split: if_splits)+
qed simp

lemma collect_headers_lower: "hm_get (collect_headers headers) k = Some v \<Longrightarrow> to_lowercase k = k"
  using collect_headers_step [of headers "[]" k v] by (simp add: collect_headers_def)

text \<open>What \<^verbatim>\<open>request_filter\<close> matches on: the header map is built lazily, without changing the answer.\<close>

definition request_key :: "Session \<Rightarrow> request_key" where
  "request_key session =
     (let req = se_req_header session in
      (request_host req, rq_path req, rq_method req, collect_headers (rq_headers req)))"

definition misdirected :: "Session \<Rightarrow> bool" where
  "misdirected session \<longleftrightarrow>
     (\<exists>sni host. se_tls_sni session = Some sni \<and> request_host (se_req_header session) = Some host \<and>
        normalize_hostname host \<noteq> normalize_hostname sni)"

lemma misdirected_case:
  "(case (se_tls_sni session, request_host (se_req_header session)) of
      (Some sni, Some host) \<Rightarrow> \<not> same_hostname host sni | _ \<Rightarrow> False) = misdirected session"
  by (auto simp: misdirected_def same_hostname_def split: option.splits)

lemma request_filter_421:
  "misdirected session \<Longrightarrow> fst (request_filter self session ctx) = Err (HTTPStatus 421)"
  unfolding request_filter_def Let_def misdirected_case by simp

lemma request_filter_route:
  assumes "\<not> misdirected session" "Router_build rs = Ok (wp_router self)"
  shows "fst (request_filter self session ctx) = Ok False \<and>
    cx_route_match (fst (snd (request_filter self session ctx))) =
      map_option (route_result (rq_path (se_req_header session))) (find (route_accepts (request_key session)) rs)"
proof -
  let ?q = "se_req_header session"
  have "match_request (wp_router self) (request_host ?q) (rq_path ?q) (rq_method ?q)
      (if has_header_matchers (wp_router self) then collect_headers (rq_headers ?q) else []) =
    match_request (wp_router self) (request_host ?q) (rq_path ?q) (rq_method ?q) (collect_headers (rq_headers ?q))"
    using match_request_no_headers [of "wp_router self" _ _ _ "collect_headers (rq_headers ?q)"]
    by (cases "has_header_matchers (wp_router self)") simp_all
  then show ?thesis
    using assms(1) unfolding request_filter_def Let_def misdirected_case
    by (simp add: match_request_find [OF assms(2)] request_key_def Let_def)
qed

lemma upstream_peer_config:
  assumes "WicketProxy_build_upstreams lib configs = Ok (wp_upstreams self)" "hm_ok configs"
    and "cx_route_match ctx = Some rm" "hm_get configs (mr_upstream rm) = Some uc"
  shows "\<exists>c. UpstreamCluster_new lib uc = Ok c \<and>
    fst (upstream_peer rr kt now self session ctx) =
      (case select_peer rr kt c (rq_path (se_req_header session)) of
         None \<Rightarrow> Err (HTTPStatus 503) | Some peer \<Rightarrow> Ok peer)"
proof -
  from build_clusters_get [OF assms(1) [unfolded WicketProxy_build_upstreams_def] assms(2,4)]
  obtain c where c: "UpstreamCluster_new lib uc = Ok c" "hm_get (wp_upstreams self) (mr_upstream rm) = Some c" by blast
  then show ?thesis
    using assms(3) by (auto simp: upstream_peer_def get_peer_def Let_def split: option.split)
qed

section \<open>Host names\<close>

lemma ascii_lower_bracket: "ascii_lower c = CHR ''['' \<longleftrightarrow> c = CHR ''[''"
  by (rule ascii_lower_eq_iff) simp_all

lemma to_lowercase_replicate: "to_lowercase (replicate n CHR ''.'') = replicate n CHR ''.''"
  by (simp add: to_lowercase_def)

lemma host_name_normalize:
  assumes "\<not> starts_with h ''[''"
  shows "\<exists>n. host_name h = normalize_hostname h @ replicate n CHR ''.''"
proof -
  define t where "t = trim_end_matches CHR ''.'' h"
  obtain n where h: "h = t @ replicate n CHR ''.''"
    unfolding t_def using trim_end_matches_decomp [of h "CHR ''.''"] ..
  have lower: "to_lowercase h = to_lowercase t @ replicate n CHR ''.''"
    unfolding h by (simp add: to_lowercase_replicate)
  have "strip_prefix ''['' (to_lowercase t) = None"
  proof (cases t)
    case (Cons c cs)
    then have "c \<noteq> CHR ''[''" using assms unfolding h by (auto simp: starts_with_iff)
    then show ?thesis using Cons by (simp add: to_lowercase_Cons ascii_lower_bracket eq_commute [of "CHR ''[''"])
  qed simp
  then have norm: "normalize_hostname h = split_first CHR '':'' (to_lowercase t)"
    by (simp add: normalize_hostname_def Let_def t_def)
  show ?thesis
  proof (cases "CHR '':'' \<in> set (to_lowercase t)")
    case True
    then have "host_name h = normalize_hostname h"
      by (simp add: host_name_def lower norm split_first_def takeWhile_append1)
    then show ?thesis by (intro exI [of _ 0]) simp
  next
    case False
    then have "CHR '':'' \<notin> set (to_lowercase t @ replicate n CHR ''.'')" by simp
    then show ?thesis using False by (intro exI [of _ n]) (simp add: host_name_def lower norm)
  qed
qed

lemma host_name_idem [simp]: "host_name (host_name h) = host_name h"
proof -
  have "map ascii_lower (takeWhile P (map ascii_lower s)) = takeWhile P (map ascii_lower s)" for P s
    by (induction s) simp_all
  then have "to_lowercase (host_name h) = host_name h"
    by (simp add: host_name_def split_first_def to_lowercase_def)
  then show ?thesis by (simp add: host_name_def)
qed

lemma host_accepts_sni:
  assumes "host_accepts p h" "normalize_hostname h = normalize_hostname sni" "\<not> starts_with h ''[''"
  shows "\<exists>n. host_accepts p (normalize_hostname sni @ replicate n CHR ''.'')"
proof -
  obtain n where n: "host_name h = normalize_hostname sni @ replicate n CHR ''.''"
    using host_name_normalize [OF assms(3)] assms(2) by auto
  have "host_accepts p (host_name h)" using assms(1) by (simp add: host_accepts_def split: option.splits)
  then show ?thesis unfolding n ..
qed

section \<open>Gauges\<close>

definition gauge_delta :: "gauge \<Rightarrow> http_metric \<Rightarrow> int" where
  "gauge_delta g m = (if m = GaugeInc g then 1 else if m = GaugeDec g then - 1 else 0)"

definition gauge_value :: "gauge \<Rightarrow> http_metric list \<Rightarrow> int" where
  "gauge_value g ms = sum_list (map (gauge_delta g) ms)"

lemma gauge_value_simps [simp]:
  "gauge_value g [] = 0"
  "gauge_value g (m # ms) = gauge_delta g m + gauge_value g ms"
  "gauge_value g (ms @ ms') = gauge_value g ms + gauge_value g ms'"
  by (simp_all add: gauge_value_def)

lemma gauge_delta_simps [simp]:
  "gauge_delta g (GaugeInc g') = (if g' = g then 1 else 0)"
  "gauge_delta g (GaugeDec g') = (if g' = g then - 1 else 0)"
  "gauge_delta g (CounterInc c) = 0" "gauge_delta g (CounterAdd c n) = 0" "gauge_delta g (Observe h d) = 0"
  by (simp_all add: gauge_delta_def)

text \<open>How often an upstream was selected for this request.\<close>

definition attempts :: "string \<Rightarrow> http_metric list \<Rightarrow> nat" where
  "attempts u ms = length (filter (\<lambda>m. m = GaugeInc (UPSTREAM_CONNECTIONS_ACTIVE u)) ms)"

lemma attempts_simps [simp]:
  "attempts u [] = 0"
  "attempts u (m # ms) = (if m = GaugeInc (UPSTREAM_CONNECTIONS_ACTIVE u) then 1 else 0) + attempts u ms"
  "attempts u (ms @ ms') = attempts u ms + attempts u ms'"
  by (simp_all add: attempts_def)

lemma metrics_distrib:
  "gauge_value g (if b then xs else ys) = (if b then gauge_value g xs else gauge_value g ys)"
  "gauge_value g (case opt of None \<Rightarrow> xs | Some y \<Rightarrow> f y) =
     (case opt of None \<Rightarrow> gauge_value g xs | Some y \<Rightarrow> gauge_value g (f y))"
  "attempts u (if b then xs else ys) = (if b then attempts u xs else attempts u ys)"
  "attempts u (case opt of None \<Rightarrow> xs | Some y \<Rightarrow> f y) =
     (case opt of None \<Rightarrow> attempts u xs | Some y \<Rightarrow> attempts u (f y))"
  "(case opt of None \<Rightarrow> c | Some y \<Rightarrow> c) = c"
  by (simp_all split: option.split)

lemma log_labels_recorded [simp]: "log_labels (ctx\<lparr>cx_metrics_recorded := b\<rparr>) = log_labels ctx"
  by (simp add: log_labels_def)

definition request_inv :: "request_state \<Rightarrow> bool" where
  "request_inv q =
     (let c = q_ctx q; ms = q_metrics q; done = cx_metrics_recorded c in
      (q_phase q = Logged \<longleftrightarrow> done) \<and>
      (q_phase q = Fresh \<or> q_phase q = Rejected \<longrightarrow> cx_route_match c = None) \<and>
      (cx_upstream_connect_time c \<noteq> None \<longrightarrow> cx_route_match c \<noteq> None) \<and>
      gauge_value (CLIENT_CONNECTIONS_ACTIVE LISTENER_DEFAULT) ms = (if done then 0 else 1) \<and>
      (\<forall>l. gauge_value (HTTP_REQUESTS_ACTIVE l) ms =
         (if \<not> done \<and> map_option route_label (cx_route_match c) = Some l then 1 else 0)) \<and>
      (\<forall>u. gauge_value (UPSTREAM_CONNECTIONS_ACTIVE u) ms =
         int (attempts u ms) - (if done \<and> attempts u ms > 0 then 1 else 0)) \<and>
      (\<forall>u. attempts u ms > 0 \<longleftrightarrow>
         cx_upstream_connect_time c \<noteq> None \<and> map_option mr_upstream (cx_route_match c) = Some u))"

lemma http_start_inv: "request_inv (http_start now random)"
  by (simp add: request_inv_def http_start_def new_ctx_def Let_def)

lemma request_filter_effect:
  assumes "request_filter self session ctx = (r, ctx', ms)"
  shows "cx_metrics_recorded ctx' = cx_metrics_recorded ctx \<and>
    cx_upstream_connect_time ctx' = cx_upstream_connect_time ctx \<and> (\<forall>u. attempts u ms = 0) \<and>
    (case r of
       Inl e \<Rightarrow> ms = [] \<and> cx_route_match ctx' = cx_route_match ctx
     | Inr _ \<Rightarrow> ms = (case cx_route_match ctx' of
                        Some rm \<Rightarrow> [GaugeInc (HTTP_REQUESTS_ACTIVE (route_label rm))]
                      | None \<Rightarrow> [CounterInc ROUTE_NOT_FOUND_TOTAL]))"
  using assms unfolding request_filter_def Let_def
  by (auto split: if_splits option.splits)

lemma step_filter_inv:
  assumes "request_inv q"
  shows "request_inv (http_step q (CallRequestFilter self session))"
proof (cases "q_phase q = Fresh")
  case True
  obtain r ctx ms where f: "request_filter self session (q_ctx q) = (r, ctx, ms)" by (cases "request_filter self session (q_ctx q)")
  show ?thesis
    using assms request_filter_effect [OF f] True
    by (cases r; cases "cx_route_match ctx") (auto simp: request_inv_def Let_def f)
qed (use assms in simp)

lemma step_peer_inv:
  assumes "request_inv q"
  shows "request_inv (http_step q (CallUpstreamPeer self session rr kt now))"
proof (cases "q_phase q = Routed")
  case True
  then show ?thesis
    using assms
    by (auto simp: request_inv_def upstream_peer_def Let_def split: option.split)
qed (use assms in simp)

lemma logging_effect:
  assumes "\<not> cx_metrics_recorded ctx" "logging now t self session error ctx = (ctx', ms, text)"
  shows "ctx' = ctx\<lparr>cx_metrics_recorded := True\<rparr> \<and> (\<forall>u. attempts u ms = 0) \<and>
    gauge_value (CLIENT_CONNECTIONS_ACTIVE l) ms = (if l = LISTENER_DEFAULT then - 1 else 0) \<and>
    gauge_value (HTTP_REQUESTS_ACTIVE l) ms = (if map_option route_label (cx_route_match ctx) = Some l then - 1 else 0) \<and>
    gauge_value (UPSTREAM_CONNECTIONS_ACTIVE l) ms =
      (if cx_upstream_connect_time ctx \<noteq> None \<and> l = snd (log_labels ctx) then - 1 else 0)"
proof -
  obtain route upstream where lab: "log_labels ctx = (route, upstream)" by (cases "log_labels ctx")
  have up: "snd (log_labels ctx) = upstream"
    and route: "cx_route_match ctx \<noteq> None \<Longrightarrow> map_option route_label (cx_route_match ctx) = Some route"
    using lab by (auto simp: log_labels_def split: option.splits)
  have ctx': "ctx' = fst (logging now t self session error ctx)"
    and ms: "ms = fst (snd (logging now t self session error ctx))" using assms(2) by simp_all
  have "gauge_value (CLIENT_CONNECTIONS_ACTIVE l) ms = (if l = LISTENER_DEFAULT then - 1 else 0)"
    unfolding ms logging_def Let_def by (simp add: assms(1) lab metrics_distrib cong: option.case_cong)
  moreover have "gauge_value (HTTP_REQUESTS_ACTIVE l) ms = (if cx_route_match ctx \<noteq> None \<and> route = l then - 1 else 0)"
    unfolding ms logging_def Let_def by (simp add: assms(1) lab metrics_distrib cong: option.case_cong)
  moreover have "gauge_value (UPSTREAM_CONNECTIONS_ACTIVE l) ms =
      (case cx_upstream_connect_time ctx of None \<Rightarrow> 0 | Some _ \<Rightarrow> if upstream = l then - 1 else 0)"
    unfolding ms logging_def Let_def by (simp add: assms(1) lab metrics_distrib cong: option.case_cong)
  moreover have "attempts u ms = 0" for u
    unfolding ms logging_def Let_def by (simp add: assms(1) lab metrics_distrib cong: option.case_cong)
  moreover have "ctx' = ctx\<lparr>cx_metrics_recorded := True\<rparr>"
    unfolding ctx' logging_def Let_def by (simp add: assms(1) lab)
  ultimately show ?thesis using route by (cases "cx_route_match ctx") (auto simp: up split: option.split)
qed

lemma step_logging_inv:
  assumes "request_inv q"
  shows "request_inv (http_step q (CallLogging self session error now t))"
proof (cases "cx_metrics_recorded (q_ctx q)")
  case True
  with assms show ?thesis by (simp add: logging_def request_inv_def Let_def)
next
  case False
  obtain ctx ms lines where l: "logging now t self session error (q_ctx q) = (ctx, ms, lines)"
    by (cases "logging now t self session error (q_ctx q)")
  note e = logging_effect [OF False l]
  have up: "attempts u (q_metrics q) > 0 \<longleftrightarrow>
      cx_upstream_connect_time (q_ctx q) \<noteq> None \<and> map_option mr_upstream (cx_route_match (q_ctx q)) = Some u" for u
    using assms by (simp add: request_inv_def Let_def)
  have "gauge_value (UPSTREAM_CONNECTIONS_ACTIVE u) ms = (if attempts u (q_metrics q) > 0 then - 1 else 0)" for u
  proof (cases "cx_route_match (q_ctx q)")
    case None
    then have "cx_upstream_connect_time (q_ctx q) = None" using assms by (auto simp: request_inv_def Let_def)
    then show ?thesis using e None up by simp
  qed (use e up in \<open>auto simp: log_labels_def\<close>)
  then show ?thesis using assms False e by (auto simp: request_inv_def Let_def l)
qed

interpretation reqs: invariant_machine http_step "\<lambda>_. True" request_inv
proof
  fix q and e :: "('rr, 'kt, 'cm) callback"
  assume "request_inv q"
  then show "request_inv (http_step q e)"
    by (cases e) (simp_all only: step_filter_inv step_peer_inv step_logging_inv)
qed

section \<open>Header values\<close>

text \<open>Visible ASCII: the header values that are text, and that can be inserted.\<close>

definition visible_char :: "char \<Rightarrow> bool" where
  "visible_char c = ((32 \<le> (of_char c :: nat) \<and> (of_char c :: nat) < 127) \<or> c = CHR 0x09)"

definition visible :: "string \<Rightarrow> bool" where
  "visible s = list_all visible_char s"

definition headers_visible :: "header_list \<Rightarrow> bool" where
  "headers_visible headers = list_all (\<lambda>(k, v). case v of Some t \<Rightarrow> visible t | None \<Rightarrow> True) headers"

text \<open>
  What \<^verbatim>\<open>insert_header\<close> promises: a text value is accepted, becomes the only value of its header,
  and nothing else changes.
\<close>

definition inserts_headers :: "(string \<Rightarrow> string \<Rightarrow> RequestHeader \<Rightarrow> string + RequestHeader) \<Rightarrow> bool" where
  "inserts_headers insert_header \<longleftrightarrow>
     (\<forall>n v r. visible v \<longrightarrow>
        (\<exists>hs. insert_header n v r = Ok (r\<lparr>rq_headers := hs\<rparr>) \<and>
           filter (\<lambda>(k, _). k = n) hs = [(n, Some v)] \<and>
           (\<forall>m. m \<noteq> n \<longrightarrow> filter (\<lambda>(k, _). k = m) hs = filter (\<lambda>(k, _). k = m) (rq_headers r))))"

lemma visible_simps [simp]:
  "visible []" "visible (c # s) \<longleftrightarrow> visible_char c \<and> visible s" "visible (s @ t) \<longleftrightarrow> visible s \<and> visible t"
  by (simp_all add: visible_def)

lemma visible_char_literals [simp]:
  "visible_char CHR ''.''" "visible_char CHR '':''" "visible_char CHR '',''" "visible_char CHR '' ''"
  "visible_char CHR ''f''" "visible_char CHR ''r''" "visible_char CHR ''e''" "visible_char CHR ''q''"
  "visible_char CHR ''_''" "visible_char CHR ''0''"
  by (simp_all add: visible_char_def)

lemma to_digit_visible: "to_digit r c \<noteq> None \<Longrightarrow> visible_char c"
  by (auto simp: to_digit_def visible_char_def Let_def split: if_splits)

lemma visible_show_radix [simp]: "2 \<le> r \<Longrightarrow> r \<le> 36 \<Longrightarrow> visible (show_radix r n)"
  unfolding visible_def list_all_iff using show_radix_digits to_digit_visible by blast

lemma visible_fmt_subslice [simp]: "visible (fmt_subslice gs)"
  by (induction gs rule: fmt_subslice.induct) simp_all

lemma visible_show_ipv4 [simp]: "visible (show_ipv4 ip)"
  by (cases ip) simp

lemma visible_show_ip [simp]: "visible (show_ip ip)"
proof (cases ip)
  case (V6 a)
  obtain i n where "zero_run 0 (0, 0) (0, 0) (segments a) = (i, n)" by (cases "zero_run 0 (0, 0) (0, 0) (segments a)")
  then show ?thesis by (cases "to_ipv4_mapped a") (simp_all add: V6 show_ipv6_def)
qed simp

lemma visible_replicate [simp]: "visible_char c \<Longrightarrow> visible (replicate n c)"
  by (induction n) simp_all

lemma visible_request_id [simp]: "visible (generate_request_id v)"
  by (simp add: generate_request_id_def hex16_def Let_def)

lemma header_str_visible: "headers_visible hs \<Longrightarrow> header_str hs n = Some v \<Longrightarrow> visible v"
  by (auto simp: headers_visible_def header_str_def list_all_iff bind_eq_Some_conv dest!: map_of_SomeD split: option.splits)

lemma request_filter_id:
  "request_filter self session ctx = (r, ctx', ms) \<Longrightarrow>
   cx_request_id ctx' = unwrap_or (header_str (rq_headers (se_req_header session)) HEADER_REQUEST_ID) (cx_request_id ctx)"
  unfolding request_filter_def Let_def by (auto split: if_splits option.splits)

lemma map_of_filter_key: "map_of xs k = (case filter (\<lambda>(k', _). k' = k) xs of [] \<Rightarrow> None | (_, v) # _ \<Rightarrow> Some v)"
  by (induction xs) auto

lemma map_of_cong_key:
  "filter (\<lambda>(k', _). k' = k) xs = filter (\<lambda>(k', _). k' = k) ys \<Longrightarrow> map_of xs k = map_of ys k"
  by (simp only: map_of_filter_key)

lemma visible_forwarded_for:
  "headers_visible hs \<Longrightarrow> visible ip \<Longrightarrow> visible (forwarded_for hs ip)"
  by (auto simp: forwarded_for_def headers_visible_def list_all_iff unwrap_or_def dest!: map_of_SomeD split: option.splits)

lemma inserted_forwarded_for:
  "(\<forall>m. m \<noteq> n \<longrightarrow> filter (\<lambda>(k, _). k = m) hs = filter (\<lambda>(k, _). k = m) hs') \<Longrightarrow>
   n \<noteq> HEADER_X_FORWARDED_FOR \<Longrightarrow> forwarded_for hs ip = forwarded_for hs' ip"
  using map_of_cong_key [of HEADER_X_FORWARDED_FOR hs hs'] by (simp add: forwarded_for_def)

section \<open>Properties\<close>

lemma WicketProxy_new_parts:
  assumes "WicketProxy_new lib create_dir open_log config = Ok self"
  shows "Router_build (cfg_routes config) = Ok (wp_router self) \<and>
    WicketProxy_build_upstreams lib (cfg_upstreams config) = Ok (wp_upstreams self)"
  using assms by (auto simp: WicketProxy_new_def and_then_Ok_iff build_router_def split: sum.splits)

text \<open>
  C16: what happens to a request under a validated configuration. A request whose TLS server
  name and host differ is answered 421. Any other request goes to the first route, in
  configuration order, that accepts its host, path, method and headers, and to the backend
  that the balancer of that route's configured upstream selects; it is answered 404 when no
  route accepts it, and 503 only when that balancer selects nothing. The lazily built header
  map does not influence the result.
\<close>

theorem http_request_served:
  assumes "validate config = Ok ()" "hm_ok (cfg_upstreams config)"
    and new: "WicketProxy_new lib create_dir open_log config = Ok self"
    and f: "request_filter self session ctx = (r, ctx', ms)"
  shows "if misdirected session then r = Err (HTTPStatus 421)
    else r = Ok False \<and>
      (case find (route_accepts (request_key session)) (cfg_routes config) of
         None \<Rightarrow> fst (upstream_peer rr kt now self session ctx') = Err (HTTPStatus 404)
       | Some route \<Rightarrow>
           cx_route_match ctx' = Some (route_result (rq_path (se_req_header session)) route) \<and>
           (\<exists>uc c. hm_get (cfg_upstreams config) (rc_upstream route) = Some uc \<and> UpstreamCluster_new lib uc = Ok c \<and>
              fst (upstream_peer rr kt now self session ctx') =
                (case select_peer rr kt c (rq_path (se_req_header session)) of
                   None \<Rightarrow> Err (HTTPStatus 503) | Some peer \<Rightarrow> Ok peer)))"
proof (cases "misdirected session")
  case True
  then show ?thesis using request_filter_421 [OF True, of self ctx] f by simp
next
  case False
  note parts = WicketProxy_new_parts [OF new]
  let ?find = "find (route_accepts (request_key session)) (cfg_routes config)"
  have r: "r = Ok False" "cx_route_match ctx' = map_option (route_result (rq_path (se_req_header session))) ?find"
    using request_filter_route [OF False conjunct1 [OF parts], of ctx] f by simp_all
  show ?thesis
  proof (cases ?find)
    case None
    then show ?thesis using False r by (simp add: upstream_peer_def)
  next
    case (Some route)
    have rm: "cx_route_match ctx' = Some (route_result (rq_path (se_req_header session)) route)" using r Some by simp
    from Some have "route \<in> set (cfg_routes config)" by (auto simp: find_Some_iff in_set_conv_nth)
    then have "rc_upstream route \<in> fst ` set (cfg_upstreams config)"
      using assms(1) by (simp add: validate_iff config_wf_def route_wf_def)
    then obtain uc where uc: "hm_get (cfg_upstreams config) (rc_upstream route) = Some uc"
      by (auto simp: hm_get_Some_iff [OF assms(2)])
    have "mr_upstream (route_result (rq_path (se_req_header session)) route) = rc_upstream route"
      by (simp add: route_result_def)
    from upstream_peer_config [OF conjunct2 [OF parts] assms(2) rm, unfolded this, OF uc, of rr kt now session]
    show ?thesis using False r rm Some uc by auto
  qed
qed

definition example_lib :: "(string list, string list) lb_library" where
  "example_lib = \<lparr>rr_try_from_iter = Inr, rr_set_health_check = (\<lambda>_ lb. lb), kt_try_from_iter = Inr\<rparr>"

definition example_http_config :: Config where
  "example_http_config = Config_default\<lparr>
     cfg_upstreams := [(''u'', \<lparr>uc_backends = [''http://10.0.0.1:80''], uc_strategy = RoundRobin, uc_health_check = None\<rparr>)],
     cfg_routes := [example_api]\<rparr>"

definition example_http_proxy :: "(string list, string list, unit) WicketProxy" where
  "example_http_proxy =
     \<lparr>wp_router = example_router,
      wp_upstreams = [(''u'', \<lparr>lb_round_robin = Some [''10.0.0.1:80''], lb_ketama = None, lb_strategy = RoundRobin\<rparr>)],
      wp_cert_manager = None, wp_access_logger = None\<rparr>"

definition example_session :: "string option \<Rightarrow> string \<Rightarrow> string \<Rightarrow> Session" where
  "example_session sni host path =
     \<lparr>se_req_header = \<lparr>rq_method = ''GET'', rq_path = path, rq_query = None, rq_uri = path, rq_authority = None,
        rq_version = ''HTTP/1.1'', rq_headers = [(''host'', Some host)]\<rparr>,
      se_tls_sni = sni, se_client_addr = Some (Inet (SocketAddrV4 (Ipv4 1 2 3 4) 5)), se_response_written = None\<rparr>"

lemma example_http_valid: "validate example_http_config = Ok ()"
  by code_simp

lemma example_http_new:
  "WicketProxy_new example_lib (\<lambda>_. Ok ()) (\<lambda>_. Ok ()) example_http_config = Ok example_http_proxy"
  by code_simp

theorem http_request_served_witness:
  "fst (upstream_peer (\<lambda>_ _ _. None) (\<lambda>_ _ _. None) 0 example_http_proxy
     (example_session (Some ''a.example.com'') ''A.example.com:443'' ''/other'')
     (fst (snd (request_filter example_http_proxy
        (example_session (Some ''a.example.com'') ''A.example.com:443'' ''/other'') (fst (new_ctx 0 0)))))) =
   Err (HTTPStatus 404)"
proof -
  let ?s = "example_session (Some ''a.example.com'') ''A.example.com:443'' ''/other''"
  obtain r ctx ms where f: "request_filter example_http_proxy ?s (fst (new_ctx 0 0)) = (r, ctx, ms)"
    by (cases "request_filter example_http_proxy ?s (fst (new_ctx 0 0))")
  have ok: "hm_ok (cfg_upstreams example_http_config)" by (simp add: example_http_config_def hm_ok_def)
  have "same_hostname ''A.example.com:443'' ''a.example.com''" by code_simp
  then have m: "\<not> misdirected ?s"
    by (simp add: misdirected_def example_session_def request_host_def header_str_def HEADER_HOST_def same_hostname_def)
  have "cx_route_match (fst (snd (request_filter example_http_proxy ?s (fst (new_ctx 0 0))))) = None" by code_simp
  then have none: "cx_route_match ctx = None" using f by simp
  from http_request_served [OF example_http_valid ok example_http_new f,
      of "\<lambda>_ _ _. None" "\<lambda>_ _ _. None" 0] m none
  show ?thesis using f by (simp split: option.splits)
qed



text \<open>
  C18: metrics of a request. However the callbacks of a request interleave with reloads, once
  it has been logged (however often), it no longer counts as an active client connection nor
  as an active request of any route. The gauge of active upstream connections, however, goes
  up with every attempt and down only once: after \<open>k\<close> attempts on an upstream, \<open>k - 1\<close> stay
  counted for ever.
\<close>

theorem request_metrics_balanced:
  "let q = foldl http_step (http_start start random) (calls @ [CallLogging self session error now time_local]) in
   gauge_value (CLIENT_CONNECTIONS_ACTIVE LISTENER_DEFAULT) (q_metrics q) = 0 \<and>
   gauge_value (HTTP_REQUESTS_ACTIVE route) (q_metrics q) = 0 \<and>
   gauge_value (UPSTREAM_CONNECTIONS_ACTIVE u) (q_metrics q) = int (attempts u (q_metrics q) - 1)"
proof -
  let ?calls = "calls @ [CallLogging self session error now time_local]"
  define q where "q = foldl http_step (http_start start random) ?calls"
  have "request_inv q"
    unfolding q_def by (rule reqs.run_inv [OF http_start_inv]) (simp add: list_all_iff)
  moreover have "q_phase q = Logged" by (simp add: q_def split: prod.split)
  ultimately have "cx_metrics_recorded (q_ctx q)"
      "gauge_value (CLIENT_CONNECTIONS_ACTIVE LISTENER_DEFAULT) (q_metrics q) = 0"
      "gauge_value (HTTP_REQUESTS_ACTIVE route) (q_metrics q) = 0"
      "gauge_value (UPSTREAM_CONNECTIONS_ACTIVE u) (q_metrics q) =
         int (attempts u (q_metrics q)) - (if attempts u (q_metrics q) > 0 then 1 else 0)"
    unfolding request_inv_def Let_def by simp_all
  then show ?thesis unfolding q_def [symmetric] Let_def by (cases "attempts u (q_metrics q)") simp_all
qed

text \<open>
  the JSON access log can be read back: every entry, whatever its fields contain, is
  recovered from its line, and no line of either format contains a line break of its own, so
  that a client cannot forge log lines.
\<close>

theorem access_log_roundtrip:
  "decode_json_access_log (format_json_access_log e) = Some e \<and>
   CHR 0x0A \<notin> set (format_json_access_log e) \<and>
   (CHR 0x0A \<notin> set (ae_time_local e) \<longrightarrow> CHR 0x0A \<notin> set (format_combined_access_log e))"
  by (simp add: decode_format_json newline_notin_json newline_notin_combined)

definition example_entry :: AccessLogEntry where
  "example_entry =
     \<lparr>ae_remote_addr = ''1.2.3.4'', ae_time_local = ''01/Jan/2025:00:00:00 +0000'', ae_method = ''GET'',
      ae_request_uri = ''/'' @ [CHR 0x0A, CHR 0x22], ae_protocol = ''HTTP/1.1'', ae_status = 200, ae_bytes_sent = 0,
      ae_referer = ''-'', ae_user_agent = ''-'', ae_request_id = ''r'', ae_route = ''api'', ae_upstream = ''u'',
      ae_duration_ms = 1\<rparr>"

theorem access_log_roundtrip_witness: "CHR 0x0A \<notin> set (format_combined_access_log example_entry)"
  using access_log_roundtrip [of example_entry] by (simp add: example_entry_def)

text \<open>
  what the upstream sees. With headers that are text and an \<^verbatim>\<open>insert_header\<close> that keeps its
  promise, the filter succeeds whenever the path rewrite does; the request identifier is the
  client's own or the generated one, and the forwarded-for header has exactly one value that
  ends with the client's address. Only the first value of a repeated forwarded-for header
  survives.
\<close>

theorem forwarded_headers:
  assumes lib: "inserts_headers insert_header"
    and f: "request_filter self session (fst (new_ctx start random)) = (r, ctx, ms)"
    and path: "rewrite_upstream_path set_raw_path ctx req = Ok req'"
    and vis: "headers_visible (rq_headers (se_req_header session))" "headers_visible (rq_headers req')"
    and client: "se_client_addr session = Some (Inet addr)"
  shows "\<exists>out. upstream_request_filter set_raw_path insert_header session req ctx = Ok out \<and>
    rq_path out = rq_path req' \<and>
    filter (\<lambda>(k, _). k = HEADER_REQUEST_ID) (rq_headers out) =
      [(HEADER_REQUEST_ID, Some (unwrap_or (header_str (rq_headers (se_req_header session)) HEADER_REQUEST_ID)
          (generate_request_id random)))] \<and>
    filter (\<lambda>(k, _). k = HEADER_X_FORWARDED_FOR) (rq_headers out) =
      [(HEADER_X_FORWARDED_FOR, Some (case map_of (rq_headers req') HEADER_X_FORWARDED_FOR of
          None \<Rightarrow> show_ip (addr_ip addr)
        | Some v \<Rightarrow> unwrap_or v [] @ '', '' @ show_ip (addr_ip addr)))]"
proof -
  let ?id = "unwrap_or (header_str (rq_headers (se_req_header session)) HEADER_REQUEST_ID) (generate_request_id random)"
  have id: "cx_request_id ctx = ?id" using request_filter_id [OF f] by (simp add: new_ctx_def)
  have "visible ?id"
    using header_str_visible [OF vis(1)] by (cases "header_str (rq_headers (se_req_header session)) HEADER_REQUEST_ID") auto
  then obtain hs where hs: "insert_header HEADER_REQUEST_ID ?id req' = Ok (req'\<lparr>rq_headers := hs\<rparr>)"
      "filter (\<lambda>(k, _). k = HEADER_REQUEST_ID) hs = [(HEADER_REQUEST_ID, Some ?id)]"
      "\<forall>m. m \<noteq> HEADER_REQUEST_ID \<longrightarrow> filter (\<lambda>(k, _). k = m) hs = filter (\<lambda>(k, _). k = m) (rq_headers req')"
    using lib unfolding inserts_headers_def by blast
  let ?xff = "forwarded_for (rq_headers req') (show_ip (addr_ip addr))"
  have ne: "HEADER_REQUEST_ID \<noteq> HEADER_X_FORWARDED_FOR"
    by (simp add: HEADER_REQUEST_ID_def HEADER_X_FORWARDED_FOR_def)
  have xff: "forwarded_for hs (show_ip (addr_ip addr)) = ?xff"
    by (rule inserted_forwarded_for [OF hs(3) ne])
  have "visible ?xff" by (rule visible_forwarded_for [OF vis(2)]) simp
  then obtain hs' where hs': "insert_header HEADER_X_FORWARDED_FOR ?xff (req'\<lparr>rq_headers := hs\<rparr>) = Ok (req'\<lparr>rq_headers := hs'\<rparr>)"
      "filter (\<lambda>(k, _). k = HEADER_X_FORWARDED_FOR) hs' = [(HEADER_X_FORWARDED_FOR, Some ?xff)]"
      "\<forall>m. m \<noteq> HEADER_X_FORWARDED_FOR \<longrightarrow> filter (\<lambda>(k, _). k = m) hs' = filter (\<lambda>(k, _). k = m) hs"
    using lib [unfolded inserts_headers_def, rule_format, of ?xff HEADER_X_FORWARDED_FOR "req'\<lparr>rq_headers := hs\<rparr>"] by auto
  then have "upstream_request_filter set_raw_path insert_header session req ctx = Ok (req'\<lparr>rq_headers := hs'\<rparr>)"
    by (simp add: upstream_request_filter_def path id hs(1) client xff)
  then show ?thesis using hs' hs(2) ne by (simp add: forwarded_for_def)
qed

definition example_insert :: "string \<Rightarrow> string \<Rightarrow> RequestHeader \<Rightarrow> string + RequestHeader" where
  "example_insert n v r = Ok (r\<lparr>rq_headers := (n, Some v) # filter (\<lambda>(k, _). k \<noteq> n) (rq_headers r)\<rparr>)"

lemma example_insert_ok: "inserts_headers example_insert"
proof -
  have "filter (\<lambda>(k, _). k = n) (filter (\<lambda>(k, _). k \<noteq> n) hs) = []" for n and hs :: header_list
    by (auto simp: filter_empty_conv)
  moreover have "filter (\<lambda>(k, _). k = m) (filter (\<lambda>(k, _). k \<noteq> n) hs) = filter (\<lambda>(k, _). k = m) hs"
    if "m \<noteq> n" for m n and hs :: header_list
    using that by (induction hs) auto
  ultimately show ?thesis by (auto simp: inserts_headers_def example_insert_def)
qed

theorem forwarded_headers_witness:
  "\<exists>out. upstream_request_filter (\<lambda>p r. Ok (r\<lparr>rq_path := p\<rparr>)) example_insert
      (example_session None ''a.example.com'' ''/'') (se_req_header (example_session None ''a.example.com'' ''/''))
      (fst (snd (request_filter example_http_proxy (example_session None ''a.example.com'' ''/'') (fst (new_ctx 0 7))))) = Ok out \<and>
    filter (\<lambda>(k, _). k = HEADER_X_FORWARDED_FOR) (rq_headers out) =
      [(HEADER_X_FORWARDED_FOR, Some (show_ip (V4 (Ipv4 1 2 3 4))))]"
proof -
  let ?s = "example_session None ''a.example.com'' ''/''"
  obtain r ctx ms where f: "request_filter example_http_proxy ?s (fst (new_ctx 0 7)) = (r, ctx, ms)"
    by (cases "request_filter example_http_proxy ?s (fst (new_ctx 0 7))")
  have "cx_route_match (fst (snd (request_filter example_http_proxy ?s (fst (new_ctx 0 7))))) = None" by code_simp
  then have "rewrite_upstream_path (\<lambda>p r. Ok (r\<lparr>rq_path := p\<rparr>)) ctx (se_req_header ?s) = Ok (se_req_header ?s)"
    using f by (simp add: rewrite_upstream_path_def)
  note h = forwarded_headers [OF example_insert_ok f this]
  have "headers_visible (rq_headers (se_req_header ?s))"
    by (simp add: example_session_def headers_visible_def visible_char_def)
  moreover have "se_client_addr ?s = Some (Inet (SocketAddrV4 (Ipv4 1 2 3 4) 5))" by (simp add: example_session_def)
  moreover have "map_of (rq_headers (se_req_header ?s)) HEADER_X_FORWARDED_FOR = None"
    by (simp add: example_session_def HEADER_X_FORWARDED_FOR_def)
  ultimately show ?thesis using h f by auto
qed

text \<open>
  reloading. A reload that fails leaves the proxy as it was; one that succeeds has the
  router and the clusters of the new configuration and keeps the certificate manager and the
  access log. A request that was routed before the reload and selects its peer after it is
  answered 503, and counted as having no healthy backends, when the new configuration has no
  such upstream: routing and peer selection do not use one snapshot.
\<close>

theorem http_reload_effect:
  assumes "apply_reload lib config self = (r, self')"
  shows "case r of
      Inl e \<Rightarrow> self' = self
    | Inr _ \<Rightarrow>
        Router_build (cfg_routes config) = Ok (wp_router self') \<and>
        WicketProxy_build_upstreams lib (cfg_upstreams config) = Ok (wp_upstreams self') \<and>
        wp_cert_manager self' = wp_cert_manager self \<and> wp_access_logger self' = wp_access_logger self \<and>
        (\<forall>rr kt now session ctx rm. cx_route_match ctx = Some rm \<longrightarrow>
           mr_upstream rm \<notin> fst ` set (cfg_upstreams config) \<longrightarrow>
           upstream_peer rr kt now self' session ctx =
             (Err (HTTPStatus 503), ctx, [CounterInc (UPSTREAM_ERRORS_TOTAL (mr_upstream rm) ERROR_NO_HEALTHY_BACKENDS)]))"
proof (cases "reload_parts lib config")
  case (Inl e)
  with assms show ?thesis by (auto simp: apply_reload_def)
next
  case (Inr p)
  then obtain router ups where p: "reload_parts lib config = Ok (router, ups)" by (cases p) auto
  then have r: "r = Ok ()" "self' = self\<lparr>wp_router := router, wp_upstreams := ups\<rparr>"
    using assms by (simp_all add: apply_reload_def store_router_def store_upstreams_def)
  have parts: "Router_build (cfg_routes config) = Ok router" "WicketProxy_build_upstreams lib (cfg_upstreams config) = Ok ups"
    using p by (auto simp: reload_parts_def and_then_Ok_iff build_router_def split: sum.splits)
  then have "hm_get ups u = None" if "u \<notin> fst ` set (cfg_upstreams config)" for u
    using build_clusters_other [of lib "cfg_upstreams config" "[]" ups u] that
    by (simp add: WicketProxy_build_upstreams_def)
  with parts r show ?thesis by (simp add: upstream_peer_def get_peer_def Let_def)
qed

theorem http_reload_effect_witness:
  "upstream_peer (\<lambda>_ _ _. None) (\<lambda>_ _ _. None) 0
     (snd (apply_reload example_lib Config_default example_http_proxy))
     (example_session None ''a.example.com'' ''/api/x'')
     ((fst (new_ctx 0 0))\<lparr>cx_route_match := Some (route_result ''/api/x'' example_api)\<rparr>) =
   (Err (HTTPStatus 503), (fst (new_ctx 0 0))\<lparr>cx_route_match := Some (route_result ''/api/x'' example_api)\<rparr>,
    [CounterInc (UPSTREAM_ERRORS_TOTAL ''u'' ERROR_NO_HEALTHY_BACKENDS)])"
proof -
  have empty: "cfg_routes Config_default = []" "cfg_upstreams Config_default = []" by (simp_all add: Config_default_def)
  obtain r self' where a: "apply_reload example_lib Config_default example_http_proxy = (r, self')"
    by (cases "apply_reload example_lib Config_default example_http_proxy")
  have "r = Ok ()"
    using a by (simp add: apply_reload_def reload_parts_def build_router_def Router_build_def empty
        WicketProxy_build_upstreams_def)
  moreover have "mr_upstream (route_result ''/api/x'' example_api) = ''u''"
    by (simp add: route_result_def example_api_def)
  ultimately show ?thesis using http_reload_effect [OF a] a empty by simp
qed

text \<open>
  header conditions and case. The header map of a request has lower-case names, the
  conditions of a route keep the case of the configuration: a route with a header condition
  that is not written in lower case matches no request at all.
\<close>

theorem mixed_case_header_never_matches:
  assumes "CompiledRoute_compile route = Ok compiled"
    and "(key, v) \<in> set (rm_headers (rc_match_rules route))" "to_lowercase key \<noteq> key"
  shows "\<not> CompiledRoute_matches compiled host path mth (collect_headers (rq_headers req))"
proof -
  have "cr_headers compiled = rm_headers (rc_match_rules route)"
    using assms(1) by (auto simp: CompiledRoute_compile_def and_then_Ok_iff)
  moreover have "hm_get (collect_headers (rq_headers req)) key \<noteq> Some v"
    using collect_headers_lower assms(3) by blast
  ultimately show ?thesis using assms(2) by (auto simp: CompiledRoute_matches_def headers_match_def list_all_iff)
qed

definition example_header_route :: RouteConfig where
  "example_header_route = example_api\<lparr>rc_match_rules := (rc_match_rules example_api)\<lparr>rm_headers := [(''X-Env'', ''prod'')]\<rparr>\<rparr>"

theorem mixed_case_header_never_matches_witness:
  "\<exists>compiled. CompiledRoute_compile example_header_route = Ok compiled \<and>
     \<not> CompiledRoute_matches compiled (Some ''a.example.com'') ''/api/x'' ''GET''
         (collect_headers [(''x-env'', Some ''prod'')])"
proof -
  have "is_ok (CompiledRoute_compile example_header_route)" by code_simp
  then obtain compiled where c: "CompiledRoute_compile example_header_route = Ok compiled" by (auto simp: is_ok_iff)
  have "(''X-Env'', ''prod'') \<in> set (rm_headers (rc_match_rules example_header_route))"
    by (simp add: example_header_route_def)
  moreover have "to_lowercase ''X-Env'' \<noteq> ''X-Env''" by code_simp
  ultimately show ?thesis
    using mixed_case_header_never_matches [OF c, of "''X-Env''" "''prod''" _ _ _
        "(se_req_header (example_session None [] []))\<lparr>rq_headers := [(''x-env'', Some ''prod'')]\<rparr>"] c by simp
qed

end
