(* ===== verification/Cert_Store.thy ===== *)
theory Cert_Store
  imports Tls_Config Rust_Std
begin

text \<open>
  Certificates in memory and on disk (\<^verbatim>\<open>cert_store.rs\<close>, \<^verbatim>\<open>cert_manager.rs\<close>, \<^verbatim>\<open>pem.rs\<close> and
  \<^verbatim>\<open>file_watcher.rs\<close> of \<^verbatim>\<open>crates/wicket-tls/src\<close>): SNI resolution, loading of PEM files and the
  watcher that reloads them. PEM and X.509 decoding and key parsing are the fields of
  \<^verbatim>\<open>pem_library\<close>; the file system is a function from paths to contents.
\<close>

section \<open>Certificate store\<close>

datatype CertResolutionOutcome = OutExact | OutWildcard | OutDefault | OutMiss | OutNoSni

record 'c CertStore =
  cs_exact :: "(string, 'c) hashmap"
  cs_wildcard :: "(string, 'c) hashmap"
  cs_default :: "'c option"

definition CertStore_new :: "'c CertStore" where
  "CertStore_new = \<lparr>cs_exact = [], cs_wildcard = [], cs_default = None\<rparr>"

definition insert_domain :: "'c \<Rightarrow> string \<Rightarrow> 'c CertStore \<Rightarrow> 'c CertStore" where
  "insert_domain cert domain self =
     (let domain_lower = to_lowercase domain in
      case strip_prefix ''*.'' domain_lower of
        Some base \<Rightarrow> self\<lparr>cs_wildcard := hm_insert base cert (cs_wildcard self)\<rparr>
      | None \<Rightarrow> self\<lparr>cs_exact := hm_insert domain_lower cert (cs_exact self)\<rparr>)"

definition CertStore_insert :: "string list \<Rightarrow> 'c \<Rightarrow> 'c CertStore \<Rightarrow> 'c CertStore" where
  "CertStore_insert domains cert self = fold (insert_domain cert) domains self"

definition set_default :: "'c \<Rightarrow> 'c CertStore \<Rightarrow> 'c CertStore" where
  "set_default cert self = self\<lparr>cs_default := Some cert\<rparr>"

definition resolve_with_outcome :: "'c CertStore \<Rightarrow> string \<Rightarrow> 'c option \<times> CertResolutionOutcome" where
  "resolve_with_outcome self sni =
     (let sni_lower = to_lowercase sni in
      case hm_get (cs_exact self) sni_lower of
        Some cert \<Rightarrow> (Some cert, OutExact)
      | None \<Rightarrow>
          (case Option.bind (map_option snd (split_once CHR ''.'' sni_lower)) (hm_get (cs_wildcard self)) of
             Some cert \<Rightarrow> (Some cert, OutWildcard)
           | None \<Rightarrow>
               (case cs_default self of
                  Some cert \<Rightarrow> (Some cert, OutDefault)
                | None \<Rightarrow> (None, OutMiss))))"

definition CertStore_resolve :: "'c CertStore \<Rightarrow> string \<Rightarrow> 'c option" where
  "CertStore_resolve self sni = fst (resolve_with_outcome self sni)"

definition CertStore_is_empty :: "'c CertStore \<Rightarrow> bool" where
  "CertStore_is_empty self = (cs_exact self = [] \<and> cs_wildcard self = [] \<and> cs_default self = None)"

definition CertStore_len :: "'c CertStore \<Rightarrow> nat" where
  "CertStore_len self = length (cs_exact self) + length (cs_wildcard self)"

section \<open>Certificate manager\<close>

datatype CertReloadStatus = ReloadSuccess | ReloadFailure

datatype AcmeRenewalStatus = RenewalSuccess | RenewalFailure | RenewalSkipped

datatype tls_metric =
  CERT_RELOAD CertReloadStatus
| ACME_RENEWAL AcmeRenewalStatus
| ACME_RENEWAL_FAILURE string string
| ACME_LAST_ATTEMPT string int
| ACME_LAST_SUCCESS string int
| CERT_EXPIRY string int
| CERT_RESOLUTION CertResolutionOutcome

record 'c CertManager =
  cm_store :: "'c CertStore"

definition CertManager_new :: "'c CertManager" where
  "CertManager_new = \<lparr>cm_store = CertStore_new\<rparr>"

definition with_store :: "'c CertStore \<Rightarrow> 'c CertManager" where
  "with_store store = \<lparr>cm_store = store\<rparr>"

definition CertManager_reload :: "'c CertStore \<Rightarrow> 'c CertManager \<Rightarrow> 'c CertManager" where
  "CertManager_reload store self = self\<lparr>cm_store := store\<rparr>"

definition CertManager_resolve :: "'c CertManager \<Rightarrow> string \<Rightarrow> 'c option" where
  "CertManager_resolve self sni = CertStore_resolve (cm_store self) sni"

definition CertManager_is_empty :: "'c CertManager \<Rightarrow> bool" where
  "CertManager_is_empty self = CertStore_is_empty (cm_store self)"

text \<open>The resolver that rustls calls in a handshake, with the server name of the client.\<close>

definition resolve_client_hello :: "'c CertManager \<Rightarrow> string option \<Rightarrow> 'c option \<times> tls_metric list" where
  "resolve_client_hello self server_name =
     (case server_name of
        None \<Rightarrow> (None, [CERT_RESOLUTION OutNoSni])
      | Some sni \<Rightarrow>
          (case resolve_with_outcome (cm_store self) sni of
             (cert, outcome) \<Rightarrow> (cert, [CERT_RESOLUTION outcome])))"

section \<open>PEM files\<close>

datatype PemError =
  ReadFile string string | NoCertificates string | NoPrivateKey string | ParseKey string | UnsupportedKeyType

record ('der, 'pkey, 'skey) pem_library =
  pem_certs :: "string \<Rightarrow> (string + 'der) list"
  pem_private_key :: "string \<Rightarrow> string + 'pkey option"
  any_supported_type :: "'pkey \<Rightarrow> string + 'skey"
  x509_not_after :: "'der \<Rightarrow> int option"

record ('der, 'skey) CertifiedKey =
  ck_cert :: "'der list"
  ck_key :: 'skey

text \<open>Opening and reading a file: its content or an error.\<close>

type_synonym file_reader = "string \<Rightarrow> string + string"

definition load_certs ::
  "('der, 'pkey, 'skey) pem_library \<Rightarrow> file_reader \<Rightarrow> string \<Rightarrow> PemError + 'der list" where
  "load_certs lib read path =
     (case read path of
        Inl e \<Rightarrow> Err (ReadFile path e)
      | Inr content \<Rightarrow>
          let certs = map projr (filter is_ok (pem_certs lib content)) in
          if certs = [] then Err (NoCertificates path) else Ok certs)"

definition load_private_key ::
  "('der, 'pkey, 'skey) pem_library \<Rightarrow> file_reader \<Rightarrow> string \<Rightarrow> PemError + 'pkey" where
  "load_private_key lib read path =
     (case read path of
        Inl e \<Rightarrow> Err (ReadFile path e)
      | Inr content \<Rightarrow>
          (case pem_private_key lib content of
             Inl e \<Rightarrow> Err (ParseKey e)
           | Inr None \<Rightarrow> Err (NoPrivateKey path)
           | Inr (Some key) \<Rightarrow> Ok key))"

definition load_certified_key ::
  "('der, 'pkey, 'skey) pem_library \<Rightarrow> file_reader \<Rightarrow> string \<Rightarrow> string \<Rightarrow>
   PemError + ('der, 'skey) CertifiedKey" where
  "load_certified_key lib read cert_path key_path =
     and_then (load_certs lib read cert_path) (\<lambda>certs.
     and_then (load_private_key lib read key_path) (\<lambda>key.
     case any_supported_type lib key of
       Inl _ \<Rightarrow> Err UnsupportedKeyType
     | Inr signing_key \<Rightarrow> Ok \<lparr>ck_cert = certs, ck_key = signing_key\<rparr>))"

definition extract_cert_expiry :: "('der, 'pkey, 'skey) pem_library \<Rightarrow> 'der \<Rightarrow> int option" where
  "extract_cert_expiry lib cert_der = x509_not_after lib cert_der"

section \<open>File watcher\<close>

datatype FileWatcherError = Notify string | NoCertificatesLoaded

definition expiry_metrics ::
  "('der, 'pkey, 'skey) pem_library \<Rightarrow> FileCertConfig \<Rightarrow> ('der, 'skey) CertifiedKey \<Rightarrow> tls_metric list" where
  "expiry_metrics lib cert_config key =
     (case ck_cert key of
        [] \<Rightarrow> []
      | cert_der # _ \<Rightarrow>
          (case extract_cert_expiry lib cert_der of
             None \<Rightarrow> []
           | Some expiry \<Rightarrow> map (\<lambda>domain. CERT_EXPIRY domain expiry) (fcc_domains cert_config)))"

text \<open>The loop of \<^verbatim>\<open>build_store\<close>: a certificate that cannot be loaded is logged and skipped.\<close>

fun build_store_loop ::
  "('der, 'pkey, 'skey) pem_library \<Rightarrow> file_reader \<Rightarrow> FileCertConfig list \<Rightarrow>
   ('der, 'skey) CertifiedKey CertStore \<Rightarrow> ('der, 'skey) CertifiedKey CertStore \<times> tls_metric list" where
  "build_store_loop lib read [] store = (store, [])"
| "build_store_loop lib read (c # cs) store =
     (case load_certified_key lib read (fcc_cert c) (fcc_key c) of
        Inr key \<Rightarrow>
          (case build_store_loop lib read cs (CertStore_insert (fcc_domains c) key store) of
             (store', ms) \<Rightarrow> (store', expiry_metrics lib c key @ ms))
      | Inl e \<Rightarrow> build_store_loop lib read cs store)"

definition build_store ::
  "('der, 'pkey, 'skey) pem_library \<Rightarrow> file_reader \<Rightarrow> FileConfig \<Rightarrow>
   (FileWatcherError + ('der, 'skey) CertifiedKey CertStore) \<times> tls_metric list" where
  "build_store lib read config =
     (case build_store_loop lib read (fc_certs config) CertStore_new of
        (store, ms) \<Rightarrow> (if CertStore_is_empty store then Err NoCertificatesLoaded else Ok store, ms))"

definition load_all ::
  "('der, 'pkey, 'skey) pem_library \<Rightarrow> file_reader \<Rightarrow> FileConfig \<Rightarrow> ('der, 'skey) CertifiedKey CertManager \<Rightarrow>
   (FileWatcherError + unit) \<times> ('der, 'skey) CertifiedKey CertManager \<times> tls_metric list" where
  "load_all lib read config manager =
     (case build_store lib read config of
        (Inl e, ms) \<Rightarrow> (Err e, manager, ms)
      | (Inr store, ms) \<Rightarrow> (Ok (), CertManager_reload store manager, ms))"

definition reload_certs ::
  "('der, 'pkey, 'skey) pem_library \<Rightarrow> file_reader \<Rightarrow> FileConfig \<Rightarrow> ('der, 'skey) CertifiedKey CertManager \<Rightarrow>
   ('der, 'skey) CertifiedKey CertManager \<times> tls_metric list" where
  "reload_certs lib read config manager =
     (case build_store lib read config of
        (Inr store, ms) \<Rightarrow> (CertManager_reload store manager, ms @ [CERT_RELOAD ReloadSuccess])
      | (Inl e, ms) \<Rightarrow> (manager, ms @ [CERT_RELOAD ReloadFailure]))"

definition is_relevant_event :: "FileConfig \<Rightarrow> string list \<Rightarrow> bool" where
  "is_relevant_event config paths =
     list_ex (\<lambda>path. list_ex (\<lambda>c. path = fcc_cert c \<or> path = fcc_key c) (fc_certs config)) paths"

text \<open>
  The watch loop: a relevant event sets the deadline 500 ms after it, replacing an earlier one;
  the timer fires when the deadline has passed and reloads once. Files are read at that time.
\<close>

record ('der, 'skey) watcher =
  w_manager :: "('der, 'skey) CertifiedKey CertManager"
  w_deadline :: "nat option"
  w_metrics :: "tls_metric list"

datatype watch_event = FsEvent "string + string list" nat | Timer nat file_reader

definition debounce_duration :: nat where
  "debounce_duration = 500"

fun watch_step ::
  "('der, 'pkey, 'skey) pem_library \<Rightarrow> FileConfig \<Rightarrow> ('der, 'skey) watcher \<Rightarrow> watch_event \<Rightarrow> ('der, 'skey) watcher" where
  "watch_step lib config w (FsEvent (Inl e) now) = w"
| "watch_step lib config w (FsEvent (Inr paths) now) =
     (if is_relevant_event config paths then w\<lparr>w_deadline := Some (now + debounce_duration)\<rparr> else w)"
| "watch_step lib config w (Timer now read) =
     (case w_deadline w of
        None \<Rightarrow> w
      | Some deadline \<Rightarrow>
          if now < deadline then w
          else
            (case reload_certs lib read config (w_manager w) of
               (manager, ms) \<Rightarrow>
                 w\<lparr>w_manager := manager, w_deadline := None, w_metrics := w_metrics w @ ms\<rparr>))"

section \<open>Resolution\<close>

text \<open>
  Reference semantics over the list of insertions: the last certificate registered for a name,
  where a wildcard is registered under its own name.
\<close>

type_synonym 'c registrations = "(string list \<times> 'c) list"

definition registered :: "'c registrations \<Rightarrow> string \<Rightarrow> 'c option" where
  "registered rs name =
     map_option snd (find (\<lambda>(domains, c). name \<in> to_lowercase ` set domains) (rev rs))"

definition store_of :: "'c registrations \<Rightarrow> 'c option \<Rightarrow> 'c CertStore" where
  "store_of rs d = (fold (\<lambda>(domains, c). CertStore_insert domains c) rs CertStore_new)\<lparr>cs_default := d\<rparr>"

definition spec_resolve :: "'c registrations \<Rightarrow> 'c option \<Rightarrow> string \<Rightarrow> 'c option" where
  "spec_resolve rs d sni =
     (case registered rs (to_lowercase sni) of
        Some c \<Rightarrow> Some c
      | None \<Rightarrow>
          (case Option.bind (split_once CHR ''.'' (to_lowercase sni)) (\<lambda>(_, parent). registered rs (''*.'' @ parent)) of
             Some c \<Rightarrow> Some c
           | None \<Rightarrow> d))"

text \<open>The name under which a store finds a registered name.\<close>

definition lookup_name :: "'c CertStore \<Rightarrow> string \<Rightarrow> 'c option" where
  "lookup_name s name =
     (case strip_prefix ''*.'' name of
        Some base \<Rightarrow> hm_get (cs_wildcard s) base
      | None \<Rightarrow> hm_get (cs_exact s) name)"

lemma lookup_insert_domain:
  "lookup_name (insert_domain c d s) name = (if name = to_lowercase d then Some c else lookup_name s name)"
  by (auto simp: lookup_name_def insert_domain_def Let_def hm_simps strip_prefix_Some split: option.splits)

lemma lookup_insert:
  "lookup_name (CertStore_insert ds c s) name = (if name \<in> to_lowercase ` set ds then Some c else lookup_name s name)"
  unfolding CertStore_insert_def by (induction ds arbitrary: s) (auto simp: lookup_insert_domain)

lemma insert_default [simp]: "cs_default (CertStore_insert ds c s) = cs_default s"
  unfolding CertStore_insert_def
  by (induction ds arbitrary: s) (simp_all add: insert_domain_def Let_def split: option.split)

lemma lookup_fold:
  "lookup_name (fold (\<lambda>(ds, c). CertStore_insert ds c) rs s) name =
     (case registered rs name of Some c \<Rightarrow> Some c | None \<Rightarrow> lookup_name s name)"
proof (induction rs arbitrary: s)
  case (Cons r rs)
  obtain ds c where r: "r = (ds, c)" by (cases r)
  have find: "find P (xs @ [x]) = (case find P xs of Some y \<Rightarrow> Some y | None \<Rightarrow> if P x then Some x else None)" for P xs and x :: "string list \<times> 'a"
    by (induction xs) auto
  show ?case by (auto simp: Cons r lookup_insert registered_def find split: option.splits)
qed (simp add: registered_def)

lemma fold_default: "cs_default (fold (\<lambda>(ds, c). CertStore_insert ds c) rs s) = cs_default s"
  by (induction rs arbitrary: s) auto

lemma lookup_new [simp]: "lookup_name CertStore_new name = None"
  by (simp add: lookup_name_def CertStore_new_def split: option.split)

lemma lookup_set_default [simp]: "lookup_name (s\<lparr>cs_default := d\<rparr>) name = lookup_name s name"
  by (simp add: lookup_name_def split: option.split)

lemma lookup_store_of: "lookup_name (store_of rs d) name = registered rs name"
  unfolding store_of_def by (simp add: lookup_fold split: option.split)

lemma exact_insert_domain:
  "hm_get (cs_exact (insert_domain c d s)) (''*.'' @ b) = hm_get (cs_exact s) (''*.'' @ b)"
proof (cases "strip_prefix ''*.'' (to_lowercase d)")
  case None
  then have "''*.'' @ b \<noteq> to_lowercase d" unfolding strip_prefix_None by metis
  then show ?thesis by (simp add: insert_domain_def Let_def None hm_simps)
qed (simp add: insert_domain_def Let_def)

lemma exact_insert: "hm_get (cs_exact (CertStore_insert ds c s)) (''*.'' @ b) = hm_get (cs_exact s) (''*.'' @ b)"
  unfolding CertStore_insert_def by (induction ds arbitrary: s) (simp_all add: exact_insert_domain del: append_Cons)

lemma exact_fold:
  "hm_get (cs_exact (fold (\<lambda>(ds, c). CertStore_insert ds c) rs s)) (''*.'' @ b) = hm_get (cs_exact s) (''*.'' @ b)"
  by (induction rs arbitrary: s) (auto simp: exact_insert simp del: append_Cons)

lemma exact_store_of: "hm_get (cs_exact (store_of rs d)) (''*.'' @ b) = None"
  unfolding store_of_def using exact_fold [of rs CertStore_new b] by (simp add: CertStore_new_def del: append_Cons)

lemma exact_lookup:
  "hm_get (cs_exact (store_of rs d)) n = (if starts_with n ''*.'' then None else registered rs n)"
proof (cases "strip_prefix ''*.'' n")
  case None
  then show ?thesis
    using lookup_store_of [of rs d n] by (simp add: lookup_name_def starts_with_def)
next
  case (Some b)
  then have "n = ''*.'' @ b" by (simp add: strip_prefix_Some)
  then show ?thesis using exact_store_of [of rs d b] Some by (simp add: starts_with_def)
qed

lemma wildcard_lookup: "hm_get (cs_wildcard (store_of rs d)) b = registered rs (''*.'' @ b)"
  using lookup_store_of [of rs d "''*.'' @ b"] by (simp add: lookup_name_def del: append_Cons)

lemma store_default [simp]: "cs_default (store_of rs d) = d"
  by (simp add: store_of_def)

lemma split_once_star: "split_once CHR ''.'' (''*.'' @ b) = Some (''*'', b)"
  by simp

lemma resolve_store_of: "CertStore_resolve (store_of rs d) sni = spec_resolve rs d sni"
proof (cases "strip_prefix ''*.'' (to_lowercase sni)")
  case None
  then show ?thesis
    unfolding CertStore_resolve_def resolve_with_outcome_def spec_resolve_def Let_def exact_lookup
    by (cases "split_once CHR ''.'' (to_lowercase sni)") (auto simp: starts_with_def wildcard_lookup split: option.splits)
next
  case (Some b)
  then have n: "to_lowercase sni = ''*.'' @ b" by (simp add: strip_prefix_Some)
  show ?thesis
    unfolding CertStore_resolve_def resolve_with_outcome_def spec_resolve_def Let_def exact_lookup n split_once_star
    by (auto simp: starts_with_def wildcard_lookup split: option.splits simp del: append_Cons)
qed

section \<open>Loading\<close>

text \<open>The registrations that the watcher makes: the certificates that load, in configuration order.\<close>

definition loaded ::
  "('der, 'pkey, 'skey) pem_library \<Rightarrow> file_reader \<Rightarrow> FileCertConfig list \<Rightarrow> ('der, 'skey) CertifiedKey registrations" where
  "loaded lib read cs =
     map (\<lambda>c. (fcc_domains c, projr (load_certified_key lib read (fcc_cert c) (fcc_key c))))
       (filter (\<lambda>c. is_ok (load_certified_key lib read (fcc_cert c) (fcc_key c))) cs)"

lemma build_store_loop_fold:
  "fst (build_store_loop lib read cs store) = fold (\<lambda>(ds, c). CertStore_insert ds c) (loaded lib read cs) store"
proof (induction cs arbitrary: store)
  case (Cons c cs)
  show ?case
  proof (cases "load_certified_key lib read (fcc_cert c) (fcc_key c)")
    case (Inr key)
    obtain s' ms where "build_store_loop lib read cs (CertStore_insert (fcc_domains c) key store) = (s', ms)"
      by (cases "build_store_loop lib read cs (CertStore_insert (fcc_domains c) key store)")
    with Inr show ?thesis using Cons [of "CertStore_insert (fcc_domains c) key store"]
      by (simp add: loaded_def)
  qed (use Cons in \<open>simp add: loaded_def\<close>)
qed (simp add: loaded_def)

lemma store_of_None: "store_of rs None = fold (\<lambda>(ds, c). CertStore_insert ds c) rs CertStore_new"
  using fold_default [of rs CertStore_new] by (simp add: store_of_def CertStore_new_def)

lemma build_store_loop_store: "fst (build_store_loop lib read cs CertStore_new) = store_of (loaded lib read cs) None"
  by (simp add: build_store_loop_fold store_of_None)

lemma insert_domain_nonempty: "\<not> CertStore_is_empty (insert_domain c d s)"
  by (auto simp: CertStore_is_empty_def insert_domain_def Let_def hm_insert_def AList.update_conv' split: option.splits
      dest: arg_cong [of _ _ length])

lemma is_empty_insert: "CertStore_is_empty (CertStore_insert ds c s) \<longleftrightarrow> CertStore_is_empty s \<and> ds = []"
proof (cases ds rule: rev_cases)
  case (snoc ds' d)
  then show ?thesis by (simp add: CertStore_insert_def insert_domain_nonempty)
qed (simp add: CertStore_insert_def)

lemma is_empty_fold:
  "CertStore_is_empty (fold (\<lambda>(ds, c). CertStore_insert ds c) rs s) \<longleftrightarrow>
   CertStore_is_empty s \<and> (\<forall>(ds, c)\<in>set rs. ds = [])"
  by (induction rs arbitrary: s) (auto simp: is_empty_insert)

lemma is_empty_new [simp]: "CertStore_is_empty CertStore_new"
  by (simp add: CertStore_is_empty_def CertStore_new_def)

lemma build_store_result:
  "fst (build_store lib read config) =
     (if \<forall>(ds, c)\<in>set (loaded lib read (fc_certs config)). ds = [] then Err NoCertificatesLoaded
      else Ok (store_of (loaded lib read (fc_certs config)) None))"
proof -
  obtain st ms where b: "build_store_loop lib read (fc_certs config) CertStore_new = (st, ms)"
    by (cases "build_store_loop lib read (fc_certs config) CertStore_new")
  then have st: "st = store_of (loaded lib read (fc_certs config)) None"
    using build_store_loop_store [of lib read "fc_certs config"] by simp
  have "CertStore_is_empty st \<longleftrightarrow> (\<forall>(ds, c)\<in>set (loaded lib read (fc_certs config)). ds = [])"
    by (simp add: st store_of_None is_empty_fold)
  then show ?thesis using st by (auto simp: build_store_def b)
qed

lemma registered_Some: "registered rs n = Some c \<Longrightarrow> \<exists>ds. (ds, c) \<in> set rs \<and> n \<in> to_lowercase ` set ds"
proof -
  assume "registered rs n = Some c"
  then obtain ds where f: "find (\<lambda>(domains, c). n \<in> to_lowercase ` set domains) (rev rs) = Some (ds, c)"
    by (auto simp: registered_def)
  then have "(ds, c) \<in> set (rev rs)" "n \<in> to_lowercase ` set ds"
    unfolding find_Some_iff by (metis nth_mem, metis case_prod_conv)
  then show ?thesis by auto
qed

lemma loaded_iff:
  "(ds, key) \<in> set (loaded lib read cs) \<longleftrightarrow>
   (\<exists>c\<in>set cs. ds = fcc_domains c \<and> load_certified_key lib read (fcc_cert c) (fcc_key c) = Ok key)"
  by (auto simp: loaded_def is_ok_iff image_iff)

section \<open>Properties\<close>

text \<open>
  C19: certificates from files. Loading replaces the certificates exactly when at least one
  certificate with a domain loads, and otherwise leaves them as they are. A handshake then gets
  the certificate registered last for the exact name, else the one for the wildcard of its
  parent domain, whatever the case of the names; nothing for another name. A certificate that
  is configured without domains, which validation accepts as the default certificate, is never
  served, and if it is the only one loading fails.
\<close>

theorem file_certs_served:
  "(case load_all lib read config manager of
      (Inl e, manager', ms) \<Rightarrow>
        manager' = manager \<and> (\<forall>(ds, key)\<in>set (loaded lib read (fc_certs config)). ds = [])
    | (Inr _, manager', ms) \<Rightarrow>
        CertManager_resolve manager' sni = spec_resolve (loaded lib read (fc_certs config)) None sni \<and>
        (\<forall>key. CertManager_resolve manager' sni = Some key \<longrightarrow>
           (\<exists>c\<in>set (fc_certs config). fcc_domains c \<noteq> [] \<and>
              load_certified_key lib read (fcc_cert c) (fcc_key c) = Ok key)))"
proof -
  let ?rs = "loaded lib read (fc_certs config)"
  obtain r ms where b: "build_store lib read config = (r, ms)" by (cases "build_store lib read config")
  have some: "\<exists>c\<in>set (fc_certs config). fcc_domains c \<noteq> [] \<and> load_certified_key lib read (fcc_cert c) (fcc_key c) = Ok key"
    if "spec_resolve ?rs None sni = Some key" for key
  proof -
    from that obtain n where "registered ?rs n = Some key"
      by (auto simp: spec_resolve_def bind_eq_Some_conv split: option.splits prod.splits)
    from registered_Some [OF this] show ?thesis by (force simp: loaded_iff)
  qed
  show ?thesis
  proof (cases "\<forall>(ds, c)\<in>set ?rs. ds = []")
    case True
    then have "r = Err NoCertificatesLoaded" using build_store_result [of lib read config] b by simp
    then show ?thesis using True by (simp add: load_all_def b)
  next
    case False
    then have "r = Ok (store_of ?rs None)" using build_store_result [of lib read config] b by auto
    then show ?thesis
      using some by (simp add: load_all_def b CertManager_resolve_def CertManager_reload_def resolve_store_of)
  qed
qed

definition example_pem :: "(string, string, string) pem_library" where
  "example_pem =
     \<lparr>pem_certs = (\<lambda>s. [Inr s]), pem_private_key = (\<lambda>s. Inr (Some s)), any_supported_type = Inr,
      x509_not_after = (\<lambda>_. Some 0)\<rparr>"

definition example_files :: FileConfig where
  "example_files =
     \<lparr>fc_watch = True, fc_poll_interval_secs = 30,
      fc_certs = [\<lparr>fcc_name = ''a'', fcc_cert = ''/tls/a/tls.crt'', fcc_key = ''/tls/a/tls.key'',
                   fcc_domains = [''*.Example.com'']\<rparr>]\<rparr>"

lemma example_files_load:
  "load_all example_pem Inr example_files CertManager_new =
     (Ok (), \<lparr>cm_store = \<lparr>cs_exact = [],
        cs_wildcard = [(''example.com'', \<lparr>ck_cert = [''/tls/a/tls.crt''], ck_key = ''/tls/a/tls.key''\<rparr>)],
        cs_default = None\<rparr>\<rparr>, [CERT_EXPIRY ''*.Example.com'' 0])"
  by code_simp

theorem file_certs_served_witness:
  "\<exists>c\<in>set (fc_certs example_files). fcc_domains c \<noteq> [] \<and>
     load_certified_key example_pem Inr (fcc_cert c) (fcc_key c) =
       Ok \<lparr>ck_cert = [''/tls/a/tls.crt''], ck_key = ''/tls/a/tls.key''\<rparr>"
proof -
  have "CertManager_resolve (fst (snd (load_all example_pem Inr example_files CertManager_new))) ''API.example.com'' =
      Some \<lparr>ck_cert = [''/tls/a/tls.crt''], ck_key = ''/tls/a/tls.key''\<rparr>"
    unfolding example_files_load by code_simp
  then show ?thesis
    using file_certs_served [where lib = example_pem and read = Inr and config = example_files
        and manager = CertManager_new and sni = "''API.example.com''"]
    by (simp add: example_files_load)
qed



end
