(* ===== verification/Acme.thy ===== *)
theory Acme
  imports Cert_Store
begin

text \<open>
  Automatic certificates (\<^verbatim>\<open>acme/storage.rs\<close>, \<^verbatim>\<open>acme/cloudflare.rs\<close> and \<^verbatim>\<open>acme/mod.rs\<close> of
  \<^verbatim>\<open>crates/wicket-tls/src\<close>): the storage on disk, the DNS records of the challenges, and the
  provider that obtains, loads and renews certificates. The ACME server, the DNS service and
  the libraries for keys, JSON and X.509 are the fields of the environment record; times are
  seconds since the epoch.
\<close>

section \<open>Storage\<close>

datatype StorageError = StorageIo string | StorageJson string | CertNotFound string

record StoredCert =
  sc_cert_pem :: string
  sc_key_pem :: string
  sc_expiry :: int
  sc_domains :: "string list"

record CertMeta =
  me_expiry :: int
  me_domains :: "string list"
  me_created_at :: int

record AcmeStorage =
  sto_base_path :: string
  sto_staging :: bool

text \<open>Files with content and permission bits; directories are implicit.\<close>

type_synonym disk = "(string, string \<times> nat) hashmap"

datatype disk_op = WriteFile string string nat | RenameFile string string

fun apply_op :: "disk_op \<Rightarrow> disk \<Rightarrow> disk" where
  "apply_op (WriteFile path content mode) d = hm_insert path (content, mode) d"
| "apply_op (RenameFile from to) d =
     (case hm_get d from of Some f \<Rightarrow> hm_insert to f (hm_remove from d) | None \<Rightarrow> d)"

definition env_name :: "AcmeStorage \<Rightarrow> string" where
  "env_name self = (if sto_staging self then ''staging'' else ''production'')"

definition safe_domain :: "string \<Rightarrow> string" where
  "safe_domain domain =
     map (\<lambda>c. if c = CHR ''/'' \<or> c = CHR 0x5C \<or> c = CHR 0x00 then CHR ''_'' else c) domain"

definition cert_path :: "AcmeStorage \<Rightarrow> string \<Rightarrow> string" where
  "cert_path self domain =
     path_join (path_join (path_join (sto_base_path self) ''certs'') (env_name self)) (safe_domain domain)"

definition account_path :: "AcmeStorage \<Rightarrow> string" where
  "account_path self = path_join (sto_base_path self) (''account.'' @ env_name self @ ''.json'')"

text \<open>
  \<^verbatim>\<open>atomic_write\<close> of a file in a directory: write a temporary file beside it, then rename. The
  modes are 0600 (hexadecimal 180) and 0644 (hexadecimal 1A4).
\<close>

definition atomic_write :: "string \<Rightarrow> string \<Rightarrow> string \<Rightarrow> nat \<Rightarrow> disk_op list" where
  "atomic_write parent file_name data mode =
     (let temp_path = path_join parent (''.'' @ file_name @ ''.tmp'') in
      [WriteFile temp_path data mode, RenameFile temp_path (path_join parent file_name)])"

text \<open>
  A sequence of disk operations stops at the first one that fails; \<open>n\<close> is the number of
  operations that succeed.
\<close>

definition run_ops :: "nat \<Rightarrow> disk_op list \<Rightarrow> disk \<Rightarrow> disk" where
  "run_ops n ops d = fold apply_op (take n ops) d"

definition disk_read :: "(string \<Rightarrow> string option) \<Rightarrow> disk \<Rightarrow> string \<Rightarrow> StorageError + string" where
  "disk_read io_error d path =
     (case io_error path of
        Some e \<Rightarrow> Err (StorageIo e)
      | None \<Rightarrow>
          (case hm_get d path of Some (content, _) \<Rightarrow> Ok content | None \<Rightarrow> Err (StorageIo ''not found'')))"

definition load_account :: "(string \<Rightarrow> string option) \<Rightarrow> AcmeStorage \<Rightarrow> disk \<Rightarrow> StorageError + string option" where
  "load_account io_error self d =
     (let path = account_path self in
      if \<not> hm_contains d path then Ok None
      else and_then (disk_read io_error d path) (\<lambda>creds. Ok (Some creds)))"

definition save_account_ops :: "AcmeStorage \<Rightarrow> string \<Rightarrow> disk_op list" where
  "save_account_ops self credentials_json =
     atomic_write (sto_base_path self) (''account.'' @ env_name self @ ''.json'') credentials_json 0x180"

definition load_cert ::
  "(string \<Rightarrow> string option) \<Rightarrow> (string \<Rightarrow> string + CertMeta) \<Rightarrow> AcmeStorage \<Rightarrow> string \<Rightarrow> disk \<Rightarrow>
   StorageError + StoredCert option" where
  "load_cert io_error from_json self primary_domain d =
     (let cert_dir = cert_path self primary_domain;
          cert_path = path_join cert_dir ''cert.pem'';
          key_path = path_join cert_dir ''key.pem'';
          meta_path = path_join cert_dir ''meta.json''
      in if \<not> hm_contains d cert_path \<or> \<not> hm_contains d key_path \<or> \<not> hm_contains d meta_path then Ok None
         else
           and_then (disk_read io_error d cert_path) (\<lambda>cert_pem.
           and_then (disk_read io_error d key_path) (\<lambda>key_pem.
           and_then (disk_read io_error d meta_path) (\<lambda>meta_json.
           case from_json meta_json of
             Inl e \<Rightarrow> Err (StorageJson e)
           | Inr meta \<Rightarrow>
               Ok (Some \<lparr>sc_cert_pem = cert_pem, sc_key_pem = key_pem, sc_expiry = me_expiry meta,
                         sc_domains = me_domains meta\<rparr>)))))"

definition save_cert_ops :: "AcmeStorage \<Rightarrow> string \<Rightarrow> StoredCert \<Rightarrow> string \<Rightarrow> disk_op list" where
  "save_cert_ops self primary_domain cert meta_json =
     (let cert_dir = cert_path self primary_domain in
      atomic_write cert_dir ''cert.pem'' (sc_cert_pem cert) 0x1A4 @
      atomic_write cert_dir ''key.pem'' (sc_key_pem cert) 0x180 @
      atomic_write cert_dir ''meta.json'' meta_json 0x1A4)"

definition save_cert ::
  "nat \<Rightarrow> (CertMeta \<Rightarrow> string + string) \<Rightarrow> int \<Rightarrow> AcmeStorage \<Rightarrow> string \<Rightarrow> StoredCert \<Rightarrow> disk \<Rightarrow>
   (StorageError + unit) \<times> disk" where
  "save_cert n to_json now self primary_domain cert d =
     (let meta = \<lparr>me_expiry = sc_expiry cert, me_domains = sc_domains cert, me_created_at = now\<rparr> in
      case to_json meta of
        Inl e \<Rightarrow> (Err (if n < 4 then StorageIo ''write failed'' else StorageJson e), run_ops n (take 4 (save_cert_ops self primary_domain cert [])) d)
      | Inr meta_json \<Rightarrow>
          let ops = save_cert_ops self primary_domain cert meta_json in
          (if n < length ops then Err (StorageIo ''write failed'') else Ok (), run_ops n ops d))"

definition seconds_per_day :: int where
  "seconds_per_day = 86400"

definition needs_renewal ::
  "(string \<Rightarrow> string option) \<Rightarrow> (string \<Rightarrow> string + CertMeta) \<Rightarrow> int \<Rightarrow> AcmeStorage \<Rightarrow> string \<Rightarrow> u32 \<Rightarrow> disk \<Rightarrow>
   StorageError + bool" where
  "needs_renewal io_error from_json now self primary_domain days_before d =
     and_then (load_cert io_error from_json self primary_domain d) (\<lambda>stored.
     case stored of
       None \<Rightarrow> Ok True
     | Some cert \<Rightarrow>
         let renewal_threshold = now + int (unat days_before) * seconds_per_day in
         Ok (sc_expiry cert < renewal_threshold))"

section \<open>DNS\<close>

datatype CloudflareError =
  CfRequest string | CfApi int string | ZoneNotFound string | UnexpectedResponse | InvalidApiToken | TokenFileRead string

text \<open>
  The client: listing, creating and deleting TXT records in a zone whose state is \<open>'z\<close>, and
  the lookup of a zone by name.
\<close>

record 'z dns_service =
  dns_zones :: "string \<Rightarrow> CloudflareError + string list"
  list_txt_records :: "string \<Rightarrow> string \<Rightarrow> 'z \<Rightarrow> CloudflareError + string list"
  create_txt_record :: "string \<Rightarrow> string \<Rightarrow> string \<Rightarrow> 'z \<Rightarrow> (CloudflareError + string) \<times> 'z"
  delete_txt_record :: "string \<Rightarrow> string \<Rightarrow> 'z \<Rightarrow> (CloudflareError + unit) \<times> 'z"

text \<open>\<^verbatim>\<open>split('.')\<close> and \<^verbatim>\<open>join(".")\<close>.\<close>

fun split_dots :: "string \<Rightarrow> string list" where
  "split_dots [] = [[]]"
| "split_dots (c # cs) =
     (if c = CHR ''.'' then [] # split_dots cs
      else (case split_dots cs of p # ps \<Rightarrow> (c # p) # ps | [] \<Rightarrow> [[c]]))"

fun join_dots :: "string list \<Rightarrow> string" where
  "join_dots [] = []"
| "join_dots [p] = p"
| "join_dots (p # ps) = p @ ''.'' @ join_dots ps"

text \<open>The loop of \<^verbatim>\<open>get_zone_id\<close>: progressively shorter domains, never a single label.\<close>

fun zone_loop :: "(string \<Rightarrow> CloudflareError + string list) \<Rightarrow> string \<Rightarrow> string list \<Rightarrow> CloudflareError + string" where
  "zone_loop zones domain (p # q # ps) =
     and_then (zones (join_dots (p # q # ps))) (\<lambda>result.
     case result of
       zone # _ \<Rightarrow> Ok zone
     | [] \<Rightarrow> zone_loop zones domain (q # ps))"
| "zone_loop zones domain _ = Err (ZoneNotFound domain)"

definition get_zone_id :: "(string \<Rightarrow> CloudflareError + string list) \<Rightarrow> string \<Rightarrow> CloudflareError + string" where
  "get_zone_id zones domain = zone_loop zones domain (split_dots domain)"

definition CloudflareClient_new :: "(string \<Rightarrow> bool) \<Rightarrow> string \<Rightarrow> CloudflareError + string" where
  "CloudflareClient_new header_ok api_token =
     (let auth_header = ''Bearer '' @ trim api_token in
      if header_ok auth_header then Ok auth_header else Err InvalidApiToken)"

section \<open>Provider\<close>

datatype AcmeError =
  StorageErr StorageError | CloudflareErr CloudflareError | AcmeErr string | JsonErr string | IoErr string
| PemErr PemError | RcgenErr string | Base64Err string | ConfigErr string | NoChallenge | OrderFailed string
| NoAcmeCertificates

definition acme_failure_reason :: "AcmeError \<Rightarrow> string" where
  "acme_failure_reason error =
     (case error of
        StorageErr _ \<Rightarrow> ''storage''
      | CloudflareErr _ \<Rightarrow> ''dns''
      | AcmeErr _ \<Rightarrow> ''acme_api''
      | JsonErr _ \<Rightarrow> ''json''
      | IoErr _ \<Rightarrow> ''io''
      | PemErr _ \<Rightarrow> ''pem''
      | RcgenErr _ \<Rightarrow> ''csr''
      | Base64Err _ \<Rightarrow> ''base64''
      | ConfigErr _ \<Rightarrow> ''config''
      | NoChallenge \<Rightarrow> ''no_challenge''
      | OrderFailed _ \<Rightarrow> ''order_failed''
      | NoAcmeCertificates \<Rightarrow> ''no_certificates'')"

text \<open>
  An order at the ACME server: its authorizations (identifier, \<^verbatim>\<open>None\<close> if it is not a DNS name,
  the value of the DNS challenge if there is one, and what notifying the server returns), and
  the outcomes of the later calls. \<^verbatim>\<open>or_ready\<close> is true for an order that became invalid.
\<close>

record authorization =
  az_valid :: bool
  az_dns_name :: "string option"
  az_dns_value :: "string option"
  az_set_ready :: "string + unit"

record acme_order =
  or_authorizations :: "(string + authorization) list"
  or_ready :: "string + bool"
  or_summary :: "string + string"
  or_finalize :: "u8 list \<Rightarrow> string + unit"
  or_certificate :: "string + string"

record ('acct, 'z, 'der, 'pkey, 'skey) acme_env =
  ev_now :: int
  ev_io_error :: "string \<Rightarrow> string option"
  ev_disk_ops :: nat
  ev_temp_error :: "string option"
  ev_meta_from_json :: "string \<Rightarrow> string + CertMeta"
  ev_meta_to_json :: "CertMeta \<Rightarrow> string + string"
  ev_pem :: "('der, 'pkey, 'skey) pem_library"
  ev_server_url :: "bool \<Rightarrow> string"
  ev_from_credentials :: "string \<Rightarrow> AcmeError + 'acct"
  ev_create_account :: "string list \<Rightarrow> string \<Rightarrow> AcmeError + 'acct \<times> string"
  ev_new_order :: "'acct \<Rightarrow> string list \<Rightarrow> string + acme_order"
  ev_read_file :: "string \<Rightarrow> string + string"
  ev_env_var :: "string \<Rightarrow> string option"
  ev_header_ok :: "string \<Rightarrow> bool"
  ev_dns :: "'z dns_service"
  ev_csr :: "string list \<Rightarrow> string + string \<times> string"
  ev_base64 :: "string \<Rightarrow> string + u8 list"
  ev_expiry :: "string \<Rightarrow> int option"

record AcmeProvider =
  ap_config :: AcmeConfig
  ap_storage :: AcmeStorage
  ap_auto_tls_domains :: "AutoTlsDomain list"

definition provider_all_certs :: "AcmeProvider \<Rightarrow> AcmeCertConfig list" where
  "provider_all_certs self = all_certs_with_providers (ap_config self) (ap_auto_tls_domains self)"

definition AcmeProvider_build :: "AcmeConfig \<Rightarrow> AutoTlsDomain list \<Rightarrow> AcmeProvider" where
  "AcmeProvider_build config auto_tls_domains =
     \<lparr>ap_config = config,
      ap_storage = \<lparr>sto_base_path = acme_storage config, sto_staging = acme_staging config\<rparr>,
      ap_auto_tls_domains = auto_tls_domains\<rparr>"

definition get_or_create_account ::
  "('acct, 'z, 'der, 'pkey, 'skey) acme_env \<Rightarrow> AcmeProvider \<Rightarrow> disk \<Rightarrow> (AcmeError + 'acct) \<times> disk" where
  "get_or_create_account env self d =
     (let server_url = ev_server_url env (acme_staging (ap_config self)) in
      case load_account (ev_io_error env) (ap_storage self) d of
        Inl e \<Rightarrow> (Err (StorageErr e), d)
      | Inr (Some creds_json) \<Rightarrow> (ev_from_credentials env creds_json, d)
      | Inr None \<Rightarrow>
          let email = acme_email (ap_config self);
              contact = (if email = [] then [] else [''mailto:'' @ email]) in
          case ev_create_account env contact server_url of
            Inl e \<Rightarrow> (Err e, d)
          | Inr (account, creds_json) \<Rightarrow>
              let ops = save_account_ops (ap_storage self) creds_json in
              (if ev_disk_ops env < length ops then Err (StorageErr (StorageIo ''write failed'')) else Ok account,
               run_ops (ev_disk_ops env) ops d))"

definition load_stored_cert ::
  "('acct, 'z, 'der, 'pkey, 'skey) acme_env \<Rightarrow> StoredCert \<Rightarrow> AcmeError + ('der, 'skey) CertifiedKey" where
  "load_stored_cert env stored =
     (case ev_temp_error env of
        Some e \<Rightarrow> Err (IoErr e)
      | None \<Rightarrow>
          let read = (\<lambda>p. if p = ''cert'' then Ok (sc_cert_pem stored) else Ok (sc_key_pem stored)) in
          case load_certified_key (ev_pem env) read ''cert'' ''key'' of
            Inl e \<Rightarrow> Err (PemErr e)
          | Inr key \<Rightarrow> Ok key)"

definition delete_all :: "'z dns_service \<Rightarrow> string \<Rightarrow> string list \<Rightarrow> 'z \<Rightarrow> 'z" where
  "delete_all dns zone_id ids z = fold (\<lambda>i z. snd (delete_txt_record dns zone_id i z)) ids z"

definition challenge_name :: "string \<Rightarrow> string" where
  "challenge_name domain = ''_acme-challenge.'' @ domain"

text \<open>
  \<^verbatim>\<open>create_dns_challenge_records\<close>: for every authorization that is not valid yet, delete what is
  listed under the challenge's name and create the record.
\<close>

fun create_dns_challenge_records ::
  "'z dns_service \<Rightarrow> string \<Rightarrow> (string + authorization) list \<Rightarrow> (string \<times> string) list \<Rightarrow> 'z \<Rightarrow>
   (AcmeError + unit) \<times> (string \<times> string) list \<times> 'z" where
  "create_dns_challenge_records dns zone_id [] record_ids z = (Ok (), record_ids, z)"
| "create_dns_challenge_records dns zone_id (Inl e # as) record_ids z = (Err (AcmeErr e), record_ids, z)"
| "create_dns_challenge_records dns zone_id (Inr authz # as) record_ids z =
     (if az_valid authz then create_dns_challenge_records dns zone_id as record_ids z
      else
        (case az_dns_name authz of
           None \<Rightarrow> (Err (ConfigErr ''unsupported ACME identifier''), record_ids, z)
         | Some domain \<Rightarrow>
             let txt_name = challenge_name domain in
             case az_dns_value authz of
               None \<Rightarrow> (Err NoChallenge, record_ids, z)
             | Some txt_value \<Rightarrow>
                 let z = (case list_txt_records dns zone_id txt_name z of
                            Inr stale_ids \<Rightarrow> delete_all dns zone_id stale_ids z
                          | Inl e \<Rightarrow> z) in
                 case create_txt_record dns zone_id txt_name txt_value z of
                   (Inl e, z) \<Rightarrow> (Err (CloudflareErr e), record_ids, z)
                 | (Inr record_id, z) \<Rightarrow>
                     create_dns_challenge_records dns zone_id as (record_ids @ [(txt_name, record_id)]) z))"

fun notify_dns_challenges_ready :: "(string + authorization) list \<Rightarrow> AcmeError + unit" where
  "notify_dns_challenges_ready [] = Ok ()"
| "notify_dns_challenges_ready (Inl e # as) = Err (AcmeErr e)"
| "notify_dns_challenges_ready (Inr authz # as) =
     (if az_valid authz then notify_dns_challenges_ready as
      else
        (case az_dns_name authz of
           None \<Rightarrow> Err (ConfigErr ''unsupported ACME identifier'')
         | Some domain \<Rightarrow>
             (case az_dns_value authz of
                None \<Rightarrow> Err NoChallenge
              | Some _ \<Rightarrow>
                  (case az_set_ready authz of
                     Inl e \<Rightarrow> Err (AcmeErr e)
                   | Inr _ \<Rightarrow> notify_dns_challenges_ready as))))"

definition cleanup_dns_records :: "'z dns_service \<Rightarrow> string \<Rightarrow> (string \<times> string) list \<Rightarrow> 'z \<Rightarrow> 'z" where
  "cleanup_dns_records dns zone_id record_ids z = delete_all dns zone_id (map snd record_ids) z"

text \<open>\<^verbatim>\<open>str::lines\<close>: split at line feeds, without a carriage return at the end of a line.\<close>

fun split_lines :: "string \<Rightarrow> string list" where
  "split_lines [] = []"
| "split_lines (c # cs) =
     (if c = CHR 0x0A then [] # split_lines cs
      else (case cs of
              [] \<Rightarrow> [[c]]
            | d # ds \<Rightarrow> if d = CHR 0x0A then [c] # split_lines ds
                       else (case split_lines cs of l # ls \<Rightarrow> (c # l) # ls | [] \<Rightarrow> [[c]])))"

definition text_lines :: "string \<Rightarrow> string list" where
  "text_lines s = map (\<lambda>l. unwrap_or (strip_suffix [CHR 0x0D] l) l) (split_lines s)"

fun str_contains :: "string \<Rightarrow> string \<Rightarrow> bool" where
  "str_contains [] p = (p = [])"
| "str_contains (c # cs) p = (starts_with (c # cs) p \<or> str_contains cs p)"

fun pem_to_der_loop :: "(string \<Rightarrow> string + u8 list) \<Rightarrow> bool \<Rightarrow> u8 list \<Rightarrow> string list \<Rightarrow> AcmeError + u8 list" where
  "pem_to_der_loop base64 in_block der [] = Ok der"
| "pem_to_der_loop base64 in_block der (line # lines) =
     (if str_contains line ''-----BEGIN'' then pem_to_der_loop base64 True der lines
      else if str_contains line ''-----END'' then Ok der
      else if in_block
      then (case base64 line of
              Inl e \<Rightarrow> Err (Base64Err e)
            | Inr bytes \<Rightarrow> pem_to_der_loop base64 in_block (der @ bytes) lines)
      else pem_to_der_loop base64 in_block der lines)"

definition pem_to_der :: "(string \<Rightarrow> string + u8 list) \<Rightarrow> string \<Rightarrow> AcmeError + u8 list" where
  "pem_to_der base64 pem = pem_to_der_loop base64 False [] (text_lines pem)"

definition generate_csr ::
  "('acct, 'z, 'der, 'pkey, 'skey) acme_env \<Rightarrow> string list \<Rightarrow> AcmeError + string \<times> u8 list" where
  "generate_csr env domains =
     (case ev_csr env domains of
        Inl e \<Rightarrow> Err (RcgenErr e)
      | Inr (key_pem, csr_pem) \<Rightarrow>
          and_then (pem_to_der (ev_base64 env) csr_pem) (\<lambda>csr_der. Ok (key_pem, csr_der)))"

text \<open>\<^verbatim>\<open>obtain_cert\<close>, after the order was created: challenges, issuance and storage.\<close>

record 'z world =
  wo_disk :: disk
  wo_zone :: 'z
  wo_metrics :: "tls_metric list"

definition issue_cert ::
  "('acct, 'z, 'der, 'pkey, 'skey) acme_env \<Rightarrow> AcmeProvider \<Rightarrow> AcmeCertConfig \<Rightarrow> string \<Rightarrow> string \<Rightarrow> acme_order \<Rightarrow>
   'z world \<Rightarrow> (AcmeError + StoredCert) \<times> 'z world" where
  "issue_cert env self cert_config primary_domain zone_id order w =
     (case create_dns_challenge_records (ev_dns env) zone_id (or_authorizations order) [] (wo_zone w) of
        (created, record_ids, z) \<Rightarrow>
          let w = w\<lparr>wo_zone := z\<rparr>;
              cleaned = w\<lparr>wo_zone := cleanup_dns_records (ev_dns env) zone_id record_ids z\<rparr> in
          case and_then created (\<lambda>_. notify_dns_challenges_ready (or_authorizations order)) of
            Inl e \<Rightarrow> (Err e, cleaned)
          | Inr _ \<Rightarrow>
              (case or_ready order of
                 Inl e \<Rightarrow> (Err (AcmeErr e), w)
               | Inr True \<Rightarrow>
                   (Err (OrderFailed (''Invalid: '' @ (case or_summary order of
                      Inr details \<Rightarrow> details
                    | Inl e \<Rightarrow> ''failed to fetch authorization details: '' @ e))), cleaned)
               | Inr False \<Rightarrow>
                   (case generate_csr env (acc_domains cert_config) of
                      Inl e \<Rightarrow> (Err e, w)
                    | Inr (private_key_pem, csr_der) \<Rightarrow>
                        (case or_finalize order csr_der of
                           Inl e \<Rightarrow> (Err (AcmeErr e), w)
                         | Inr _ \<Rightarrow>
                             (case or_certificate order of
                                Inl e \<Rightarrow> (Err (AcmeErr e), w)
                              | Inr cert_pem \<Rightarrow>
                                  let expiry = unwrap_or (ev_expiry env cert_pem) (ev_now env + 90 * seconds_per_day);
                                      stored = \<lparr>sc_cert_pem = cert_pem, sc_key_pem = private_key_pem, sc_expiry = expiry,
                                                sc_domains = acc_domains cert_config\<rparr>
                                  in case save_cert (ev_disk_ops env) (ev_meta_to_json env) (ev_now env)
                                            (ap_storage self) primary_domain stored (wo_disk w) of
                                       (Inl e, d) \<Rightarrow> (Err (StorageErr e), cleaned\<lparr>wo_disk := d\<rparr>)
                                     | (Inr _, d) \<Rightarrow> (Ok stored, cleaned\<lparr>wo_disk := d\<rparr>))))))"

definition obtain_cert ::
  "('acct, 'z, 'der, 'pkey, 'skey) acme_env \<Rightarrow> AcmeProvider \<Rightarrow> AcmeCertConfig \<Rightarrow> 'z world \<Rightarrow>
   (AcmeError + StoredCert) \<times> 'z world" where
  "obtain_cert env self cert_config w =
     (case acc_domains cert_config of
        [] \<Rightarrow> (Err (ConfigErr ''no domains specified''), w)
      | primary_domain # _ \<Rightarrow>
          (case get_or_create_account env self (wo_disk w) of
             (Inl e, d) \<Rightarrow> (Err e, w\<lparr>wo_disk := d\<rparr>)
           | (Inr account, d) \<Rightarrow>
               let w = w\<lparr>wo_disk := d\<rparr>; dns = acc_dns cert_config in
               case resolve_api_token (ev_read_file env) (ev_env_var env) dns of
                 Inl e \<Rightarrow> (Err (ConfigErr e), w)
               | Inr api_token \<Rightarrow>
                   (case CloudflareClient_new (ev_header_ok env) api_token of
                      Inl e \<Rightarrow> (Err (CloudflareErr e), w)
                    | Inr _ \<Rightarrow>
                        (case (case dns_zone_id dns of
                                 Some i \<Rightarrow> Ok i
                               | None \<Rightarrow> get_zone_id (dns_zones (ev_dns env)) primary_domain) of
                           Inl e \<Rightarrow> (Err (CloudflareErr e), w)
                         | Inr zone_id \<Rightarrow>
                             (case ev_new_order env account (acc_domains cert_config) of
                                Inl e \<Rightarrow> (Err (AcmeErr e), w)
                              | Inr order \<Rightarrow> issue_cert env self cert_config primary_domain zone_id order w)))))"

definition emit_acme_cert_metrics :: "StoredCert \<Rightarrow> tls_metric list" where
  "emit_acme_cert_metrics stored = map (\<lambda>domain. CERT_EXPIRY domain (sc_expiry stored)) (sc_domains stored)"

definition emit :: "tls_metric list \<Rightarrow> 'z world \<Rightarrow> 'z world" where
  "emit ms w = w\<lparr>wo_metrics := wo_metrics w @ ms\<rparr>"

definition provider_load ::
  "('acct, 'z, 'der, 'pkey, 'skey) acme_env \<Rightarrow> AcmeProvider \<Rightarrow> string \<Rightarrow> 'z world \<Rightarrow> StorageError + StoredCert option" where
  "provider_load env self domain w =
     load_cert (ev_io_error env) (ev_meta_from_json env) (ap_storage self) domain (wo_disk w)"

definition provider_due ::
  "('acct, 'z, 'der, 'pkey, 'skey) acme_env \<Rightarrow> AcmeProvider \<Rightarrow> string \<Rightarrow> 'z world \<Rightarrow> StorageError + bool" where
  "provider_due env self domain w =
     needs_renewal (ev_io_error env) (ev_meta_from_json env) (ev_now env) (ap_storage self) domain
       (acme_renew_before_days (ap_config self)) (wo_disk w)"

text \<open>\<^verbatim>\<open>initialize\<close> for one certificate: the key to serve, or the error that ends the start-up.\<close>

definition init_cert ::
  "('acct, 'z, 'der, 'pkey, 'skey) acme_env \<Rightarrow> AcmeProvider \<Rightarrow> AcmeCertConfig \<Rightarrow> 'z world \<Rightarrow>
   (AcmeError + ('der, 'skey) CertifiedKey) \<times> 'z world" where
  "init_cert env self cert_config w =
     (case acc_domains cert_config of
        [] \<Rightarrow> (Err (ConfigErr ''cert config has no domains''), w)
      | primary_domain # _ \<Rightarrow>
          (case provider_due env self primary_domain w of
             Inl e \<Rightarrow> (Err (StorageErr e), w)
           | Inr due \<Rightarrow>
               (case (if due then Ok None else provider_load env self primary_domain w) of
                  Inl e \<Rightarrow> (Err (StorageErr e), w)
                | Inr (Some stored) \<Rightarrow> (load_stored_cert env stored, w)
                | Inr None \<Rightarrow>
                    (case obtain_cert env self cert_config w of
                       (Inr stored, w) \<Rightarrow>
                         (load_stored_cert env stored,
                          emit (emit_acme_cert_metrics stored @ [ACME_LAST_SUCCESS primary_domain (ev_now env)]) w)
                     | (Inl e, w) \<Rightarrow>
                         (case provider_load env self primary_domain w of
                            Inr (Some stored) \<Rightarrow> (load_stored_cert env stored, emit (emit_acme_cert_metrics stored) w)
                          | _ \<Rightarrow> (Err e, w))))))"

fun init_loop ::
  "('acct, 'z, 'der, 'pkey, 'skey) acme_env \<Rightarrow> AcmeProvider \<Rightarrow> AcmeCertConfig list \<Rightarrow>
   ('der, 'skey) CertifiedKey CertStore \<Rightarrow> 'z world \<Rightarrow> (AcmeError + ('der, 'skey) CertifiedKey CertStore) \<times> 'z world" where
  "init_loop env self [] store w = (Ok store, w)"
| "init_loop env self (c # cs) store w =
     (case init_cert env self c w of
        (Inl e, w) \<Rightarrow> (Err e, w)
      | (Inr key, w) \<Rightarrow> init_loop env self cs (CertStore_insert (acc_domains c) key store) w)"

definition initialize ::
  "('acct, 'z, 'der, 'pkey, 'skey) acme_env \<Rightarrow> AcmeProvider \<Rightarrow> ('der, 'skey) CertifiedKey CertManager \<Rightarrow> 'z world \<Rightarrow>
   (AcmeError + unit) \<times> ('der, 'skey) CertifiedKey CertManager \<times> 'z world" where
  "initialize env self manager w =
     (let all_certs = provider_all_certs self in
      if all_certs = [] then (Ok (), manager, w)
      else
        (case init_loop env self all_certs CertStore_new w of
           (Inl e, w) \<Rightarrow> (Err e, manager, w)
         | (Inr store, w) \<Rightarrow>
             if CertStore_is_empty store then (Err NoAcmeCertificates, manager, w)
             else (Ok (), CertManager_reload store manager, w)))"

text \<open>
  \<^verbatim>\<open>check_and_renew\<close> for one certificate: the key to serve, if there is one, and whether it is new,
  or the error that ends the round.
\<close>

definition renew_cert ::
  "('acct, 'z, 'der, 'pkey, 'skey) acme_env \<Rightarrow> AcmeProvider \<Rightarrow> AcmeCertConfig \<Rightarrow> 'z world \<Rightarrow>
   (AcmeError + ('der, 'skey) CertifiedKey option \<times> bool) \<times> 'z world" where
  "renew_cert env self cert_config w =
     (case acc_domains cert_config of
        [] \<Rightarrow> (Err (ConfigErr ''cert config has no domains''), w)
      | primary_domain # _ \<Rightarrow>
          (case provider_due env self primary_domain w of
             Inl e \<Rightarrow> (Err (StorageErr e), w)
           | Inr True \<Rightarrow>
               let w = emit [ACME_LAST_ATTEMPT primary_domain (ev_now env)] w in
               (case obtain_cert env self cert_config w of
                  (Inr stored, w) \<Rightarrow>
                    let w = emit (emit_acme_cert_metrics stored @ [ACME_LAST_SUCCESS primary_domain (ev_now env)]) w in
                    (case load_stored_cert env stored of
                       Inl e \<Rightarrow> (Err e, w)
                     | Inr key \<Rightarrow> (Ok (Some key, True), emit [ACME_RENEWAL RenewalSuccess] w))
                | (Inl e, w) \<Rightarrow>
                    let w = emit [ACME_RENEWAL RenewalFailure, ACME_RENEWAL_FAILURE primary_domain (acme_failure_reason e)] w in
                    (case provider_load env self primary_domain w of
                       Inr (Some stored) \<Rightarrow>
                         (case load_stored_cert env stored of
                            Inl e \<Rightarrow> (Err e, emit (emit_acme_cert_metrics stored) w)
                          | Inr key \<Rightarrow> (Ok (Some key, False), emit (emit_acme_cert_metrics stored) w))
                     | _ \<Rightarrow> (Ok (None, False), w)))
           | Inr False \<Rightarrow>
               (case provider_load env self primary_domain w of
                  Inl e \<Rightarrow> (Err (StorageErr e), w)
                | Inr None \<Rightarrow> (Ok (None, False), w)
                | Inr (Some stored) \<Rightarrow>
                    let w = emit (emit_acme_cert_metrics stored @ [ACME_RENEWAL RenewalSkipped]) w in
                    (case load_stored_cert env stored of
                       Inl e \<Rightarrow> (Err e, w)
                     | Inr key \<Rightarrow> (Ok (Some key, False), w)))))"

fun renew_loop ::
  "('acct, 'z, 'der, 'pkey, 'skey) acme_env \<Rightarrow> AcmeProvider \<Rightarrow> AcmeCertConfig list \<Rightarrow>
   ('der, 'skey) CertifiedKey CertStore \<Rightarrow> bool \<Rightarrow> 'z world \<Rightarrow>
   (AcmeError + ('der, 'skey) CertifiedKey CertStore \<times> bool) \<times> 'z world" where
  "renew_loop env self [] store any_renewed w = (Ok (store, any_renewed), w)"
| "renew_loop env self (c # cs) store any_renewed w =
     (case renew_cert env self c w of
        (Inl e, w) \<Rightarrow> (Err e, w)
      | (Inr (key, renewed), w) \<Rightarrow>
          renew_loop env self cs
            (case key of Some k \<Rightarrow> CertStore_insert (acc_domains c) k store | None \<Rightarrow> store)
            (any_renewed \<or> renewed) w)"

definition check_and_renew ::
  "('acct, 'z, 'der, 'pkey, 'skey) acme_env \<Rightarrow> AcmeProvider \<Rightarrow> ('der, 'skey) CertifiedKey CertManager \<Rightarrow> 'z world \<Rightarrow>
   (AcmeError + unit) \<times> ('der, 'skey) CertifiedKey CertManager \<times> 'z world" where
  "check_and_renew env self manager w =
     (case renew_loop env self (provider_all_certs self) CertStore_new False w of
        (Inl e, w) \<Rightarrow> (Err e, manager, w)
      | (Inr (store, any_renewed), w) \<Rightarrow>
          (Ok (), if any_renewed \<and> \<not> CertStore_is_empty store then CertManager_reload store manager else manager, w))"

section \<open>Storage lemmas\<close>

lemma path_join_inject [simp]:
  "hd a \<noteq> CHR ''/'' \<Longrightarrow> hd b \<noteq> CHR ''/'' \<Longrightarrow> path_join dir a = path_join dir b \<longleftrightarrow> a = b"
proof -
  have "hd s \<noteq> CHR ''/'' \<Longrightarrow> \<not> starts_with s ''/''" for s :: string by (auto simp: starts_with_iff)
  then show "hd a \<noteq> CHR ''/'' \<Longrightarrow> hd b \<noteq> CHR ''/'' \<Longrightarrow> ?thesis" by (simp add: path_join_def)
qed

lemma run_ops_simps [simp]:
  "run_ops n [] d = d" "run_ops 0 ops d = d" "run_ops (Suc n) (op # ops) d = run_ops n ops (apply_op op d)"
  by (simp_all add: run_ops_def)

lemma hm_get_rename:
  "hm_get (apply_op (RenameFile a b) d) =
     (case hm_get d a of Some f \<Rightarrow> (hm_get d)(a := None, b := Some f) | None \<Rightarrow> hm_get d)"
  by (simp add: hm_simps split: option.split)

lemma hm_get_atomic_write:
  assumes "a \<noteq> b"
  shows "hm_get (apply_op (RenameFile a b) (apply_op (WriteFile a c m) d)) = (hm_get d)(a := None, b := Some (c, m))"
  using assms by (simp add: hm_simps)

text \<open>The three files of a certificate, given by their contents.\<close>

definition cert_files :: "AcmeStorage \<Rightarrow> string \<Rightarrow> disk \<Rightarrow> string option \<times> string option \<times> string option" where
  "cert_files self domain d =
     (let dir = cert_path self domain; get = (\<lambda>f. map_option fst (hm_get d (path_join dir f))) in
      (get ''cert.pem'', get ''key.pem'', get ''meta.json''))"

lemma load_cert_files:
  assumes "\<And>p. io_error p = None"
  shows "load_cert io_error from_json self domain d =
    (case cert_files self domain d of
       (Some c, Some k, Some m) \<Rightarrow>
         (case from_json m of
            Inl e \<Rightarrow> Err (StorageJson e)
          | Inr meta \<Rightarrow> Ok (Some \<lparr>sc_cert_pem = c, sc_key_pem = k, sc_expiry = me_expiry meta, sc_domains = me_domains meta\<rparr>))
     | _ \<Rightarrow> Ok None)"
  by (auto simp: load_cert_def cert_files_def Let_def hm_contains_def disk_read_def assms split: option.splits sum.splits)

lemma nat_less_6: "n < 6 \<Longrightarrow> n = 0 \<or> n = 1 \<or> n = 2 \<or> n = 3 \<or> n = 4 \<or> n = (5 :: nat)"
  by linarith

lemma cert_files_save:
  "cert_files self domain (run_ops n (save_cert_ops self domain cert meta) d) =
    (case cert_files self domain d of
       (c, k, m) \<Rightarrow>
         (if n < 2 then c else Some (sc_cert_pem cert), if n < 4 then k else Some (sc_key_pem cert),
          if n < 6 then m else Some meta))"
proof -
  note defs = cert_files_def save_cert_ops_def atomic_write_def Let_def hm_simps
  have "n = 0 \<or> n = 1 \<or> n = 2 \<or> n = 3 \<or> n = 4 \<or> n = 5 \<or> 6 \<le> n" by linarith
  then show ?thesis
  proof (elim disjE)
    assume n: "6 \<le> n"
    then obtain k where "n = Suc (Suc (Suc (Suc (Suc (Suc k)))))" by (auto simp: numeral_eq_Suc le_Suc_eq dest!: le_Suc_ex)
    then show ?thesis by (simp add: defs)
  qed (simp_all add: defs numeral_eq_Suc)
qed

lemma key_files_save:
  assumes "p = path_join (cert_path self domain) ''key.pem'' \<or> p = path_join (cert_path self domain) ''.key.pem.tmp''"
    and "hm_get (run_ops n (save_cert_ops self domain cert meta) d) p = Some (content, mode)"
  shows "mode = 0x180 \<or> hm_get d p = Some (content, mode)"
proof -
  note defs = save_cert_ops_def atomic_write_def Let_def hm_simps
  have "n = 0 \<or> n = 1 \<or> n = 2 \<or> n = 3 \<or> n = 4 \<or> n = 5 \<or> 6 \<le> n" by linarith
  then show ?thesis
  proof (elim disjE)
    assume n: "6 \<le> n"
    then obtain k where "n = Suc (Suc (Suc (Suc (Suc (Suc k)))))" by (auto simp: numeral_eq_Suc le_Suc_eq dest!: le_Suc_ex)
    then show ?thesis using assms by (auto simp: defs split: if_splits)
  qed (use assms in \<open>auto simp: defs numeral_eq_Suc split: if_splits\<close>)
qed

lemma length_save_cert_ops [simp]: "length (save_cert_ops self domain cert meta) = 6"
  by (simp add: save_cert_ops_def atomic_write_def Let_def)

section \<open>DNS lemmas\<close>

text \<open>
  What the DNS service promises for a zone, whose records are given by identifier, name and
  content: listing finds the records of a name, creating adds one with a new identifier, and
  deleting removes the record with the identifier.
\<close>

definition dns_spec :: "'z dns_service \<Rightarrow> string \<Rightarrow> ('z \<Rightarrow> (string \<times> string \<times> string) list) \<Rightarrow> bool" where
  "dns_spec dns zone_id recs \<longleftrightarrow>
     (\<forall>n z. list_txt_records dns zone_id n z = Ok (map fst (filter (\<lambda>(i, nm, c). nm = n) (recs z)))) \<and>
     (\<forall>n c z. \<exists>i z'. create_txt_record dns zone_id n c z = (Ok i, z') \<and>
        i \<notin> fst ` set (recs z) \<and> recs z' = recs z @ [(i, n, c)]) \<and>
     (\<forall>i z. \<exists>z'. delete_txt_record dns zone_id i z = (Ok (), z') \<and> recs z' = filter (\<lambda>(j, _). j \<noteq> i) (recs z))"

definition contents_of :: "string \<Rightarrow> (string \<times> string \<times> string) list \<Rightarrow> string list" where
  "contents_of n rs = map (\<lambda>(i, nm, c). c) (filter (\<lambda>(i, nm, c). nm = n) rs)"

definition pending :: "authorization \<Rightarrow> bool" where
  "pending a = (\<not> az_valid a \<and> az_dns_name a \<noteq> None \<and> az_dns_value a \<noteq> None)"

definition challenge_of :: "authorization \<Rightarrow> string \<times> string" where
  "challenge_of a = (challenge_name (the (az_dns_name a)), the (az_dns_value a))"

lemma delete_all_recs:
  assumes "dns_spec dns zone_id recs"
  shows "recs (delete_all dns zone_id ids z) = filter (\<lambda>(j, _). j \<notin> set ids) (recs z)"
proof (induction ids arbitrary: z)
  case (Cons i ids)
  obtain z' where z': "delete_txt_record dns zone_id i z = (Ok (), z')" "recs z' = filter (\<lambda>(j, _). j \<noteq> i) (recs z)"
    using assms unfolding dns_spec_def by blast
  have "delete_all dns zone_id (i # ids) z = delete_all dns zone_id ids z'" by (simp add: delete_all_def z'(1))
  then show ?case by (simp add: Cons z'(2) case_prod_beta' conj_commute)
qed (simp add: delete_all_def)

lemma filter_stale:
  assumes "distinct (map fst rs)"
  shows "filter (\<lambda>(j, _). j \<notin> fst ` {r \<in> set rs. fst (snd r) = n}) rs = filter (\<lambda>r. fst (snd r) \<noteq> n) rs"
proof (rule filter_cong)
  fix r assume "r \<in> set rs"
  then have "fst r \<in> fst ` {r \<in> set rs. fst (snd r) = n} \<longleftrightarrow> fst (snd r) = n"
  proof (intro iffI)
    assume "fst r \<in> fst ` {r \<in> set rs. fst (snd r) = n}"
    then obtain r' where "r' \<in> set rs" "fst r' = fst r" "fst (snd r') = n" by auto
    then show "fst (snd r) = n" using assms \<open>r \<in> set rs\<close> by (metis distinct_map inj_onD)
  qed (use \<open>r \<in> set rs\<close> in \<open>auto intro: imageI\<close>)
  then show "(case r of (j, _) \<Rightarrow> j \<notin> fst ` {r \<in> set rs. fst (snd r) = n}) = (fst (snd r) \<noteq> n)" by (cases r) simp
qed simp

text \<open>One authorization that is to be proved: its name has exactly its own record afterwards.\<close>

lemma create_one:
  assumes "dns_spec dns zone_id recs" "distinct (map fst (recs z))" "pending a"
  shows "\<exists>i z'. create_dns_challenge_records dns zone_id (Inr a # as) ids z =
      create_dns_challenge_records dns zone_id as (ids @ [(fst (challenge_of a), i)]) z' \<and>
    distinct (map fst (recs z')) \<and>
    (\<forall>n. contents_of n (recs z') = (if n = fst (challenge_of a) then [snd (challenge_of a)] else contents_of n (recs z)))"
proof -
  obtain dom v where a: "az_dns_name a = Some dom" "az_dns_value a = Some v" "\<not> az_valid a"
    using assms(3) by (auto simp: pending_def)
  let ?n = "challenge_name dom"
  let ?stale = "map fst (filter (\<lambda>(i, nm, c). nm = ?n) (recs z))"
  let ?z = "delete_all dns zone_id ?stale z"
  have list: "list_txt_records dns zone_id ?n z = Ok ?stale" using assms(1) unfolding dns_spec_def by blast
  have stale: "set ?stale = fst ` {r \<in> set (recs z). fst (snd r) = ?n}" by (auto simp: image_iff)
  have z: "recs ?z = filter (\<lambda>r. fst (snd r) \<noteq> ?n) (recs z)"
    unfolding delete_all_recs [OF assms(1)] stale by (rule filter_stale [OF assms(2)])
  obtain i z' where c: "create_txt_record dns zone_id ?n v ?z = (Ok i, z')" "i \<notin> fst ` set (recs ?z)"
      "recs z' = recs ?z @ [(i, ?n, v)]"
    using assms(1) unfolding dns_spec_def by blast
  have d: "distinct (map fst (recs z'))"
    using assms(2) c(2) by (simp add: c(3) z distinct_map_filter)
  have cont: "contents_of n (recs z') = (if n = ?n then [v] else contents_of n (recs z))" for n
  proof (cases "n = ?n")
    case True
    then show ?thesis unfolding contents_of_def c(3) z by (simp add: case_prod_beta')
  next
    case False
    then have "filter (\<lambda>r. fst (snd r) = n) (filter (\<lambda>r. fst (snd r) \<noteq> ?n) (recs z)) = filter (\<lambda>r. fst (snd r) = n) (recs z)"
      by (auto intro: filter_cong)
    with False show ?thesis unfolding contents_of_def c(3) z by (simp add: case_prod_beta')
  qed
  have cr: "create_dns_challenge_records dns zone_id (Inr a # as) ids z =
      create_dns_challenge_records dns zone_id as (ids @ [(?n, i)]) z'"
    by (simp add: a Let_def list c(1))
  have ch: "challenge_of a = (?n, v)" using a by (simp add: challenge_of_def)
  show ?thesis unfolding ch fst_conv snd_conv using d cont cr by blast
qed

lemma create_records:
  assumes "dns_spec dns zone_id recs"
  shows "distinct (map fst (recs z)) \<Longrightarrow> list_all pending as \<Longrightarrow>
    \<exists>ids' z'. create_dns_challenge_records dns zone_id (map Inr as) ids z = (Ok (), ids', z') \<and>
      (\<forall>n. contents_of n (recs z') =
         (case map_of (rev (map challenge_of as)) n of Some v \<Rightarrow> [v] | None \<Rightarrow> contents_of n (recs z)))"
proof (induction as arbitrary: ids z)
  case (Cons a as)
  then have p: "pending a" "list_all pending as" by simp_all
  obtain i z' where one: "create_dns_challenge_records dns zone_id (Inr a # map Inr as) ids z =
      create_dns_challenge_records dns zone_id (map Inr as) (ids @ [(fst (challenge_of a), i)]) z'"
    "distinct (map fst (recs z'))"
    "\<And>n. contents_of n (recs z') = (if n = fst (challenge_of a) then [snd (challenge_of a)] else contents_of n (recs z))"
    using create_one [OF assms Cons.prems(1) p(1), of "map Inr as" ids] by blast
  from Cons.IH [OF one(2) p(2), of "ids @ [(fst (challenge_of a), i)]"] obtain ids' z2 where
    rest: "create_dns_challenge_records dns zone_id (map Inr as) (ids @ [(fst (challenge_of a), i)]) z' = (Ok (), ids', z2)"
    "\<And>n. contents_of n (recs z2) =
         (case map_of (rev (map challenge_of as)) n of Some v \<Rightarrow> [v] | None \<Rightarrow> contents_of n (recs z'))" by blast
  have "contents_of n (recs z2) =
      (case map_of (rev (map challenge_of (a # as))) n of Some v \<Rightarrow> [v] | None \<Rightarrow> contents_of n (recs z))" for n
    by (cases "challenge_of a") (simp add: rest(2) one(3) map_add_def split: option.split)
  then show ?case using one(1) rest(1) by auto
qed simp

section \<open>Provider lemmas\<close>

lemma init_loop_store:
  "init_loop env self cs store w = (Ok store', w') \<Longrightarrow>
   \<exists>keys. length keys = length cs \<and>
     store' = fold (\<lambda>(ds, c). CertStore_insert ds c) (zip (map acc_domains cs) keys) store"
proof (induction cs arbitrary: store w)
  case (Cons c cs)
  obtain r w1 where i: "init_cert env self c w = (r, w1)" by (cases "init_cert env self c w")
  with Cons.prems obtain key where r: "r = Ok key" by (cases r) auto
  then have "init_loop env self cs (CertStore_insert (acc_domains c) key store) w1 = (Ok store', w')"
    using Cons.prems i by simp
  from Cons.IH [OF this] obtain keys where "length keys = length cs"
    "store' = fold (\<lambda>(ds, c). CertStore_insert ds c) (zip (map acc_domains cs) keys) (CertStore_insert (acc_domains c) key store)"
    by blast
  then show ?case by (intro exI [of _ "key # keys"]) simp
qed simp

lemma registered_present:
  assumes "(ds, c) \<in> set rs" "n \<in> to_lowercase ` set ds"
  shows "registered rs n \<noteq> None"
proof
  assume "registered rs n = None"
  then have "find (\<lambda>(domains, c). n \<in> to_lowercase ` set domains) (rev rs) = None" by (simp add: registered_def)
  then have "\<not> (\<exists>r. r \<in> set (rev rs) \<and> (case r of (domains, c) \<Rightarrow> n \<in> to_lowercase ` set domains))"
    by (simp only: find_None_iff not_False_eq_True)
  then show False using assms by auto
qed

lemma spec_resolve_registered: "registered rs (to_lowercase sni) \<noteq> None \<Longrightarrow> spec_resolve rs d sni \<noteq> None"
  by (auto simp: spec_resolve_def)

lemma provider_due_disk: "wo_disk w1 = wo_disk w \<Longrightarrow> provider_due env self n w1 = provider_due env self n w"
  by (simp add: provider_due_def)

lemma renew_not_due:
  assumes "\<forall>c\<in>set cs. \<exists>dom rest. acc_domains c = dom # rest \<and> provider_due env self dom w = Ok False"
    and "renew_loop env self cs store False w = (r, w')"
  shows "wo_disk w' = wo_disk w \<and> (case r of Inl _ \<Rightarrow> True | Inr (_, renewed) \<Rightarrow> \<not> renewed)"
  using assms
proof (induction cs arbitrary: store w)
  case (Cons c cs)
  then obtain dom rest where c: "acc_domains c = dom # rest" "provider_due env self dom w = Ok False" by auto
  obtain r1 w1 where r1: "renew_cert env self c w = (r1, w1)" by (cases "renew_cert env self c w")
  then have w1: "wo_disk w1 = wo_disk w" and no: "\<And>key b. r1 = Ok (key, b) \<Longrightarrow> \<not> b"
    using c by (auto simp: renew_cert_def emit_def Let_def split: sum.splits option.splits)
  show ?case
  proof (cases r1)
    case (Inl e)
    then show ?thesis using Cons.prems(2) r1 w1 by auto
  next
    case (Inr kb)
    then obtain key where k: "r1 = Ok (key, False)" using no by (cases kb) auto
    have "\<forall>c\<in>set cs. \<exists>dom rest. acc_domains c = dom # rest \<and> provider_due env self dom w1 = Ok False"
      using Cons.prems(1) by (simp add: provider_due_disk [OF w1])
    moreover have "renew_loop env self cs (case key of Some k \<Rightarrow> CertStore_insert (acc_domains c) k store | None \<Rightarrow> store) False w1 = (r, w')"
      using Cons.prems(2) r1 k by simp
    ultimately show ?thesis using Cons.IH w1 by metis
  qed
qed auto

section \<open>Properties\<close>

text \<open>
  saving a certificate that may be interrupted after any disk operation, if the metadata can
  be read back. When all operations succeed the certificate is read back unchanged; before
  that either the old one is read, or, in the middle, the new certificate with the old key, or
  both with the old metadata: the three files are not replaced together. If there was no
  certificate, none is read until the last file is in place. The private key is never in a file
  with other permissions than 0600.
\<close>

theorem save_cert_interrupted:
  assumes io: "\<And>p. io_error p = None"
    and j: "to_json \<lparr>me_expiry = sc_expiry cert, me_domains = sc_domains cert, me_created_at = now\<rparr> = Ok j"
      "from_json j = Ok \<lparr>me_expiry = sc_expiry cert, me_domains = sc_domains cert, me_created_at = now\<rparr>"
    and old: "load_cert io_error from_json self domain d = Ok old"
    and none: "old = None \<longrightarrow> hm_get d (path_join (cert_path self domain) ''meta.json'') = None"
    and save: "save_cert n to_json now self domain cert d = (r, d')"
  shows "(r = Ok () \<longleftrightarrow> 6 \<le> n) \<and>
    load_cert io_error from_json self domain d' =
      Ok (if 6 \<le> n then Some cert
          else map_option (\<lambda>c. c\<lparr>sc_cert_pem := if n < 2 then sc_cert_pem c else sc_cert_pem cert,
                               sc_key_pem := if n < 4 then sc_key_pem c else sc_key_pem cert\<rparr>) old) \<and>
    (\<forall>f\<in>{''key.pem'', ''.key.pem.tmp''}. \<forall>content mode.
       hm_get d' (path_join (cert_path self domain) f) = Some (content, mode) \<longrightarrow>
       mode = 0x180 \<or> hm_get d (path_join (cert_path self domain) f) = Some (content, mode))"
proof -
  have d': "d' = run_ops n (save_cert_ops self domain cert j) d" and r: "r = Ok () \<longleftrightarrow> 6 \<le> n"
    using save j(1) by (auto simp: save_cert_def Let_def split: if_splits)
  obtain c k m where files: "cert_files self domain d = (c, k, m)" by (cases "cert_files self domain d")
  have m: "old = None \<Longrightarrow> m = None" using none files by (auto simp: cert_files_def Let_def)
  have "load_cert io_error from_json self domain d' =
      Ok (if 6 \<le> n then Some cert
          else map_option (\<lambda>c. c\<lparr>sc_cert_pem := if n < 2 then sc_cert_pem c else sc_cert_pem cert,
                               sc_key_pem := if n < 4 then sc_key_pem c else sc_key_pem cert\<rparr>) old)"
    using old m unfolding load_cert_files [OF io] d' cert_files_save files
    by (auto simp: j split: option.splits sum.splits)
  moreover have "\<forall>f\<in>{''key.pem'', ''.key.pem.tmp''}. \<forall>content mode.
       hm_get d' (path_join (cert_path self domain) f) = Some (content, mode) \<longrightarrow>
       mode = 0x180 \<or> hm_get d (path_join (cert_path self domain) f) = Some (content, mode)"
    unfolding d' using key_files_save by blast
  ultimately show ?thesis using r by blast
qed

definition example_storage :: AcmeStorage where
  "example_storage = \<lparr>sto_base_path = ''/acme'', sto_staging = False\<rparr>"

definition example_stored :: "string \<Rightarrow> StoredCert" where
  "example_stored pem = \<lparr>sc_cert_pem = pem, sc_key_pem = ''key'', sc_expiry = 0, sc_domains = [''a.com'']\<rparr>"

definition example_meta :: CertMeta where
  "example_meta = \<lparr>me_expiry = 0, me_domains = [''a.com''], me_created_at = 5\<rparr>"

definition example_to_json :: "CertMeta \<Rightarrow> string + string" where
  "example_to_json m = Ok ''meta''"

definition example_from_json :: "string \<Rightarrow> string + CertMeta" where
  "example_from_json j = Ok example_meta"

theorem save_cert_interrupted_witness:
  "load_cert (\<lambda>_. None) example_from_json example_storage ''a.com''
     (snd (save_cert 6 example_to_json 5 example_storage ''a.com'' (example_stored ''new'') [])) =
   Ok (Some (example_stored ''new''))"
proof -
  have old: "load_cert (\<lambda>_. None) example_from_json example_storage ''a.com'' [] = Ok None"
    by (simp add: load_cert_def Let_def hm_contains_def)
  obtain r d' where s: "save_cert 6 example_to_json 5 example_storage ''a.com'' (example_stored ''new'') [] = (r, d')"
    by (cases "save_cert 6 example_to_json 5 example_storage ''a.com'' (example_stored ''new'') []")
  show ?thesis
    using save_cert_interrupted [OF refl _ _ old _ s, of "''meta''"] s
    by (simp add: example_to_json_def example_from_json_def example_meta_def example_stored_def)
qed

text \<open>
  C21: challenge records. If the DNS service works as it promises, every pending authorization
  gets a record, but at the end each challenge name has only the record of the last pending
  authorization with that name: since the records found under the name are deleted first, an
  order for a domain together with its wildcard, which share the challenge name, ends up with
  the record of one of the two challenges only.
\<close>

theorem challenge_records:
  assumes dns: "dns_spec dns zone_id recs" "distinct (map fst (recs z))"
    and as: "list_all pending as"
    and run: "create_dns_challenge_records dns zone_id (map Inr as) [] z = (r, ids, z')"
  shows "r = Ok () \<and>
    (\<forall>a\<in>set as. contents_of (fst (challenge_of a)) (recs z') =
       [the (map_of (rev (map challenge_of as)) (fst (challenge_of a)))]) \<and>
    (distinct (map (\<lambda>a. fst (challenge_of a)) as) \<longrightarrow>
       (\<forall>a\<in>set as. contents_of (fst (challenge_of a)) (recs z') = [snd (challenge_of a)])) \<and>
    (\<forall>a b. as = [a, b] \<longrightarrow> az_dns_name a = az_dns_name b \<longrightarrow>
       contents_of (fst (challenge_of a)) (recs z') = [snd (challenge_of b)])"
proof -
  from create_records [OF dns as, of "[]"] run have r: "r = Ok ()"
    and c: "\<And>n. contents_of n (recs z') =
         (case map_of (rev (map challenge_of as)) n of Some v \<Rightarrow> [v] | None \<Rightarrow> contents_of n (recs z))" by auto
  have last: "contents_of (fst (challenge_of a)) (recs z') = [the (map_of (rev (map challenge_of as)) (fst (challenge_of a)))]"
    if "a \<in> set as" for a
  proof -
    have "map_of (rev (map challenge_of as)) (fst (challenge_of a)) \<noteq> None"
      using that by (auto simp: map_of_eq_None_iff)
    then show ?thesis by (auto simp: c)
  qed
  moreover have "the (map_of (rev (map challenge_of as)) (fst (challenge_of a))) = snd (challenge_of a)"
    if "distinct (map (\<lambda>a. fst (challenge_of a)) as)" "a \<in> set as" for a
  proof -
    have "distinct (map fst (rev (map challenge_of as)))" using that(1) by (simp add: rev_map [symmetric] comp_def)
    then have "map_of (rev (map challenge_of as)) (fst (challenge_of a)) = Some (snd (challenge_of a))"
      using that(2) by (intro map_of_is_SomeI) auto
    then show ?thesis by simp
  qed
  moreover have "contents_of (fst (challenge_of a)) (recs z') = [snd (challenge_of b)]"
    if "as = [a, b]" "az_dns_name a = az_dns_name b" for a b
    using last [of a] that by (simp add: challenge_of_def)
  ultimately show ?thesis using r by simp
qed

text \<open>A DNS service that keeps its promises.\<close>

type_synonym example_zone = "(string \<times> string \<times> string) list"

definition example_dns :: "example_zone dns_service" where
  "example_dns =
     \<lparr>dns_zones = (\<lambda>_. Ok [''zone'']),
      list_txt_records = (\<lambda>_ n z. Ok (map fst (filter (\<lambda>(i, nm, c). nm = n) z))),
      create_txt_record = (\<lambda>_ n c z. let i = concat (map fst z) @ ''x'' in (Ok i, z @ [(i, n, c)])),
      delete_txt_record = (\<lambda>_ i z. (Ok (), filter (\<lambda>(j, _). j \<noteq> i) z))\<rparr>"

lemma example_dns_spec: "dns_spec example_dns zone_id (\<lambda>z. z)"
proof -
  have len: "length i \<le> length (concat (map fst z))" if "i \<in> fst ` set z" for i and z :: example_zone
    using that
  proof (induction z)
    case (Cons r z)
    then show ?case by (cases "i \<in> fst ` set z") (simp_all add: trans_le_add2)
  qed simp
  have "concat (map fst z) @ ''x'' \<notin> fst ` set z" for z :: example_zone
  proof
    assume "concat (map fst z) @ ''x'' \<in> fst ` set z"
    from len [OF this] show False by simp
  qed
  then show ?thesis by (simp add: dns_spec_def example_dns_def Let_def)
qed

definition example_authz :: "string \<Rightarrow> authorization" where
  "example_authz v = \<lparr>az_valid = False, az_dns_name = Some ''example.com'', az_dns_value = Some v, az_set_ready = Ok ()\<rparr>"

theorem challenge_records_witness:
  "contents_of ''_acme-challenge.example.com''
     (snd (snd (create_dns_challenge_records example_dns ''zone'' (map Inr [example_authz ''v1'', example_authz ''v2'']) [] []))) =
   [''v2'']"
proof -
  let ?as = "[example_authz ''v1'', example_authz ''v2'']"
  obtain r ids z where run: "create_dns_challenge_records example_dns ''zone'' (map Inr ?as) [] [] = (r, ids, z)"
    by (cases "create_dns_challenge_records example_dns ''zone'' (map Inr ?as) [] []")
  have "list_all pending ?as" by (simp add: pending_def example_authz_def)
  from challenge_records [OF example_dns_spec _ this run] show ?thesis
    using run by (simp add: challenge_of_def example_authz_def challenge_name_def)
qed

text \<open>
  after a successful start-up every domain of every certificate to obtain is served.
\<close>

theorem acme_initialize_serves:
  assumes init: "initialize env self manager w = (Ok (), manager', w')"
    and c: "c \<in> set (provider_all_certs self)" "domain \<in> set (acc_domains c)"
  shows "CertManager_resolve manager' domain \<noteq> None"
proof -
  let ?cs = "provider_all_certs self"
  have "?cs \<noteq> []" using c(1) by auto
  then obtain store w1 where l: "init_loop env self ?cs CertStore_new w = (Ok store, w1)"
      and m: "manager' = CertManager_reload store manager"
    using init by (auto simp: initialize_def Let_def split: prod.splits sum.splits if_splits)
  from init_loop_store [OF l] obtain keys where keys: "length keys = length ?cs"
    and store: "store = store_of (zip (map acc_domains ?cs) keys) None" by (auto simp: store_of_None)
  obtain i where i: "i < length ?cs" "?cs ! i = c" using c(1) by (auto simp: in_set_conv_nth)
  have "(acc_domains c, keys ! i) \<in> set (zip (map acc_domains ?cs) keys)"
    using i keys by (auto simp: in_set_conv_nth intro!: exI [of _ i])
  from registered_present [OF this, of "to_lowercase domain"] c(2)
  have "registered (zip (map acc_domains ?cs) keys) (to_lowercase domain) \<noteq> None" by auto
  from spec_resolve_registered [OF this] show ?thesis
    by (simp add: m CertManager_resolve_def CertManager_reload_def store resolve_store_of)
qed

text \<open>
  C22: renewal needs a complete round. If one certificate of a round was renewed and another one
  then ends the round with an error, the new certificate is on disk but not served; and since
  it is no longer due, no later round in which nothing is due will serve it either, so that
  the old certificate is presented until it has expired.
\<close>

theorem renewal_round_lost:
  assumes failed: "check_and_renew env self manager w = (Err e, manager1, w1)"
    and due: "\<forall>c\<in>set (provider_all_certs self). \<exists>dom rest. acc_domains c = dom # rest \<and> provider_due env' self dom w1 = Ok False"
    and later: "check_and_renew env' self manager1 w1 = (r, manager2, w2)"
  shows "manager2 = manager \<and> wo_disk w2 = wo_disk w1"
proof -
  have m1: "manager1 = manager" using failed by (auto simp: check_and_renew_def split: prod.splits sum.splits)
  obtain r' w' where l: "renew_loop env' self (provider_all_certs self) CertStore_new False w1 = (r', w')"
    by (cases "renew_loop env' self (provider_all_certs self) CertStore_new False w1")
  from renew_not_due [OF due l] have "wo_disk w' = wo_disk w1" "case r' of Inl _ \<Rightarrow> True | Inr (_, renewed) \<Rightarrow> \<not> renewed"
    by simp_all
  then show ?thesis using later m1 l by (auto simp: check_and_renew_def split: sum.splits)
qed

definition example_token :: DnsProviderConfig where
  "example_token = \<lparr>dns_provider = ''cloudflare'', dns_api_token = ''t'', dns_api_token_file = None, dns_zone_id = Some ''zone''\<rparr>"

definition example_provider :: AcmeProvider where
  "example_provider = AcmeProvider_build
     \<lparr>acme_email = [], acme_staging = False, acme_storage = ''/acme'', acme_renew_before_days = 0,
      acme_certs = [\<lparr>acc_domains = [''a.com''], acc_dns = example_token\<rparr>, \<lparr>acc_domains = [''b.com''], acc_dns = example_token\<rparr>],
      acme_default_dns = None, acme_dns_providers = []\<rparr> []"

definition example_order :: acme_order where
  "example_order =
     \<lparr>or_authorizations = [], or_ready = Ok False, or_summary = Ok [], or_finalize = (\<lambda>_. Ok ()), or_certificate = Ok ''new''\<rparr>"

definition example_env :: "(string \<Rightarrow> string option) \<Rightarrow> (unit, example_zone, string, string, string) acme_env" where
  "example_env io_error =
     \<lparr>ev_now = 1, ev_io_error = io_error, ev_disk_ops = 6, ev_temp_error = None,
      ev_meta_from_json = (\<lambda>j. Ok \<lparr>me_expiry = (if j = ''old'' then 0 else 100), me_domains = [], me_created_at = 0\<rparr>),
      ev_meta_to_json = (\<lambda>_. Ok ''new''), ev_pem = example_pem, ev_server_url = (\<lambda>_. []),
      ev_from_credentials = (\<lambda>_. Ok ()), ev_create_account = (\<lambda>_ _. Ok ((), ''creds'')),
      ev_new_order = (\<lambda>_ _. Ok example_order), ev_read_file = (\<lambda>_. Err []), ev_env_var = (\<lambda>_. None),
      ev_header_ok = (\<lambda>_. True), ev_dns = example_dns, ev_csr = (\<lambda>_. Ok (''key2'', [])), ev_base64 = (\<lambda>_. Ok []),
      ev_expiry = (\<lambda>_. Some 100)\<rparr>"

definition example_world :: "string \<Rightarrow> example_zone world" where
  "example_world meta =
     \<lparr>wo_disk = [(''/acme/certs/production/a.com/cert.pem'', (''old'', 0x1A4)), (''/acme/certs/production/a.com/key.pem'', (''key'', 0x180)),
        (''/acme/certs/production/a.com/meta.json'', (meta, 0x1A4)),
        (''/acme/certs/production/b.com/cert.pem'', (''b'', 0x1A4)), (''/acme/certs/production/b.com/key.pem'', (''key'', 0x180)),
        (''/acme/certs/production/b.com/meta.json'', (''b'', 0x1A4))],
      wo_zone = [], wo_metrics = []\<rparr>"

definition example_flaky :: "string \<Rightarrow> string option" where
  "example_flaky p = (if p = ''/acme/certs/production/b.com/meta.json'' then Some ''EIO'' else None)"

lemma example_init: "fst (initialize (example_env (\<lambda>_. None)) example_provider CertManager_new (example_world ''new'')) = Ok ()"
  by code_simp

theorem acme_initialize_serves_witness:
  "CertManager_resolve (fst (snd (initialize (example_env (\<lambda>_. None)) example_provider CertManager_new (example_world ''new'')))) ''b.com'' \<noteq> None"
proof -
  obtain r m w where i: "initialize (example_env (\<lambda>_. None)) example_provider CertManager_new (example_world ''new'') = (r, m, w)"
    by (cases "initialize (example_env (\<lambda>_. None)) example_provider CertManager_new (example_world ''new'')")
  then have r: "r = Ok ()" using example_init by simp
  have "\<lparr>acc_domains = [''b.com''], acc_dns = example_token\<rparr> \<in> set (provider_all_certs example_provider)" by code_simp
  from acme_initialize_serves [OF i [unfolded r] this, of "''b.com''"] show ?thesis using i by simp
qed

theorem renewal_round_lost_witness:
  "let round1 = check_and_renew (example_env example_flaky) example_provider CertManager_new (example_world ''old'');
       round2 = check_and_renew (example_env (\<lambda>_. None)) example_provider (fst (snd round1)) (snd (snd round1))
   in fst (snd round2) = CertManager_new \<and>
      hm_get (wo_disk (snd (snd round2))) ''/acme/certs/production/a.com/cert.pem'' = Some (''new'', 0x1A4)"
proof -
  let ?e1 = "example_env example_flaky" and ?e2 = "example_env (\<lambda>_. None)" and ?p = example_provider
  obtain r1 m1 w1 where 1: "check_and_renew ?e1 ?p CertManager_new (example_world ''old'') = (r1, m1, w1)"
    by (cases "check_and_renew ?e1 ?p CertManager_new (example_world ''old'')")
  obtain r2 m2 w2 where 2: "check_and_renew ?e2 ?p m1 w1 = (r2, m2, w2)" by (cases "check_and_renew ?e2 ?p m1 w1")
  have eval: "fst (check_and_renew ?e1 ?p CertManager_new (example_world ''old'')) = Err (StorageErr (StorageIo ''EIO''))"
      "hm_get (wo_disk (snd (snd (check_and_renew ?e1 ?p CertManager_new (example_world ''old''))))) ''/acme/certs/production/a.com/cert.pem'' = Some (''new'', 0x1A4)"
      "list_all (\<lambda>c. provider_due ?e2 ?p (hd (acc_domains c)) (snd (snd (check_and_renew ?e1 ?p CertManager_new (example_world ''old'')))) = Ok False)
         (provider_all_certs ?p)"
      "list_all (\<lambda>c. acc_domains c \<noteq> []) (provider_all_certs ?p)"
    by code_simp+
  have "\<forall>c\<in>set (provider_all_certs ?p). \<exists>dom rest. acc_domains c = dom # rest \<and> provider_due ?e2 ?p dom w1 = Ok False"
    using eval(3,4) 1 by (auto simp: list_all_iff neq_Nil_conv) (metis list.sel(1))
  from renewal_round_lost [OF _ this 2] eval(1,2) 1 2 show ?thesis by auto
qed

end
