(* ===== verification/Wicket_Main.thy ===== *)
theory Wicket_Main
  imports Http_Proxy Stream_Proxy Acme
begin

text \<open>
  The proxy process (\<^verbatim>\<open>crates/wicket/src/main.rs\<close>): log level settings, the HTTPS address, the
  certificates at start-up, the construction of the HTTP and stream proxies, the loop that
  reloads the configuration file, the PID file and the notification of systemd. Binding sockets, the Pingora server and signals
  are not modelled; \<open>create_listener\<close> says whether a stream listener can be created.
\<close>

section \<open>Settings\<close>

definition tracing_filter_level :: "string \<Rightarrow> string" where
  "tracing_filter_level level =
     (let l = to_lowercase level in
      if l = ''trace'' then ''trace'' else if l = ''debug'' then ''debug'' else if l = ''info'' then ''info''
      else if l = ''warn'' \<or> l = ''warning'' then ''warn'' else if l = ''error'' then ''error'' else ''info'')"

definition default_tracing_filter :: "string \<Rightarrow> string" where
  "default_tracing_filter level =
     (let level = tracing_filter_level level in
      if level = ''trace'' \<or> level = ''debug''
      then ''info,wicket='' @ level @ '',wicket_tls='' @ level @ '',wicket_core='' @ level @ '',wicket_config='' @ level @
        '',wicket_stream='' @ level
      else level)"

definition acme_tracing_filter :: "string \<Rightarrow> string" where
  "acme_tracing_filter level =
     (let level = tracing_filter_level level in
      ''wicket_tls::acme='' @ level @ '',wicket_tls::acme::cloudflare='' @ level)"

datatype Level = LevelTrace | LevelDebug | LevelInfo | LevelWarning | LevelError

definition parse_verbosity :: "string \<Rightarrow> Level" where
  "parse_verbosity level =
     (let l = to_lowercase level in
      if l = ''trace'' then LevelTrace else if l = ''debug'' then LevelDebug else if l = ''info'' then LevelInfo
      else if l = ''warn'' \<or> l = ''warning'' then LevelWarning else if l = ''error'' then LevelError else LevelInfo)"

text \<open>The log settings: command line, then the logging section, then the server section.\<close>

definition effective_log_level :: "string option \<Rightarrow> Config \<Rightarrow> string" where
  "effective_log_level arg config =
     (case arg of
        Some l \<Rightarrow> l
      | None \<Rightarrow> unwrap_or (log_level (cfg_logging config)) (srv_log_level (cfg_server config)))"

definition effective_json_logs :: "bool \<Rightarrow> Config \<Rightarrow> bool" where
  "effective_json_logs arg config =
     (arg \<or> unwrap_or (map_option (\<lambda>f. f = JsonFormat) (log_format (cfg_logging config)))
               (srv_json_logs (cfg_server config)))"

text \<open>A layer of the subscriber: JSON or text, the file it writes (\<open>None\<close> is standard error), its filter.\<close>

type_synonym log_layer = "bool \<times> string option \<times> string"

definition init_logging ::
  "string option \<Rightarrow> (string \<Rightarrow> string + unit) \<Rightarrow> Config \<Rightarrow> string \<Rightarrow> bool \<Rightarrow> string + log_layer list" where
  "init_logging rust_log create_dir_all config level json =
     (let env_filter = unwrap_or rust_log (default_tracing_filter level);
          files = log_files (cfg_logging config) in
      if lf_enabled files then
        and_then (create_dir_all (lf_directory files)) (\<lambda>_.
        Ok [(json, None, env_filter),
            (json, Some (path_join (lf_directory files) (lf_error files)), env_filter),
            (json, Some (path_join (lf_directory files) (lf_acme files)), acme_tracing_filter level)])
      else Ok [(json, None, env_filter)])"

definition saturating_add_u16 :: "u16 \<Rightarrow> u16 \<Rightarrow> u16" where
  "saturating_add_u16 a b = (if unat a + unat b < 65536 then a + b else 65535)"

fun socket_addr_new :: "IpAddr \<Rightarrow> u16 \<Rightarrow> SocketAddr" where
  "socket_addr_new (V4 ip) port = SocketAddrV4 ip port"
| "socket_addr_new (V6 ip) port = SocketAddrV6 ip port 0"

definition compute_https_addr :: "SocketAddr \<Rightarrow> SocketAddr" where
  "compute_https_addr http_addr =
     (let https_port = (if addr_port http_addr = 80 then 443 else saturating_add_u16 (addr_port http_addr) 363) in
      socket_addr_new (addr_ip http_addr) https_port)"

section \<open>Certificates at start-up\<close>

datatype load_error = ConfigUnreadable string | ConfigRejected config_error

definition Config_load :: "(string \<Rightarrow> string + Config) \<Rightarrow> string + string \<Rightarrow> load_error + Config" where
  "Config_load toml_from_str content =
     (case content of
        Inl e \<Rightarrow> Err (ConfigUnreadable e)
      | Inr text \<Rightarrow>
          (case Config_parse toml_from_str text of Inl e \<Rightarrow> Err (ConfigRejected e) | Inr c \<Rightarrow> Ok c))"

datatype startup_error =
  UpgradeWithStreams | FileCertsFailed FileWatcherError | AcmeFailed AcmeError | EmptyCertStore
| ProxyFailed proxy_error | AcceptorFailed string | StreamFailed string StreamError
| ListenInvalid string | BindFailed string string

text \<open>The tasks that run next to the server.\<close>

datatype task = WatchFiles FileConfig | RenewAcme AcmeProvider

definition init_acme ::
  "('acct, 'z, 'der, 'pkey, 'skey) acme_env \<Rightarrow> Config \<Rightarrow> AcmeConfig \<Rightarrow> ('der, 'skey) CertifiedKey CertManager \<Rightarrow>
   task list \<Rightarrow> 'z world \<Rightarrow> (startup_error + task list) \<times> ('der, 'skey) CertifiedKey CertManager \<times> 'z world" where
  "init_acme env config acme_config manager tasks w =
     (let auto_tls_domains = collect_auto_tls_domains_with_providers config;
          self = AcmeProvider_build acme_config auto_tls_domains
      in case initialize env self manager w of
           (Inl e, manager, w) \<Rightarrow> (Err (AcmeFailed e), manager, w)
         | (Inr _, manager, w) \<Rightarrow> (Ok (tasks @ [RenewAcme self]), manager, w))"

definition init_file ::
  "('acct, 'z, 'der, 'pkey, 'skey) acme_env \<Rightarrow> FileConfig option \<Rightarrow> ('der, 'skey) CertifiedKey CertManager \<Rightarrow>
   'z world \<Rightarrow> (startup_error + task list) \<times> ('der, 'skey) CertifiedKey CertManager \<times> 'z world" where
  "init_file env file manager w =
     (case file of
        None \<Rightarrow> (Ok [], manager, w)
      | Some file_config \<Rightarrow>
          (case load_all (ev_pem env) (ev_read_file env) file_config manager of
             (Inl e, manager, ms) \<Rightarrow> (Err (FileCertsFailed e), manager, emit ms w)
           | (Inr _, manager, ms) \<Rightarrow>
               (Ok (if fc_watch file_config then [WatchFiles file_config] else []), manager, emit ms w)))"

definition init_certs ::
  "('acct, 'z, 'der, 'pkey, 'skey) acme_env \<Rightarrow> Config \<Rightarrow> TlsConfig \<Rightarrow> 'z world \<Rightarrow>
   (startup_error + task list) \<times> ('der, 'skey) CertifiedKey CertManager \<times> 'z world" where
  "init_certs env config tls_config w =
     (let manager = CertManager_new in
      case tls_mode tls_config of
        File \<Rightarrow> init_file env (tls_file tls_config) manager w
      | Acme \<Rightarrow>
          (case tls_acme tls_config of
             Some acme_config \<Rightarrow> init_acme env config acme_config manager [] w
           | None \<Rightarrow> (Ok [], manager, w))
      | Mixed \<Rightarrow>
          (case init_file env (tls_file tls_config) manager w of
             (Inl e, manager, w) \<Rightarrow> (Err e, manager, w)
           | (Inr tasks, manager, w) \<Rightarrow>
               (case tls_acme tls_config of
                  Some acme_config \<Rightarrow> init_acme env config acme_config manager tasks w
                | None \<Rightarrow> (Ok tasks, manager, w))))"

definition init_tls ::
  "('acct, 'z, 'der, 'pkey, 'skey) acme_env \<Rightarrow> Config \<Rightarrow> 'z world \<Rightarrow>
   (startup_error + task list \<times> ('der, 'skey) CertifiedKey CertManager option) \<times> 'z world" where
  "init_tls env config w =
     (case cfg_tls config of
        None \<Rightarrow> (Ok ([], None), w)
      | Some tls_config \<Rightarrow>
          (case init_certs env config tls_config w of
             (Inl e, manager, w) \<Rightarrow> (Err e, w)
           | (Inr tasks, manager, w) \<Rightarrow>
               (if CertManager_is_empty manager then Err EmptyCertStore else Ok (tasks, Some manager), w)))"

section \<open>The HTTPS listener\<close>

datatype 'v handshake = HandshakeDone "string option" 'v | HandshakeFailed | HandshakeTimedOut

datatype 'v handshake_metric = HandshakeSuccess string 'v | HandshakeError string string

text \<open>
  A connection of the HTTPS listener: it gets the next stream number, which wraps around, and
  goes to the proxy with the server name of the handshake if that succeeds.
\<close>

definition https_accept ::
  "SocketAddr \<Rightarrow> 32 word \<Rightarrow> 'v handshake \<Rightarrow> (32 word \<times> string option) option \<times> 32 word \<times> 'v handshake_metric" where
  "https_accept addr next_id outcome =
     (let listener_label = show_socket_addr addr in
      case outcome of
        HandshakeDone tls_sni info \<Rightarrow> (Some (next_id, tls_sni), next_id + 1, HandshakeSuccess listener_label info)
      | HandshakeFailed \<Rightarrow> (None, next_id + 1, HandshakeError listener_label ''failure'')
      | HandshakeTimedOut \<Rightarrow> (None, next_id + 1, HandshakeError listener_label ''timeout''))"

section \<open>Starting and reloading the proxies\<close>

text \<open>
  The process: the HTTP proxy with its listeners, the stream proxies by name with their shared
  upstream objects, the other tasks, and the modification time of the configuration file that
  was loaded last.
\<close>

record ('rr, 'kt, 'cm) wicket =
  wk_http :: "('rr, 'kt, 'cm) WicketProxy"
  wk_http_listen :: "SocketAddr list"
  wk_https_listen :: "SocketAddr option"
  wk_streams :: "(string, StreamProxy) hashmap"
  wk_heap :: "Upstream list"
  wk_tasks :: "task list"
  wk_last_modified :: "nat option"

text \<open>\<open>create_listener\<close> gets the address, the backlog and whether the port is shared.\<close>

fun start_streams ::
  "(SocketAddr \<Rightarrow> u32 \<Rightarrow> bool \<Rightarrow> string + unit) \<Rightarrow> StreamConfig list \<Rightarrow> (string, StreamProxy) hashmap \<Rightarrow> Upstream list \<Rightarrow>
   startup_error + (string, StreamProxy) hashmap \<times> Upstream list" where
  "start_streams create_listener [] proxies heap = Ok (proxies, heap)"
| "start_streams create_listener (c # cs) proxies heap =
     (case from_config c heap of
        Inl e \<Rightarrow> Err (StreamFailed (st_name c) e)
      | Inr (proxy, heap) \<Rightarrow>
          (case parse_socket_addr (st_listen c) of
             None \<Rightarrow> Err (ListenInvalid (st_name c))
           | Some addr \<Rightarrow>
               (case create_listener addr (st_backlog c) (st_reuseport c) of
                  Inl e \<Rightarrow> Err (BindFailed (st_name c) e)
                | Inr _ \<Rightarrow> start_streams create_listener cs (hm_insert (st_name c) proxy proxies) heap)))"

definition run_server ::
  "('acct, 'z, 'der, 'pkey, 'skey) acme_env \<Rightarrow> ('rr, 'kt) lb_library \<Rightarrow> (string \<Rightarrow> string + unit) \<Rightarrow>
   (string \<Rightarrow> string + unit) \<Rightarrow> string + unit \<Rightarrow> (SocketAddr \<Rightarrow> u32 \<Rightarrow> bool \<Rightarrow> string + unit) \<Rightarrow> nat option \<Rightarrow>
   Config \<Rightarrow> bool \<Rightarrow> 'z world \<Rightarrow>
   (startup_error + ('rr, 'kt, ('der, 'skey) CertifiedKey CertManager) wicket) \<times> 'z world" where
  "run_server env lib create_dir_all open_append tls_acceptor create_listener modified config upgrade w =
     (if upgrade \<and> cfg_streams config \<noteq> [] then (Err UpgradeWithStreams, w)
      else
        (case init_tls env config w of
           (Inl e, w) \<Rightarrow> (Err e, w)
         | (Inr (tasks, cert_manager), w) \<Rightarrow>
             (case WicketProxy_new lib create_dir_all open_append config of
                Inl e \<Rightarrow> (Err (ProxyFailed e), w)
              | Inr proxy \<Rightarrow>
                  let server = cfg_server config;
                      proxy = (case cert_manager of Some cm \<Rightarrow> with_cert_manager cm proxy | None \<Rightarrow> proxy);
                      http = (if srv_disable_http server then [] else http_listen_addrs server) in
                  (case (case cert_manager of
                           None \<Rightarrow> Ok None
                         | Some _ \<Rightarrow>
                             (case tls_acceptor of
                                Inl e \<Rightarrow> Err (AcceptorFailed e)
                              | Inr _ \<Rightarrow>
                                  Ok (Some (case srv_https_listen server of
                                              Some addr \<Rightarrow> addr
                                            | None \<Rightarrow> compute_https_addr (srv_listen server))))) of
                     Inl e \<Rightarrow> (Err e, w)
                   | Inr https \<Rightarrow>
                       (case start_streams create_listener (cfg_streams config) [] [] of
                          Inl e \<Rightarrow> (Err e, w)
                        | Inr (streams, heap) \<Rightarrow>
                            (Ok \<lparr>wk_http = proxy, wk_http_listen = http, wk_https_listen = https,
                                 wk_streams = streams, wk_heap = heap, wk_tasks = tasks,
                                 wk_last_modified = modified\<rparr>, w))))))"

definition listener_set_changed :: "(string, StreamProxy) hashmap \<Rightarrow> StreamConfig list \<Rightarrow> bool" where
  "listener_set_changed running new_streams =
     (length running \<noteq> length new_streams \<or>
      list_ex (\<lambda>stream.
        (case hm_get running (st_name stream) of
           None \<Rightarrow> True
         | Some proxy \<Rightarrow> show_socket_addr (sp_local_addr proxy) \<noteq> st_listen stream)) new_streams)"

fun reload_streams ::
  "StreamConfig list \<Rightarrow> (string, StreamProxy) hashmap \<Rightarrow> Upstream list \<Rightarrow> (string, StreamProxy) hashmap \<times> Upstream list" where
  "reload_streams [] proxies heap = (proxies, heap)"
| "reload_streams (c # cs) proxies heap =
     (case hm_get proxies (st_name c) of
        None \<Rightarrow> reload_streams cs proxies heap
      | Some proxy \<Rightarrow>
          (case reload proxy c heap of
             (_, proxy', heap') \<Rightarrow> reload_streams cs (hm_insert (st_name c) proxy' proxies) heap'))"

text \<open>One turn of the loop that watches the configuration file.\<close>

definition config_tick ::
  "('rr, 'kt) lb_library \<Rightarrow> (string \<Rightarrow> string + Config) \<Rightarrow> ('rr, 'kt, 'cm) wicket \<Rightarrow> nat option \<times> (string + string) \<Rightarrow>
   ('rr, 'kt, 'cm) wicket" where
  "config_tick lib toml_from_str wk file =
     (case file of (current_modified, content) \<Rightarrow>
      if current_modified \<noteq> wk_last_modified wk then
        (case Config_load toml_from_str content of
           Inl e \<Rightarrow> wk
         | Inr new_config \<Rightarrow>
             let wk = wk\<lparr>wk_http := snd (apply_reload lib new_config (wk_http wk))\<rparr>;
                 wk = (if listener_set_changed (wk_streams wk) (cfg_streams new_config) then wk
                       else
                         (case reload_streams (cfg_streams new_config) (wk_streams wk) (wk_heap wk) of
                            (streams, heap) \<Rightarrow> wk\<lparr>wk_streams := streams, wk_heap := heap\<rparr>))
             in wk\<lparr>wk_last_modified := current_modified\<rparr>)
      else wk)"

section \<open>PID file\<close>

text \<open>The temporary file is created, given its permissions, written, and renamed.\<close>

definition write_pid_file :: "nat \<Rightarrow> string \<Rightarrow> string \<Rightarrow> u32 \<Rightarrow> disk_op list" where
  "write_pid_file create_mode parent file_name pid =
     (let tmp_path = path_join parent (''.'' @ file_name @ ''.'' @ show_nat (unat pid) @ ''.tmp'') in
      [WriteFile tmp_path [] create_mode, WriteFile tmp_path [] 0x1A0,
       WriteFile tmp_path (show_nat (unat pid) @ [CHR 0x0A]) 0x1A0,
       RenameFile tmp_path (path_join parent file_name)])"

definition pid_file_matches_pid :: "(string \<Rightarrow> string option) \<Rightarrow> disk \<Rightarrow> string \<Rightarrow> u32 \<Rightarrow> string + bool" where
  "pid_file_matches_pid io_error d path pid =
     (case io_error path of
        Some e \<Rightarrow> Err e
      | None \<Rightarrow>
          (case hm_get d path of
             None \<Rightarrow> Ok False
           | Some (contents, _) \<Rightarrow>
               Ok (map_option of_nat (parse_unsigned 4294967296 (trim contents)) = Some pid)))"

definition drop_pid_guard :: "(string \<Rightarrow> string option) \<Rightarrow> string \<Rightarrow> u32 \<Rightarrow> disk \<Rightarrow> disk" where
  "drop_pid_guard io_error path pid d =
     (if pid_file_matches_pid io_error d path pid = Ok True then hm_remove path d else d)"

section \<open>Notification of the service manager\<close>

fun join_lines :: "string list \<Rightarrow> string" where
  "join_lines [] = []"
| "join_lines [l] = l"
| "join_lines (l # ls) = l @ CHR 0x0A # join_lines ls"

text \<open>\<^verbatim>\<open>sockaddr_un\<close> has two bytes of family and 108 bytes of path.\<close>

definition sun_path_size :: nat where "sun_path_size = 108"
definition sockaddr_un_size :: nat where "sockaddr_un_size = 110"

datatype notify = NotifyPath string string | NotifyAbstract "char list" nat string | NotifyTooLong

text \<open>The address buffer, the length passed with it, and the payload.\<close>

definition systemd_notify_abstract :: "string \<Rightarrow> string \<Rightarrow> notify" where
  "systemd_notify_abstract socket payload =
     (let name = tl socket in
      if length name + 2 > sockaddr_un_size then NotifyTooLong
      else
        let stored = take (sun_path_size - 1) name;
            sun_path = CHR 0x00 # stored @ replicate (sun_path_size - 1 - length stored) CHR 0x00;
            addr_len = 2 + 1 + length name
        in NotifyAbstract sun_path addr_len payload)"

definition systemd_notify :: "string \<Rightarrow> (string \<times> string) list \<Rightarrow> notify" where
  "systemd_notify socket entries =
     (let payload = join_lines (map (\<lambda>(key, v). key @ ''='' @ v) entries) in
      if starts_with socket ''@'' then systemd_notify_abstract socket payload else NotifyPath socket payload)"

definition systemd_notify_ready :: "string option \<Rightarrow> u32 \<Rightarrow> string \<Rightarrow> notify option" where
  "systemd_notify_ready notify_socket pid status =
     map_option (\<lambda>socket.
       systemd_notify socket [(''READY'', ''1''), (''MAINPID'', show_nat (unat pid)), (''STATUS'', status)]) notify_socket"

section \<open>Consistency of the process\<close>

text \<open>Every name a route answers with is an upstream of the same proxy.\<close>

definition http_consistent :: "('rr, 'kt, 'cm) WicketProxy \<Rightarrow> bool" where
  "http_consistent wp = (cr_upstream ` set (rt_routes (wp_router wp)) \<subseteq> dom (hm_get (wp_upstreams wp)))"

definition stream_consistent :: "Upstream list \<Rightarrow> StreamProxy \<Rightarrow> bool" where
  "stream_consistent heap p =
     (table_ok (length heap) (sp_upstreams p) \<and> router_targets (sp_router p) \<subseteq> dom (hm_get (sp_upstreams p)))"

definition wicket_inv :: "('rr, 'kt, 'cm) wicket \<Rightarrow> bool" where
  "wicket_inv wk =
     (http_consistent (wk_http wk) \<and> list_all wf_upstream (wk_heap wk) \<and>
      (\<forall>name p. hm_get (wk_streams wk) name = Some p \<longrightarrow> stream_consistent (wk_heap wk) p))"

text \<open>What no reload changes of a stream proxy.\<close>

definition fixed_part :: "StreamProxy \<Rightarrow> StreamProxy" where
  "fixed_part p = p\<lparr>sp_router := SniRouter_new [] None, sp_upstreams := []\<rparr>"

lemma build_clusters_dom:
  "build_clusters lib configs table = Ok t \<Longrightarrow> dom (hm_get t) = fst ` set configs \<union> dom (hm_get table)"
proof (induction lib configs table arbitrary: t rule: build_clusters.induct)
  case (2 lib name config configs table)
  then obtain c where "build_clusters lib configs (hm_insert name c table) = Ok t" by (auto simp: and_then_Ok_iff)
  from 2(1) [OF this] show ?case unfolding hm_get_insert dom_fun_upd by auto
qed simp

lemma Router_build_upstreams:
  assumes "Router_build rs = Ok router"
  shows "cr_upstream ` set (rt_routes router) = rc_upstream ` set rs"
proof -
  obtain crs where crs: "try_map CompiledRoute_compile rs = Ok crs" "router = \<lparr>rt_routes = crs\<rparr>"
    using assms by (auto simp: Router_build_def and_then_Ok_iff)
  then have "list_all2 (\<lambda>r cr. CompiledRoute_compile r = Ok cr) rs crs" by (simp add: try_map_Ok_iff)
  then have "map cr_upstream crs = map rc_upstream rs"
    by (induction rule: list_all2_induct) (auto simp: CompiledRoute_compile_def and_then_Ok_iff)
  then show ?thesis using crs(2) by (metis Router.select_convs(1) list.set_map)
qed

lemma reload_parts_consistent:
  assumes "reload_parts lib c = Ok (router, ups)" "config_wf c"
  shows "cr_upstream ` set (rt_routes router) \<subseteq> dom (hm_get ups)"
proof -
  have parts: "Router_build (cfg_routes c) = Ok router" "build_clusters lib (cfg_upstreams c) [] = Ok ups"
    using assms(1) by (auto simp: reload_parts_def and_then_Ok_iff build_router_def WicketProxy_build_upstreams_def split: sum.splits)
  have "rc_upstream ` set (cfg_routes c) \<subseteq> fst ` set (cfg_upstreams c)"
    using assms(2) by (auto simp: config_wf_def route_wf_def)
  then show ?thesis using Router_build_upstreams [OF parts(1)] build_clusters_dom [OF parts(2)] by (simp add: le_supI1)
qed

lemma apply_reload_consistent:
  "http_consistent wp \<Longrightarrow> config_wf c \<Longrightarrow> http_consistent (snd (apply_reload lib c wp))"
  using reload_parts_consistent [of lib c]
  by (simp add: apply_reload_def http_consistent_def store_router_def store_upstreams_def split: sum.split prod.split)

lemma apply_reload_cert_manager: "wp_cert_manager (snd (apply_reload lib c wp)) = wp_cert_manager wp"
  by (simp add: apply_reload_def store_router_def store_upstreams_def split: sum.split prod.split)

lemma WicketProxy_new_consistent:
  assumes "WicketProxy_new lib mk op c = Ok wp" "config_wf c"
  shows "http_consistent wp"
proof -
  have "reload_parts lib c = Ok (wp_router wp, wp_upstreams wp)"
    using assms(1) by (auto simp: WicketProxy_new_def reload_parts_def and_then_Ok_iff)
  from reload_parts_consistent [OF this assms(2)] show ?thesis by (simp add: http_consistent_def)
qed

lemma stream_consistent_mono: "stream_consistent heap p \<Longrightarrow> stream_consistent (heap @ fresh) p"
  by (auto simp: stream_consistent_def intro: table_ok_mono)

text \<open>Both ways to give a stream proxy its tables go through the same construction.\<close>

lemma reload_consistent:
  assumes "reload p c heap = (r, p', heap')" "stream_wf c" "stream_consistent heap p"
  shows "stream_consistent heap' p' \<and> fixed_part p' = fixed_part p \<and>
    (\<exists>fresh. heap' = heap @ fresh \<and> list_all wf_upstream fresh)"
proof (cases "reload_build c heap")
  case (Inl e)
  then show ?thesis using assms by (auto simp: reload_def)
next
  case (Inr v)
  then obtain router table h where b: "reload_build c heap = Ok (router, table, h)" by (cases v) auto
  then have "p' = p\<lparr>sp_router := router, sp_upstreams := table\<rparr>" "heap' = h"
    using assms(1) by (auto simp: reload_def)
  with reload_build_spec [OF b assms(2)] show ?thesis
    by (auto simp: stream_consistent_def fixed_part_def list_all_iff)
qed

lemma from_config_consistent:
  assumes "from_config c heap = Ok (p, heap')" "stream_wf c"
  shows "stream_consistent heap' p \<and> parse_socket_addr (st_listen c) = Some (sp_local_addr p) \<and>
    (\<exists>fresh. heap' = heap @ fresh \<and> list_all wf_upstream fresh)"
proof -
  have b: "reload_build c heap = Ok (sp_router p, sp_upstreams p, heap')"
    and l: "parse_socket_addr (st_listen c) = Some (sp_local_addr p)"
    using assms(1) by (auto simp: from_config_def reload_build_def Let_def and_then_Ok_iff split: option.splits)
  from reload_build_spec [OF b assms(2)] l show ?thesis by (auto simp: stream_consistent_def list_all_iff)
qed

definition streams_consistent :: "(string, StreamProxy) hashmap \<Rightarrow> Upstream list \<Rightarrow> bool" where
  "streams_consistent m heap =
     (list_all wf_upstream heap \<and> (\<forall>name p. hm_get m name = Some p \<longrightarrow> stream_consistent heap p))"

lemma streams_consistent_insert:
  assumes "streams_consistent m heap" "stream_consistent (heap @ fresh) p" "list_all wf_upstream fresh"
  shows "streams_consistent (hm_insert name p m) (heap @ fresh)"
  using assms by (auto simp: streams_consistent_def hm_simps stream_consistent_mono)

lemma start_streams_consistent:
  assumes "start_streams create cs m heap = Ok (m', heap')" "\<forall>c\<in>set cs. stream_wf c" "streams_consistent m heap"
  shows "streams_consistent m' heap'"
  using assms
proof (induction cs arbitrary: m heap)
  case (Cons c cs)
  from Cons.prems(1) obtain p h where f: "from_config c heap = Ok (p, h)"
    and rest: "start_streams create cs (hm_insert (st_name c) p m) h = Ok (m', heap')"
    by (auto split: sum.splits option.splits)
  from from_config_consistent [OF f] Cons.prems(2) obtain fresh
    where "h = heap @ fresh" "list_all wf_upstream fresh" "stream_consistent h p" by auto
  with Cons.prems(3) have "streams_consistent (hm_insert (st_name c) p m) h" by (simp add: streams_consistent_insert)
  with Cons.IH [OF rest] Cons.prems(2) show ?case by simp
qed simp

lemma reload_streams_consistent:
  assumes "reload_streams cs m heap = (m', heap')" "\<forall>c\<in>set cs. stream_wf c" "streams_consistent m heap"
  shows "streams_consistent m' heap' \<and>
    (\<forall>name. map_option fixed_part (hm_get m' name) = map_option fixed_part (hm_get m name))"
  using assms
proof (induction cs arbitrary: m heap)
  case (Cons c cs)
  show ?case
  proof (cases "hm_get m (st_name c)")
    case None
    with Cons show ?thesis by simp
  next
    case (Some p)
    obtain r p1 h1 where r: "reload p c heap = (r, p1, h1)" by (cases "reload p c heap")
    have "stream_consistent heap p" using Cons.prems(3) Some by (auto simp: streams_consistent_def)
    from reload_consistent [OF r _ this] Cons.prems(2) obtain fresh
      where h: "h1 = heap @ fresh" "list_all wf_upstream fresh" and p: "stream_consistent h1 p1" "fixed_part p1 = fixed_part p"
      by auto
    have "streams_consistent (hm_insert (st_name c) p1 m) h1"
      using Cons.prems(3) h p(1) by (simp add: streams_consistent_insert)
    moreover have "reload_streams cs (hm_insert (st_name c) p1 m) h1 = (m', heap')" using Cons.prems(1) Some r by simp
    ultimately show ?thesis using Cons.IH Cons.prems(2) Some p(2) by (fastforce simp: hm_simps)
  qed
qed simp

text \<open>What stays as it was started.\<close>

definition same_listeners :: "('rr, 'kt, 'cm) wicket \<Rightarrow> ('rr, 'kt, 'cm) wicket \<Rightarrow> bool" where
  "same_listeners wk wk' =
     (wk_http_listen wk' = wk_http_listen wk \<and> wk_https_listen wk' = wk_https_listen wk \<and> wk_tasks wk' = wk_tasks wk \<and>
      wp_cert_manager (wk_http wk') = wp_cert_manager (wk_http wk) \<and>
      (\<forall>name. map_option fixed_part (hm_get (wk_streams wk') name) = map_option fixed_part (hm_get (wk_streams wk) name)))"

lemma Config_load_wf: "Config_load toml content = Ok c \<Longrightarrow> config_wf c"
  by (auto simp: Config_load_def Config_parse_def and_then_Ok_iff validate_iff split: sum.splits)

lemma wicket_inv_alt:
  "wicket_inv wk \<longleftrightarrow> http_consistent (wk_http wk) \<and> streams_consistent (wk_streams wk) (wk_heap wk)"
  by (auto simp: wicket_inv_def streams_consistent_def)

lemma config_tick_inv:
  assumes "wicket_inv wk"
  shows "wicket_inv (config_tick lib toml wk file) \<and> same_listeners wk (config_tick lib toml wk file)"
proof (cases "\<exists>c. fst file \<noteq> wk_last_modified wk \<and> Config_load toml (snd file) = Ok c")
  case False
  then have "config_tick lib toml wk file = wk"
    by (auto simp: config_tick_def split: prod.split sum.split)
  then show ?thesis using assms by (simp add: same_listeners_def)
next
  case True
  then obtain c where c: "fst file \<noteq> wk_last_modified wk" "Config_load toml (snd file) = Ok c" by blast
  have wf: "config_wf c" "\<forall>s\<in>set (cfg_streams c). stream_wf s"
    using Config_load_wf [OF c(2)] by (auto simp: config_wf_def streams_wf_def)
  obtain m h where r: "reload_streams (cfg_streams c) (wk_streams wk) (wk_heap wk) = (m, h)"
    by (cases "reload_streams (cfg_streams c) (wk_streams wk) (wk_heap wk)")
  note inv = assms [unfolded wicket_inv_alt]
  from reload_streams_consistent [OF r wf(2)] inv
  have "streams_consistent m h" "\<And>name. map_option fixed_part (hm_get m name) = map_option fixed_part (hm_get (wk_streams wk) name)"
    by simp_all
  then show ?thesis
    using inv c r apply_reload_consistent [OF conjunct1 [OF inv] wf(1), of lib]
    by (cases "file") (simp add: config_tick_def Let_def wicket_inv_alt same_listeners_def apply_reload_cert_manager)
qed

interpretation proc: invariant_machine "config_tick lib toml" "\<lambda>_. True" wicket_inv
  by unfold_locales (simp add: config_tick_inv)

lemma run_server_inv:
  fixes wk :: "('rr, 'kt, ('der, 'skey) CertifiedKey CertManager) wicket"
  assumes "run_server env lib mk op acc create modified config upgrade w = (Ok wk, w')" "config_wf config"
  shows "wicket_inv wk"
proof -
  obtain proxy :: "('rr, 'kt, ('der, 'skey) CertifiedKey CertManager) WicketProxy" where
    p: "WicketProxy_new lib mk op config = Ok proxy"
    using assms(1) unfolding run_server_def Let_def
    by (auto split: if_splits prod.splits sum.splits)
  then have eq: "wp_router (wk_http wk) = wp_router proxy" "wp_upstreams (wk_http wk) = wp_upstreams proxy"
    and s: "start_streams create (cfg_streams config) [] [] = Ok (wk_streams wk, wk_heap wk)"
    using assms(1) unfolding run_server_def Let_def
    by (auto simp: with_cert_manager_def split: if_splits sum.splits prod.splits option.splits)
  have "http_consistent (wk_http wk)"
    using WicketProxy_new_consistent [OF p assms(2)] eq by (simp add: http_consistent_def)
  moreover have "streams_consistent (wk_streams wk) (wk_heap wk)"
    using start_streams_consistent [OF s] assms(2)
    by (simp add: config_wf_def streams_wf_def streams_consistent_def)
  ultimately show ?thesis by (simp add: wicket_inv_alt)
qed

section \<open>Lemmas on the settings\<close>

lemma saturating_add_u16_spec: "unat (saturating_add_u16 a b) = min (unat a + unat b) 65535"
  by (auto simp: saturating_add_u16_def unat_word_ariths min_def)

lemma addr_socket_addr_new [simp]: "addr_ip (socket_addr_new ip port) = ip" "addr_port (socket_addr_new ip port) = port"
  by (cases ip; simp)+

lemma registered_mem: "registered rs n = Some k \<Longrightarrow> \<exists>ds\<in>fst ` set rs. n \<in> to_lowercase ` set ds"
  using registered_Some [of rs n k] by force

text \<open>A store without a default serves only names that were registered, exactly or as a wildcard.\<close>

lemma spec_resolve_covered:
  assumes "spec_resolve rs None sni = Some k"
  shows "\<exists>ds\<in>fst ` set rs. \<exists>d\<in>set ds. to_lowercase d = to_lowercase sni \<or>
    (\<exists>l parent. split_once CHR ''.'' (to_lowercase sni) = Some (l, parent) \<and> to_lowercase d = ''*.'' @ parent)"
proof (cases "registered rs (to_lowercase sni)")
  case None
  then obtain l parent where s: "split_once CHR ''.'' (to_lowercase sni) = Some (l, parent)"
    and r: "registered rs (''*.'' @ parent) = Some k"
    using assms by (auto simp: spec_resolve_def bind_eq_Some_conv split: option.splits)
  from registered_mem [OF r] obtain ds d where "ds \<in> fst ` set rs" "d \<in> set ds" "to_lowercase d = ''*.'' @ parent"
    by (metis imageE)
  with s show ?thesis by metis
next
  case (Some c)
  from registered_mem [OF this] obtain ds d where "ds \<in> fst ` set rs" "d \<in> set ds" "to_lowercase d = to_lowercase sni"
    by (metis imageE)
  then show ?thesis by metis
qed

lemma initialize_store:
  assumes "initialize env self manager w = (Ok (), manager', w')" "provider_all_certs self \<noteq> []"
  shows "\<exists>keys. length keys = length (provider_all_certs self) \<and>
    cm_store manager' = store_of (zip (map acc_domains (provider_all_certs self)) keys) None"
proof -
  obtain store w1 where l: "init_loop env self (provider_all_certs self) CertStore_new w = (Ok store, w1)"
      and m: "manager' = CertManager_reload store manager"
    using assms by (auto simp: initialize_def Let_def split: prod.splits sum.splits if_splits)
  from init_loop_store [OF l] m show ?thesis by (auto simp: store_of_None CertManager_reload_def)
qed

section \<open>Properties\<close>

text \<open>
  C23: the process stays consistent under any sequence of changes of the configuration file,
  readable or not, valid or not. From a start with a valid configuration on, every route of the
  HTTP proxy names an upstream of the HTTP proxy and every SNI route of a stream proxy names an
  upstream of that stream proxy, which exists and has backends; and the listeners, their
  addresses and settings, the certificate manager and the background tasks are the ones that
  were started.
\<close>

theorem process_stays_consistent:
  fixes wk :: "('rr, 'kt, ('der, 'skey) CertifiedKey CertManager) wicket"
  assumes start: "run_server env lib mk op acc create modified config upgrade w = (Ok wk, w')"
    and valid: "validate config = Ok ()"
  shows "wicket_inv (foldl (config_tick lib toml) wk changes) \<and>
    same_listeners wk (foldl (config_tick lib toml) wk changes)"
proof
  have inv: "wicket_inv wk" using run_server_inv [OF start] valid by (simp add: validate_iff)
  then show "wicket_inv (foldl (config_tick lib toml) wk changes)"
    by (rule proc.run_inv) (simp add: list_all_iff)
  show "same_listeners wk (foldl (config_tick lib toml) wk changes)"
  proof (rule proc.run_stable [of "same_listeners wk"])
    fix s :: "('rr, 'kt, ('der, 'skey) CertifiedKey CertManager) wicket" and e
    assume "wicket_inv s" "same_listeners wk s"
    with config_tick_inv [OF this(1), of lib toml e] show "same_listeners wk (config_tick lib toml s e)"
      by (simp add: same_listeners_def)
  qed (use inv in \<open>simp_all add: list_all_iff same_listeners_def\<close>)
qed

definition example_process :: "string \<Rightarrow> Config" where
  "example_process up = Config_default\<lparr>cfg_streams := [example_stream up]\<rparr>"

definition example_run :: "startup_error + (string list, string list, (string, string) CertifiedKey CertManager) wicket" where
  "example_run = fst (run_server (example_env (\<lambda>_. None)) example_lib (\<lambda>_. Ok ()) (\<lambda>_. Ok ()) (Ok ()) (\<lambda>_ _ _. Ok ())
     (Some 0) (example_process ''a'') False (example_world ''new''))"

lemma example_logging: "logging_wf LoggingConfig_default" "trim ''s'' \<noteq> []"
  by code_simp+

lemma example_process_valid: "validate (example_process up) = Ok ()"
  unfolding validate_iff
  by (simp add: config_wf_def example_process_def Config_default_def streams_wf_def example_stream_wf)
     (simp add: example_stream_def example_listen example_logging)

lemma example_started:
  "\<exists>wk w'. run_server (example_env (\<lambda>_. None)) example_lib (\<lambda>_. Ok ()) (\<lambda>_. Ok ()) (Ok ()) (\<lambda>_ _ _. Ok ())
      (Some 0) (example_process ''a'') False (example_world ''new'') = (Ok wk, w') \<and>
    wk_streams wk = [(''s'', example_proxy)] \<and> wk_heap wk = [example_upstream ''a''] \<and> wk_last_modified wk = Some 0"
proof -
  have "start_streams (\<lambda>_ _ _. Ok ()) [example_stream ''a''] [] [] = Ok ([(''s'', example_proxy)], [example_upstream ''a''])"
    by (simp add: example_from_config) (simp add: example_stream_def example_listen hm_insert_def)
  then show ?thesis
    by (simp add: run_server_def Let_def init_tls_def example_process_def Config_default_def WicketProxy_new_def
        build_router_def Router_build_def WicketProxy_build_upstreams_def AccessLogger_from_config_def)
qed

lemma example_show: "show_socket_addr (SocketAddrV4 (Ipv4 0 0 0 0) 443) = ''0.0.0.0:443''"
  by code_simp

lemma example_tick:
  assumes "wk_streams wk = [(''s'', example_proxy)]" "wk_heap wk = [example_upstream ''a'']" "wk_last_modified wk = Some 0"
  shows "wk_streams (config_tick lib (\<lambda>_. Ok (example_process ''b'')) wk (Some 2, Ok text)) =
    [(''s'', example_proxy\<lparr>sp_router := SniRouter_new [] (Some ''b''), sp_upstreams := example_table ''b'' 1\<rparr>)]"
proof -
  have c: "Config_load (\<lambda>_. Ok (example_process ''b'')) (Ok text) = Ok (example_process ''b'')"
    by (simp add: Config_load_def Config_parse_def example_process_valid)
  have streams: "cfg_streams (example_process ''b'') = [example_stream ''b'']" by (simp add: example_process_def)
  have "\<not> listener_set_changed (wk_streams wk) [example_stream ''b'']"
    by (simp add: listener_set_changed_def assms hm_get_def example_stream_def example_proxy_def example_show
        del: show_socket_addr.simps)
  moreover have "reload_build (example_stream ''b'') [example_upstream ''a''] =
      Ok (SniRouter_new [] (Some ''b''), example_table ''b'' 1, [example_upstream ''a'', example_upstream ''b''])"
    using example_build [of "''b''" "[example_upstream ''a'']"]
    by (simp add: reload_build_def Let_def example_stream_def)
  moreover have "st_name (example_stream ''b'') = ''s''" by (simp add: example_stream_def)
  ultimately show ?thesis
    using assms by (simp add: config_tick_def Let_def c streams reload_def hm_get_def hm_insert_def)
qed

theorem process_stays_consistent_witness:
  "\<exists>wk. example_run = Ok wk \<and>
     (let wk' = foldl (config_tick example_lib (\<lambda>_. Ok (example_process ''b''))) wk [(Some 1, Err ''io''), (Some 2, Ok ''toml'')] in
      wicket_inv wk' \<and> same_listeners wk wk' \<and>
      map_option (\<lambda>p. match_sni (sp_router p) None) (hm_get (wk_streams wk') ''s'') = Some (Some ''b''))"
proof -
  obtain wk w' where r: "run_server (example_env (\<lambda>_. None)) example_lib (\<lambda>_. Ok ()) (\<lambda>_. Ok ()) (Ok ()) (\<lambda>_ _ _. Ok ())
      (Some 0) (example_process ''a'') False (example_world ''new'') = (Ok wk, w')"
    and s: "wk_streams wk = [(''s'', example_proxy)]" "wk_heap wk = [example_upstream ''a'']" "wk_last_modified wk = Some 0"
    using example_started by blast
  from process_stays_consistent [OF r example_process_valid] have
    "wicket_inv (foldl (config_tick example_lib (\<lambda>_. Ok (example_process ''b''))) wk [(Some 1, Err ''io''), (Some 2, Ok ''toml'')])"
    "same_listeners wk (foldl (config_tick example_lib (\<lambda>_. Ok (example_process ''b''))) wk [(Some 1, Err ''io''), (Some 2, Ok ''toml'')])"
    by blast+
  moreover have "example_run = Ok wk" using r by (simp add: example_run_def)
  moreover have "map_option (\<lambda>p. match_sni (sp_router p) None)
      (hm_get (wk_streams (foldl (config_tick example_lib (\<lambda>_. Ok (example_process ''b''))) wk [(Some 1, Err ''io''), (Some 2, Ok ''toml'')])) ''s'') =
      Some (Some ''b'')"
  proof -
    have "config_tick example_lib (\<lambda>_. Ok (example_process ''b'')) wk (Some 1, Err ''io'') = wk"
      by (simp add: config_tick_def Config_load_def)
    then show ?thesis using example_tick [OF s, of example_lib "''toml''"] by (simp add: match_default hm_get_def)
  qed
  ultimately show ?thesis by (simp only: Let_def) blast
qed

text \<open>
  certificates in mixed mode. With an ACME section that asks for certificates, the
  certificates of the file section are not served: whatever the process serves after the start
  is a certificate obtained by ACME, for one of the names of an ACME certificate or below one of
  its wildcards.
\<close>

theorem mixed_mode_serves_acme_only:
  assumes init: "init_certs env config t w = (Ok tasks, manager, w')"
    and mode: "tls_mode t = Mixed" "tls_acme t = Some a" "acme_certs a \<noteq> []"
    and served: "CertManager_resolve manager sni = Some k"
  shows "\<exists>c\<in>set (all_certs_with_providers a (collect_auto_tls_domains_with_providers config)). \<exists>d\<in>set (acc_domains c).
    to_lowercase d = to_lowercase sni \<or>
    (\<exists>l parent. split_once CHR ''.'' (to_lowercase sni) = Some (l, parent) \<and> to_lowercase d = ''*.'' @ parent)"
proof -
  let ?p = "AcmeProvider_build a (collect_auto_tls_domains_with_providers config)"
  obtain m0 w0 where i: "initialize env ?p m0 w0 = (Ok (), manager, w')"
    using init mode by (auto simp: init_certs_def init_acme_def Let_def split: prod.splits sum.splits)
  have all: "provider_all_certs ?p = all_certs_with_providers a (collect_auto_tls_domains_with_providers config)"
    by (simp add: provider_all_certs_def AcmeProvider_build_def)
  moreover obtain extra where "all_certs_with_providers a (collect_auto_tls_domains_with_providers config) = acme_certs a @ extra"
    using all_certs_prefix by blast
  ultimately have "provider_all_certs ?p \<noteq> []" using mode(3) by simp
  from initialize_store [OF i this] obtain keys where "length keys = length (provider_all_certs ?p)"
    and store: "cm_store manager = store_of (zip (map acc_domains (provider_all_certs ?p)) keys) None" by blast
  then have "map fst (zip (map acc_domains (provider_all_certs ?p)) keys) = map acc_domains (provider_all_certs ?p)"
    by simp
  then have "fst ` set (zip (map acc_domains (provider_all_certs ?p)) keys) = acc_domains ` set (provider_all_certs ?p)"
    by (metis list.set_map)
  moreover have "spec_resolve (zip (map acc_domains (provider_all_certs ?p)) keys) None sni = Some k"
    using served by (simp add: CertManager_resolve_def store resolve_store_of)
  note spec_resolve_covered [OF this]
  ultimately show ?thesis unfolding all by (simp only: bex_simps)
qed

definition example_mixed :: TlsConfig where
  "example_mixed = \<lparr>tls_mode = Mixed, tls_acme = Some (ap_config example_provider), tls_file = Some example_files\<rparr>"

text \<open>The certificate of the file section loads, and is gone after the start.\<close>

theorem mixed_mode_serves_acme_only_witness:
  "(let env = (example_env (\<lambda>_. None))\<lparr>ev_read_file := Inr\<rparr>;
        loaded = init_file env (tls_file example_mixed) CertManager_new (example_world ''new'');
        started = init_certs env (example_process ''a'') example_mixed (example_world ''new'')
    in CertManager_resolve (fst (snd loaded)) ''www.example.com'' \<noteq> None \<and> is_ok (fst started) \<and>
       CertManager_resolve (fst (snd started)) ''www.example.com'' = None)"
proof -
  let ?env = "(example_env (\<lambda>_. None))\<lparr>ev_read_file := Inr\<rparr>"
  let ?certs = "all_certs_with_providers (ap_config example_provider) (collect_auto_tls_domains_with_providers (example_process ''a''))"
  obtain r m w where i: "init_certs ?env (example_process ''a'') example_mixed (example_world ''new'') = (r, m, w)"
    by (cases "init_certs ?env (example_process ''a'') example_mixed (example_world ''new'')")
  have ok: "is_ok (fst (init_certs ?env (example_process ''a'') example_mixed (example_world ''new'')))" by code_simp
  then obtain tasks where r: "r = Ok tasks" using i by (cases r) auto
  have l: "CertManager_resolve (fst (snd (init_file ?env (tls_file example_mixed) CertManager_new (example_world ''new'')))) ''www.example.com'' \<noteq> None"
    by code_simp
  have certs: "list_all (\<lambda>c. list_all (\<lambda>d. to_lowercase d \<noteq> ''www.example.com'' \<and> to_lowercase d \<noteq> ''*.example.com'') (acc_domains c)) ?certs"
      "to_lowercase ''www.example.com'' = ''www.example.com''" "split_once CHR ''.'' ''www.example.com'' = Some (''www'', ''example.com'')"
      "tls_mode example_mixed = Mixed" "tls_acme example_mixed = Some (ap_config example_provider)" "acme_certs (ap_config example_provider) \<noteq> []"
    by code_simp+
  have none: "CertManager_resolve m ''www.example.com'' \<noteq> Some k" for k
    using mixed_mode_serves_acme_only [OF i [unfolded r] certs(4-6), of "''www.example.com''" k] certs(1-3)
    by (auto simp: list_all_iff)
  have "CertManager_resolve m ''www.example.com'' = None" by (rule not_Some_eq [THEN iffD1]) (simp add: none)
  then show ?thesis using l ok i by (simp add: Let_def)
qed

text \<open>
  The address of the HTTPS listener, when none is configured, is the HTTP address with port
  443 for port 80 and otherwise with a port 363 higher, at most 65535; so it differs from the
  HTTP address unless that is port 65535 already.
\<close>

theorem https_addr_distinct:
  "addr_ip (compute_https_addr a) = addr_ip a \<and>
   unat (addr_port (compute_https_addr a)) = min (unat (addr_port a) + 363) 65535 \<and>
   (addr_port (compute_https_addr a) = addr_port a \<longleftrightarrow> addr_port a = 65535)"
proof -
  have p: "addr_port (compute_https_addr a) = saturating_add_u16 (addr_port a) 363"
    by (auto simp: compute_https_addr_def Let_def saturating_add_u16_def)
  then have u: "unat (addr_port (compute_https_addr a)) = min (unat (addr_port a) + 363) 65535"
    by (simp add: saturating_add_u16_spec)
  moreover have "addr_port (compute_https_addr a) = addr_port a \<longleftrightarrow> addr_port a = 65535"
  proof -
    have "addr_port (compute_https_addr a) = addr_port a \<longleftrightarrow> min (unat (addr_port a) + 363) 65535 = unat (addr_port a)"
      unfolding word_unat_eq_iff u ..
    also have "\<dots> \<longleftrightarrow> unat (addr_port a) = unat (65535 :: u16)"
      using word_number_bounds(1) [of "addr_port a"] by (auto simp: min_def)
    finally show ?thesis by (simp add: word_unat_eq_iff)
  qed
  ultimately show ?thesis by (simp add: compute_https_addr_def Let_def)
qed

text \<open>
  C24: the notification of the service manager on an abstract socket. The length check lets names
  of up to 108 bytes pass, one more than fit: up to 107 bytes the address holds the whole name and
  its length is within \<^verbatim>\<open>sockaddr_un\<close>, with 108 bytes the last byte is lost and the length that
  is passed to the system exceeds the address buffer.
\<close>

theorem notify_abstract_bounds:
  "(systemd_notify_abstract (CHR ''@'' # name) payload = NotifyTooLong \<longleftrightarrow> 108 < length name) \<and>
   (\<forall>sun_path addr_len p. systemd_notify_abstract (CHR ''@'' # name) payload = NotifyAbstract sun_path addr_len p \<longrightarrow>
      length sun_path = sun_path_size \<and> p = payload \<and> addr_len = 3 + length name \<and>
      (addr_len \<le> sockaddr_un_size \<longleftrightarrow> length name \<noteq> 108) \<and>
      (take (addr_len - 2) sun_path = CHR 0x00 # name \<longleftrightarrow> length name \<noteq> 108))"
proof (cases "108 < length name")
  case False
  let ?path = "CHR 0x00 # take 107 name @ replicate (107 - length (take 107 name)) CHR 0x00"
  have n: "systemd_notify_abstract (CHR ''@'' # name) payload = NotifyAbstract ?path (3 + length name) payload"
    using False by (simp add: systemd_notify_abstract_def Let_def sockaddr_un_size_def sun_path_size_def)
  have "take (3 + length name - 2) ?path = CHR 0x00 # name \<longleftrightarrow> length name \<noteq> 108"
  proof (cases "length name = 108")
    case True
    then have "length (take (3 + length name - 2) ?path) \<noteq> length (CHR 0x00 # name)" by simp
    with True show ?thesis by metis
  qed (use False in simp)
  moreover have "length ?path = 108" by simp
  moreover define path where "path = ?path"
  ultimately show ?thesis
    using False unfolding n path_def [symmetric] sockaddr_un_size_def sun_path_size_def by auto
qed (simp add: systemd_notify_abstract_def Let_def sockaddr_un_size_def)

theorem notify_abstract_bounds_witness:
  "\<exists>sun_path p. systemd_notify_abstract (CHR ''@'' # replicate 108 CHR ''a'') [] = NotifyAbstract sun_path 111 p \<and>
     sockaddr_un_size < 111"
  using notify_abstract_bounds [of "replicate 108 CHR ''a''" "[]"]
  by (cases "systemd_notify_abstract (CHR ''@'' # replicate 108 CHR ''a'') []")
     (auto simp: sockaddr_un_size_def systemd_notify_abstract_def Let_def )

end
