(* ===== verification/Rust_Collections.thy ===== *)
theory Rust_Collections
  imports Rust_Std
begin

text \<open>
  More of the standard collections, as the controller uses them: ordered maps (\<^verbatim>\<open>BTreeMap\<close>), the
  \<^verbatim>\<open>entry\<close> interface of maps, sets turned into sorted vectors, and sorting the entries of a hash
  map by key. Not code of the repository.
\<close>

section \<open>Ordered maps\<close>

text \<open>A \<^verbatim>\<open>BTreeMap\<close> is an association list whose keys are strictly increasing.\<close>

fun bt_insert :: "'k::linorder \<Rightarrow> 'v \<Rightarrow> ('k, 'v) hashmap \<Rightarrow> ('k, 'v) hashmap" where
  "bt_insert k v [] = [(k, v)]"
| "bt_insert k v ((k', v') # m) =
     (if k < k' then (k, v) # (k', v') # m
      else if k = k' then (k, v) # m
      else (k', v') # bt_insert k v m)"

definition bt_ok :: "('k::linorder, 'v) hashmap \<Rightarrow> bool" where
  "bt_ok m = sorted_wrt (<) (map fst m)"

definition bt_collect :: "('k::linorder \<times> 'v) list \<Rightarrow> ('k, 'v) hashmap" where
  "bt_collect kvs = fold (\<lambda>(k, v). bt_insert k v) kvs []"

lemma hm_get_Cons: "hm_get ((k, v) # m) = (hm_get m)(k \<mapsto> v)"
  by (auto simp: hm_get_def)

lemma hm_get_bt_insert [hm_simps]: "hm_get (bt_insert k v m) = (hm_get m)(k \<mapsto> v)"
  by (induction k v m rule: bt_insert.induct) (auto simp: hm_get_Cons fun_eq_iff)

lemma set_fst_bt_insert [hm_simps]: "fst ` set (bt_insert k v m) = insert k (fst ` set m)"
  by (induction k v m rule: bt_insert.induct) auto

lemma bt_ok_Nil [simp]: "bt_ok []"
  by (simp add: bt_ok_def)

lemma bt_ok_insert [simp]: "bt_ok m \<Longrightarrow> bt_ok (bt_insert k v m)"
proof (induction k v m rule: bt_insert.induct)
  case (2 k v k' v' m)
  then show ?case using set_fst_bt_insert [of k v m] by (auto simp: bt_ok_def)
qed (simp add: bt_ok_def)

lemma bt_ok_hm_ok: "bt_ok m \<Longrightarrow> hm_ok m"
  by (simp add: bt_ok_def hm_ok_def strict_sorted_iff)

lemma bt_ok_collect: "bt_ok (bt_collect kvs)"
proof -
  have "bt_ok m \<Longrightarrow> bt_ok (fold (\<lambda>(k, v). bt_insert k v) kvs m)" for m :: "('a, 'b) hashmap"
    by (induction kvs arbitrary: m) auto
  then show ?thesis by (simp add: bt_collect_def)
qed

lemma bt_insert_set: "bt_ok m \<Longrightarrow> set (bt_insert k v m) = insert (k, v) {e \<in> set m. fst e \<noteq> k}"
proof (induction k v m rule: bt_insert.induct)
  case (2 k v k' v' m)
  then show ?case by (auto simp: bt_ok_def)
qed simp

lemma hm_get_bt_collect: "hm_get (bt_collect kvs) = map_of (rev kvs)"
proof -
  have "hm_get (fold (\<lambda>(k, v). bt_insert k v) kvs m) = hm_get m ++ map_of (rev kvs)" for m :: "('a, 'b) hashmap"
    by (induction kvs arbitrary: m) (auto simp: hm_get_bt_insert fun_eq_iff map_add_def split: option.split)
  moreover have "hm_get [] = (\<lambda>_. None :: 'b option)" by (simp add: hm_get_def fun_eq_iff)
  ultimately show ?thesis by (simp add: bt_collect_def map_add_def fun_eq_iff split: option.split)
qed

interpretation bt: map_provider "[]" hm_get bt_insert hm_remove bt_ok
proof
  show "bt_ok (hm_remove k m)" if "bt_ok m" for k :: 'a and m :: "('a, 'b) hashmap"
    using that by (auto simp: bt_ok_def hm_remove_def AList.delete_eq sorted_wrt_map sorted_wrt_filter)
qed (simp_all add: hm_simps)

section \<open>Entries\<close>

text \<open>\<^verbatim>\<open>map.entry(k).or_insert_with(d)\<close> followed by a modification in place.\<close>

definition bt_entry :: "'k::linorder \<Rightarrow> 'v \<Rightarrow> ('v \<Rightarrow> 'v) \<Rightarrow> ('k, 'v) hashmap \<Rightarrow> ('k, 'v) hashmap" where
  "bt_entry k d f m = bt_insert k (f (unwrap_or (hm_get m k) d)) m"

text \<open>\<^verbatim>\<open>map.entry(k).or_default().extend(vs)\<close> on a map of sets.\<close>

definition entry_extend :: "'k \<Rightarrow> 'v set \<Rightarrow> ('k, 'v set) hashmap \<Rightarrow> ('k, 'v set) hashmap" where
  "entry_extend k vs m = hm_insert k (unwrap_or (hm_get m k) {} \<union> vs) m"

definition set_at :: "('k, 'v set) hashmap \<Rightarrow> 'k \<Rightarrow> 'v set" where
  "set_at m k = unwrap_or (hm_get m k) {}"

lemma set_at_Nil [simp]: "set_at [] k = {}"
  by (simp add: set_at_def)

lemma set_at_extend [hm_simps]:
  "set_at (entry_extend k vs m) k' = set_at m k' \<union> (if k' = k then vs else {})"
  by (simp add: set_at_def entry_extend_def hm_simps)

lemma set_at_insert [hm_simps]: "set_at (hm_insert k vs m) k' = (if k' = k then vs else set_at m k')"
  by (simp add: set_at_def hm_simps)

text \<open>\<^verbatim>\<open>*counts.entry(k).or_insert(0) += 1\<close>.\<close>

definition count_entry :: "'k \<Rightarrow> ('k, int) hashmap \<Rightarrow> ('k, int) hashmap" where
  "count_entry k m = hm_insert k (unwrap_or (hm_get m k) 0 + 1) m"

definition counts_of :: "'k list \<Rightarrow> ('k, int) hashmap" where
  "counts_of ks = fold count_entry ks []"

lemma counts_of_get: "unwrap_or (hm_get (counts_of ks) k) 0 = int (count_list ks k)"
proof -
  have "unwrap_or (hm_get (fold count_entry ks m) k) 0 = unwrap_or (hm_get m k) 0 + int (count_list ks k)"
    for m :: "('a, int) hashmap"
    by (induction ks arbitrary: m) (auto simp: count_entry_def hm_simps)
  from this [of "[]"] show ?thesis by (simp add: counts_of_def)
qed

section \<open>Loops that can fail\<close>

text \<open>A loop that updates its state and stops at the first error.\<close>

fun try_fold :: "('a \<Rightarrow> 's \<Rightarrow> 'e + 's) \<Rightarrow> 'a list \<Rightarrow> 's \<Rightarrow> 'e + 's" where
  "try_fold f [] s = Ok s"
| "try_fold f (x # xs) s = and_then (f x s) (try_fold f xs)"

lemma and_then_assoc: "and_then (and_then r f) g = and_then r (\<lambda>x. and_then (f x) g)"
  by (cases r) simp_all

lemma try_fold_append: "try_fold f (xs @ ys) s = and_then (try_fold f xs s) (try_fold f ys)"
proof (induction xs arbitrary: s)
  case (Cons x xs)
  have "try_fold f (xs @ ys) = (\<lambda>s. and_then (try_fold f xs s) (try_fold f ys))" by (rule ext) (rule Cons.IH)
  then show ?case by (simp add: and_then_assoc)
qed simp

lemma try_fold_concat: "try_fold (\<lambda>x. try_fold f (g x)) xs s = try_fold f (concat (map g xs)) s"
proof (induction xs arbitrary: s)
  case (Cons x xs)
  have "try_fold (\<lambda>x. try_fold f (g x)) xs = try_fold f (concat (map g xs))" by (rule ext) (rule Cons.IH)
  then show ?case by (simp add: try_fold_append)
qed simp

lemma try_fold_map: "try_fold f (map g xs) s = try_fold (\<lambda>x. f (g x)) xs s"
proof (induction xs arbitrary: s)
  case (Cons x xs)
  have "try_fold f (map g xs) = try_fold (\<lambda>x. f (g x)) xs" by (rule ext) (rule Cons.IH)
  then show ?case by simp
qed simp

section \<open>Loops that collect\<close>

text \<open>A loop whose body adds something to what is observed of the state.\<close>

lemma fold_collect:
  assumes "\<And>x s. x \<in> set xs \<Longrightarrow> obs (f x s) = obs s \<union> g x"
  shows "obs (fold f xs s) = obs s \<union> (\<Union>x\<in>set xs. g x)"
  using assms by (induction xs arbitrary: s) (auto simp: Un_assoc)

lemma fold_keeps:
  assumes "\<And>x s. x \<in> set xs \<Longrightarrow> obs (f x s) = obs s"
  shows "obs (fold f xs s) = obs s"
  using assms by (induction xs arbitrary: s) auto

lemma UN_triples:
  "(\<Union>(a, b, c)\<in>A. {f k | k. P a c k}) = {f k | a b c k. (a, b, c) \<in> A \<and> P a c k}"
  by auto

lemma UN_triples_middle:
  "(\<Union>u\<in>A. {x. P (fst u) (snd (snd u)) \<and> x \<in> fst (snd u)}) = {x. \<exists>a b c. (a, b, c) \<in> A \<and> P a c \<and> x \<in> b}"
  by (simp add: Bex_def split_paired_Ex set_eq_iff)

section \<open>Sorted views of hash maps\<close>

text \<open>The entries of a map collected and sorted by key.\<close>

definition sorted_entries :: "('k::linorder, 'v) hashmap \<Rightarrow> ('k \<times> 'v) list" where
  "sorted_entries m = sort_key fst m"

text \<open>Sorting by a key that tells the elements apart forgets the order they came in.\<close>

lemma sort_key_perm:
  assumes "mset xs = mset ys" "inj_on f (set xs)"
  shows "sort_key f xs = sort_key f ys"
  using assms by (intro sort_key_inj_key_eq) simp_all

text \<open>Two enumerations of one map have the same sorted entries.\<close>

definition same_map :: "('k, 'v) hashmap \<Rightarrow> ('k, 'v) hashmap \<Rightarrow> bool" where
  "same_map m m' = (hm_ok m \<and> hm_ok m' \<and> set m = set m')"

lemma same_map_get: "same_map m m' \<Longrightarrow> hm_get m = hm_get m'"
  by (auto simp: same_map_def intro: hm_get_perm)

lemma same_map_mset: "same_map m m' \<Longrightarrow> mset m = mset m'"
  unfolding same_map_def hm_ok_def distinct_map by (metis set_eq_iff_mset_eq_distinct)

lemma sorted_entries_perm:
  assumes "same_map m m'"
  shows "sorted_entries m = sorted_entries m'"
  unfolding sorted_entries_def
  using assms same_map_mset [OF assms] by (intro sort_key_perm) (simp_all add: same_map_def hm_ok_def distinct_map)

text \<open>A set collected into a vector and sorted.\<close>

definition sorted_set :: "'a::linorder set \<Rightarrow> 'a list" where
  "sorted_set A = sorted_list_of_set A"

lemma set_sorted_set: "finite A \<Longrightarrow> set (sorted_set A) = A"
  by (simp add: sorted_set_def)

lemma sorted_wrt_sorted_set: "sorted_wrt (<) (sorted_set A)"
  by (simp add: sorted_set_def)

lemma set_sorted_entries [simp]: "set (sorted_entries m) = set m"
  by (simp add: sorted_entries_def)

end
