(* ===== verification/Gateway_Crds.thy ===== *)
theory Gateway_Crds
  imports Rust_Collections
begin

text \<open>
  The Gateway API resources (\<^verbatim>\<open>crates/wicket-controller/src/crds\<close>): object metadata as far as the
  controller reads it, the custom resources with their specifications and statuses, status
  conditions, host name matching of routes, and the permission check of reference grants.
  Generations, replica counts and other signed integers of the Kubernetes API are \<^typ>\<open>int\<close>; the
  time stamp a new condition carries is an argument of its constructor.
\<close>

type_synonym labels = "(string, string) hashmap"

section \<open>Object metadata\<close>

record OwnerReference =
  own_api_version :: string
  own_kind :: string
  own_name :: string
  own_uid :: string
  own_controller :: "bool option"
  own_block_owner_deletion :: "bool option"

record ObjectMeta =
  meta_name :: "string option"
  meta_generate_name :: "string option"
  meta_namespace :: "string option"
  meta_uid :: "string option"
  meta_generation :: "int option"
  meta_deletion_timestamp :: "string option"
  meta_labels :: "labels option"
  meta_annotations :: "labels option"
  meta_owner_references :: "OwnerReference list option"

definition ObjectMeta_default :: ObjectMeta where
  "ObjectMeta_default =
     \<lparr>meta_name = None, meta_generate_name = None, meta_namespace = None, meta_uid = None,
      meta_generation = None, meta_deletion_timestamp = None, meta_labels = None,
      meta_annotations = None, meta_owner_references = None\<rparr>"

text \<open>\<^verbatim>\<open>ResourceExt::name_any\<close> and \<^verbatim>\<open>ResourceExt::namespace().unwrap_or_default()\<close> of the kube crate.\<close>

definition name_any :: "ObjectMeta \<Rightarrow> string" where
  "name_any m = (case meta_name m of Some n \<Rightarrow> n | None \<Rightarrow> unwrap_or (meta_generate_name m) [])"

definition namespace_or_empty :: "ObjectMeta \<Rightarrow> string" where
  "namespace_or_empty m = unwrap_or (meta_namespace m) []"

text \<open>The two other defaults the sources use: \<^verbatim>\<open>"default"\<close> for the namespace, empty for the name.\<close>

definition namespace_or_default :: "ObjectMeta \<Rightarrow> string" where
  "namespace_or_default m = unwrap_or (meta_namespace m) ''default''"

definition name_or_empty :: "ObjectMeta \<Rightarrow> string" where
  "name_or_empty m = unwrap_or (meta_name m) []"

section \<open>Common types\<close>

definition GATEWAY_API_GROUP :: string where
  "GATEWAY_API_GROUP = ''gateway.networking.k8s.io''"

record ParentReference =
  pr_group :: string
  pr_kind :: string
  pr_namespace :: "string option"
  pr_name :: string
  pr_section_name :: "string option"
  pr_port :: "u16 option"

record BackendRef =
  br_group :: string
  br_kind :: string
  br_name :: string
  br_namespace :: "string option"
  br_port :: "u16 option"
  br_weight :: u32

record SecretObjectReference =
  sr_group :: string
  sr_kind :: string
  sr_name :: string
  sr_namespace :: "string option"

record Condition =
  cond_type :: string
  cond_status :: string
  cond_observed_generation :: "int option"
  cond_last_transition_time :: string
  cond_reason :: string
  cond_message :: string

record RouteParentStatus =
  rps_parent_ref :: ParentReference
  rps_controller_name :: string
  rps_conditions :: "Condition list"

definition Condition_new :: "string \<Rightarrow> string \<Rightarrow> bool \<Rightarrow> string \<Rightarrow> string \<Rightarrow> Condition" where
  "Condition_new now ctype status reason message =
     \<lparr>cond_type = ctype, cond_status = (if status then ''True'' else ''False''),
      cond_observed_generation = None, cond_last_transition_time = now,
      cond_reason = reason, cond_message = message\<rparr>"

definition with_observed_generation :: "int option \<Rightarrow> Condition \<Rightarrow> Condition" where
  "with_observed_generation gen self = self\<lparr>cond_observed_generation := gen\<rparr>"

definition Condition_accepted :: "string \<Rightarrow> Condition" where
  "Condition_accepted now = Condition_new now ''Accepted'' True ''Accepted'' ''Resource has been accepted''"

definition Condition_programmed :: "string \<Rightarrow> Condition" where
  "Condition_programmed now = Condition_new now ''Programmed'' True ''Programmed'' ''Resource has been programmed''"

definition Condition_resolved_refs :: "string \<Rightarrow> Condition" where
  "Condition_resolved_refs now = Condition_new now ''ResolvedRefs'' True ''ResolvedRefs'' ''All references resolved''"

definition Condition_not_programmed :: "string \<Rightarrow> Condition" where
  "Condition_not_programmed now =
     Condition_new now ''Programmed'' False ''DeploymentNotReady''
       ''Managed runtime Deployment rollout has not converged''"

definition Condition_not_programmed_warming_up :: "string \<Rightarrow> Condition" where
  "Condition_not_programmed_warming_up now =
     Condition_new now ''Programmed'' False ''ControllerStoreNotReady''
       ''Controller store is warming up after restart; status will be updated shortly''"

definition Condition_not_programmed_observation_fault :: "string \<Rightarrow> string \<Rightarrow> Condition" where
  "Condition_not_programmed_observation_fault now detail =
     Condition_new now ''Programmed'' False ''ObservationFault''
       (''Failed to observe owned runtime objects: '' @ detail)"

definition Condition_not_accepted :: "string \<Rightarrow> Condition" where
  "Condition_not_accepted now =
     Condition_new now ''Accepted'' False ''ListenerProtocolConflict'' ''Listener protocol is not supported''"

definition Condition_invalid :: "string \<Rightarrow> string \<Rightarrow> Condition" where
  "Condition_invalid now message = Condition_new now ''Accepted'' False ''Invalid'' message"

lemmas condition_defs =
  Condition_new_def with_observed_generation_def Condition_accepted_def Condition_programmed_def
  Condition_resolved_refs_def Condition_not_programmed_def Condition_not_programmed_warming_up_def
  Condition_not_programmed_observation_fault_def Condition_not_accepted_def Condition_invalid_def

section \<open>GatewayClass\<close>

record ParametersReference =
  ppr_group :: string
  ppr_kind :: string
  ppr_name :: string
  ppr_namespace :: "string option"

record GatewayClassSpec =
  gcs_controller_name :: string
  gcs_description :: "string option"
  gcs_parameters_ref :: "ParametersReference option"

record GatewayClassStatus =
  gcst_conditions :: "Condition list"
  gcst_supported_features :: "string list"

record GatewayClass =
  gc_metadata :: ObjectMeta
  gc_spec :: GatewayClassSpec
  gc_status :: "GatewayClassStatus option"

definition WICKET_CONTROLLER_NAME :: string where
  "WICKET_CONTROLLER_NAME = ''wicket.io/gateway-controller''"

definition is_wicket_managed :: "GatewayClass \<Rightarrow> bool" where
  "is_wicket_managed self = (gcs_controller_name (gc_spec self) = WICKET_CONTROLLER_NAME)"

section \<open>Gateway\<close>

datatype ProtocolType = HTTP | HTTPS | TLS | TCP | UDP

datatype TLSModeType = Terminate | Passthrough

record GatewayTLSConfig =
  gt_mode :: TLSModeType
  gt_certificate_refs :: "SecretObjectReference list"
  gt_options :: "labels option"
  gt_frontend_validation :: "SecretObjectReference list option"

datatype FromNamespaces = All | Same | Selector

record LabelSelectorRequirement =
  lsr_key :: string
  lsr_operator :: string
  lsr_values :: "string list"

record LabelSelector =
  ls_match_labels :: "labels option"
  ls_match_expressions :: "LabelSelectorRequirement list"

record RouteNamespaces =
  rn_from :: FromNamespaces
  rn_selector :: "LabelSelector option"

record RouteGroupKind =
  rgk_group :: string
  rgk_kind :: string

record AllowedRoutes =
  ar_namespaces :: "RouteNamespaces option"
  ar_kinds :: "RouteGroupKind list"

record Listener =
  ln_name :: string
  ln_hostname :: "string option"
  ln_port :: u16
  ln_protocol :: ProtocolType
  ln_tls :: "GatewayTLSConfig option"
  ln_allowed_routes :: "AllowedRoutes option"

datatype AddressType = IPAddress | Hostname | NamedAddress

record GatewayAddress =
  ga_type :: AddressType
  ga_value :: string

record GatewayInfrastructure =
  gi_labels :: "labels option"
  gi_annotations :: "labels option"
  gi_parameters_ref :: "(string \<times> string \<times> string) option"

record GatewaySpec =
  gs_gateway_class_name :: string
  gs_listeners :: "Listener list"
  gs_addresses :: "GatewayAddress list"
  gs_infrastructure :: "GatewayInfrastructure option"

record ListenerStatus =
  lst_name :: string
  lst_supported_kinds :: "RouteGroupKind list"
  lst_attached_routes :: int
  lst_conditions :: "Condition list"

record GatewayStatus =
  gst_addresses :: "GatewayAddress list"
  gst_conditions :: "Condition list"
  gst_listeners :: "ListenerStatus list"

record Gateway =
  gw_metadata :: ObjectMeta
  gw_spec :: GatewaySpec
  gw_status :: "GatewayStatus option"

abbreviation gw_listeners :: "Gateway \<Rightarrow> Listener list" where
  "gw_listeners g \<equiv> gs_listeners (gw_spec g)"

definition http_listeners :: "Gateway \<Rightarrow> Listener list" where
  "http_listeners self = filter (\<lambda>l. ln_protocol l = HTTP \<or> ln_protocol l = HTTPS) (gw_listeners self)"

definition tcp_listeners :: "Gateway \<Rightarrow> Listener list" where
  "tcp_listeners self = filter (\<lambda>l. ln_protocol l = TCP \<or> ln_protocol l = TLS) (gw_listeners self)"

definition listener_has_tls :: "Gateway \<Rightarrow> string \<Rightarrow> bool" where
  "listener_has_tls self listener_name =
     (case find (\<lambda>l. ln_name l = listener_name) (gw_listeners self) of
        Some l \<Rightarrow> ln_tls l \<noteq> None
      | None \<Rightarrow> False)"

section \<open>HTTPRoute\<close>

datatype PathMatchType = PathMatchExact | PathMatchPrefix | PathMatchRegularExpression

datatype HeaderMatchType = HeaderMatchExact | HeaderMatchRegularExpression

datatype QueryParamMatchType = QueryMatchExact | QueryMatchRegularExpression

datatype HTTPMethod = GET | HEAD | POST | PUT | DELETE | CONNECT | OPTIONS | TRACE | PATCH

record HTTPPathMatch =
  pm_type :: PathMatchType
  pm_value :: string

record HTTPHeaderMatch =
  hdm_type :: HeaderMatchType
  hdm_name :: string
  hdm_value :: string

record HTTPQueryParamMatch =
  qpm_type :: QueryParamMatchType
  qpm_name :: string
  qpm_value :: string

record HTTPRouteMatch =
  hrm_path :: "HTTPPathMatch option"
  hrm_headers :: "HTTPHeaderMatch list"
  hrm_query_params :: "HTTPQueryParamMatch list"
  hrm_method :: "HTTPMethod option"

record HTTPHeaderFilter =
  hhf_set :: "(string \<times> string) list"
  hhf_add :: "(string \<times> string) list"
  hhf_remove :: "string list"

datatype HTTPPathModifierType = ModifyFullPath | ModifyPrefixMatch

record HTTPPathModifier =
  hpm_type :: HTTPPathModifierType
  hpm_replace_full_path :: "string option"
  hpm_replace_prefix_match :: "string option"

record HTTPRequestMirrorFilter =
  mf_backend_ref :: BackendRef
  mf_percent :: "int option"

record HTTPRequestRedirectFilter =
  rrf_scheme :: "string option"
  rrf_hostname :: "string option"
  rrf_path :: "HTTPPathModifier option"
  rrf_port :: "u16 option"
  rrf_status_code :: int

record HTTPURLRewriteFilter =
  urf_hostname :: "string option"
  urf_path :: "HTTPPathModifier option"

record LocalObjectReference =
  lor_group :: string
  lor_kind :: string
  lor_name :: string

datatype HTTPRouteFilterType =
  RequestHeaderModifier | ResponseHeaderModifier | RequestMirror | RequestRedirect | URLRewrite
| ExtensionRef

record HTTPRouteFilter =
  hrf_type :: HTTPRouteFilterType
  hrf_request_header_modifier :: "HTTPHeaderFilter option"
  hrf_response_header_modifier :: "HTTPHeaderFilter option"
  hrf_request_mirror :: "HTTPRequestMirrorFilter option"
  hrf_request_redirect :: "HTTPRequestRedirectFilter option"
  hrf_url_rewrite :: "HTTPURLRewriteFilter option"
  hrf_extension_ref :: "LocalObjectReference option"

record HTTPBackendRef =
  hbr_backend_ref :: BackendRef
  hbr_filters :: "HTTPRouteFilter list"

record HTTPRouteTimeouts =
  hrt_request :: "string option"
  hrt_backend_request :: "string option"

record HTTPRouteRule =
  hrr_name :: "string option"
  hrr_matches :: "HTTPRouteMatch list"
  hrr_filters :: "HTTPRouteFilter list"
  hrr_backend_refs :: "HTTPBackendRef list"
  hrr_timeouts :: "HTTPRouteTimeouts option"

record HTTPRouteSpec =
  hrs_parent_refs :: "ParentReference list"
  hrs_hostnames :: "string list"
  hrs_rules :: "HTTPRouteRule list"

record HTTPRouteStatus =
  hrst_parents :: "RouteParentStatus list"

record HTTPRoute =
  hr_metadata :: ObjectMeta
  hr_spec :: HTTPRouteSpec
  hr_status :: "HTTPRouteStatus option"

definition HTTPRoute_backend_refs :: "HTTPRoute \<Rightarrow> BackendRef list" where
  "HTTPRoute_backend_refs self = concat (map (\<lambda>rule. map hbr_backend_ref (hrr_backend_refs rule)) (hrs_rules (hr_spec self)))"

text \<open>\<^verbatim>\<open>&h[1..]\<close> of a string that starts with an asterisk and a dot.\<close>

definition matches_hostname :: "HTTPRoute \<Rightarrow> string \<Rightarrow> bool" where
  "matches_hostname self hostname =
     (if hrs_hostnames (hr_spec self) = [] then True
      else list_ex (\<lambda>h. if starts_with h ''*.'' then ends_with hostname (drop 1 h) else h = hostname)
             (hrs_hostnames (hr_spec self)))"

section \<open>TCPRoute and TLSRoute\<close>

record TCPRouteRule =
  trr_name :: "string option"
  trr_backend_refs :: "BackendRef list"

record TCPRouteSpec =
  trs_parent_refs :: "ParentReference list"
  trs_rules :: "TCPRouteRule list"

record TCPRouteStatus =
  trst_parents :: "RouteParentStatus list"

record TCPRoute =
  tr_metadata :: ObjectMeta
  tr_spec :: TCPRouteSpec
  tr_status :: "TCPRouteStatus option"

definition TCPRoute_backend_refs :: "TCPRoute \<Rightarrow> BackendRef list" where
  "TCPRoute_backend_refs self = concat (map trr_backend_refs (trs_rules (tr_spec self)))"

record TLSRouteRule =
  lrr_name :: "string option"
  lrr_backend_refs :: "BackendRef list"

record TLSRouteSpec =
  lrs_parent_refs :: "ParentReference list"
  lrs_hostnames :: "string list"
  lrs_rules :: "TLSRouteRule list"

record TLSRouteStatus =
  lrst_parents :: "RouteParentStatus list"

record TLSRoute =
  lr_metadata :: ObjectMeta
  lr_spec :: TLSRouteSpec
  lr_status :: "TLSRouteStatus option"

definition TLSRoute_backend_refs :: "TLSRoute \<Rightarrow> BackendRef list" where
  "TLSRoute_backend_refs self = concat (map lrr_backend_refs (lrs_rules (lr_spec self)))"

definition matches_sni :: "TLSRoute \<Rightarrow> string \<Rightarrow> bool" where
  "matches_sni self sni =
     (if lrs_hostnames (lr_spec self) = [] then True
      else list_ex (\<lambda>h. if starts_with h ''*.'' then ends_with sni (drop 1 h) else h = sni)
             (lrs_hostnames (lr_spec self)))"

section \<open>ReferenceGrant\<close>

record ReferenceGrantFrom =
  rgf_group :: string
  rgf_kind :: string
  rgf_namespace :: string

record ReferenceGrantTo =
  rgt_group :: string
  rgt_kind :: string
  rgt_name :: "string option"

record ReferenceGrantSpec =
  rgs_from :: "ReferenceGrantFrom list"
  rgs_to :: "ReferenceGrantTo list"

record ReferenceGrant =
  rg_metadata :: ObjectMeta
  rg_spec :: ReferenceGrantSpec

definition allows_reference ::
  "ReferenceGrant \<Rightarrow> string \<Rightarrow> string \<Rightarrow> string \<Rightarrow> string \<Rightarrow> string \<Rightarrow> string option \<Rightarrow> bool" where
  "allows_reference self from_group from_kind from_namespace to_group to_kind to_name =
     (let from_matches =
        list_ex (\<lambda>f. rgf_group f = from_group \<and> rgf_kind f = from_kind \<and> rgf_namespace f = from_namespace)
          (rgs_from (rg_spec self)) in
      if \<not> from_matches then False
      else
        list_ex (\<lambda>t.
          if rgt_group t \<noteq> to_group \<or> rgt_kind t \<noteq> to_kind then False
          else
            case (rgt_name t, to_name) of
              (Some grant_name, Some ref_name) \<Rightarrow> grant_name = ref_name
            | (Some _, None) \<Rightarrow> False
            | (None, _) \<Rightarrow> True) (rgs_to (rg_spec self)))"

definition allows_tls_secret_reference :: "ReferenceGrant \<Rightarrow> string \<Rightarrow> string option \<Rightarrow> bool" where
  "allows_tls_secret_reference self gateway_namespace secret_name =
     allows_reference self ''gateway.networking.k8s.io'' ''Gateway'' gateway_namespace [] ''Secret'' secret_name"

definition allows_service_reference ::
  "ReferenceGrant \<Rightarrow> string \<Rightarrow> string \<Rightarrow> string \<Rightarrow> string option \<Rightarrow> bool" where
  "allows_service_reference self route_group route_kind route_namespace service_name =
     allows_reference self route_group route_kind route_namespace [] ''Service'' service_name"

text \<open>What permits a reference; a grant without a name permits every name.\<close>

lemma allows_reference_iff:
  "allows_reference g fg fk fns tg tk n \<longleftrightarrow>
     (\<exists>f\<in>set (rgs_from (rg_spec g)). rgf_group f = fg \<and> rgf_kind f = fk \<and> rgf_namespace f = fns) \<and>
     (\<exists>t\<in>set (rgs_to (rg_spec g)). rgt_group t = tg \<and> rgt_kind t = tk \<and> (rgt_name t = None \<or> rgt_name t = n))"
proof -
  have "(case (a, n) of (Some gn, Some rn) \<Rightarrow> gn = rn | (Some _, None) \<Rightarrow> False | (None, _) \<Rightarrow> True) \<longleftrightarrow>
      a = None \<or> a = n" for a :: "string option"
    by (cases a; cases n) auto
  then show ?thesis by (auto simp: allows_reference_def list_ex_iff Let_def)
qed

lemma allows_reference_unnamed:
  "allows_reference g fg fk fns tg tk None \<Longrightarrow> allows_reference g fg fk fns tg tk n"
  by (auto simp: allows_reference_iff)

end
