(* ===== verification/Controller_Store.thy ===== *)
theory Controller_Store
  imports Gateway_Crds
begin

text \<open>
  The controller's shared store (\<^verbatim>\<open>crates/wicket-controller/src/reconcilers/store.rs\<close>): the resource
  maps the reconcilers write, the index of referenced services and the reverse index that tells
  which Gateways a change concerns, the bootstrap phase, and the snapshots the planners read.
  Every method takes the store and returns the store it leaves behind; a method runs under the
  store's lock, so a run of the controller is a sequence of such methods (\<^verbatim>\<open>store_step\<close>).
\<close>

type_synonym obj_key = "string \<times> string"

section \<open>Collected state\<close>

record ServiceEndpoints =
  se_namespace :: string
  se_name :: string
  se_endpoints :: "string list"

record GatewayState =
  gss_gateways :: "(string, Gateway) hashmap"
  gss_http_routes :: "(string, HTTPRoute) hashmap"
  gss_tcp_routes :: "(string, TCPRoute) hashmap"
  gss_tls_routes :: "(string, TLSRoute) hashmap"
  gss_service_endpoints :: "(string, ServiceEndpoints) hashmap"
  gss_tls_secrets :: "(string, string \<times> string) hashmap"

definition state_key :: "string \<Rightarrow> string \<Rightarrow> string" where
  "state_key namespace name = namespace @ ''/'' @ name"

text \<open>Namespaces contain no slash, so keys of different objects differ.\<close>

lemma state_key_inj:
  assumes "CHR ''/'' \<notin> set ns" "CHR ''/'' \<notin> set ns'"
  shows "state_key ns n = state_key ns' n' \<longleftrightarrow> ns = ns' \<and> n = n'"
proof
  assume "state_key ns n = state_key ns' n'"
  then have "split_once CHR ''/'' (ns @ CHR ''/'' # n) = split_once CHR ''/'' (ns' @ CHR ''/'' # n')"
    by (simp add: state_key_def)
  from this [unfolded split_once_append [OF assms(1)] split_once_append [OF assms(2)]]
  show "ns = ns' \<and> n = n'" by simp
qed simp

section \<open>Planner snapshots\<close>

datatype 'a SnapshotResult = NotReady | SnapshotReady 'a

fun SnapshotResult_is_ready :: "'a SnapshotResult \<Rightarrow> bool" where
  "SnapshotResult_is_ready (SnapshotReady _) = True"
| "SnapshotResult_is_ready NotReady = False"

record PlannerSnapshot =
  ps_gateways :: "(string, Gateway) hashmap"
  ps_gateway_classes :: "(string, GatewayClass) hashmap"
  ps_http_routes :: "(string, HTTPRoute) hashmap"
  ps_tcp_routes :: "(string, TCPRoute) hashmap"
  ps_tls_routes :: "(string, TLSRoute) hashmap"
  ps_service_endpoints :: "(string, ServiceEndpoints) hashmap"
  ps_service_presence :: "string set"
  ps_tls_secrets :: "(string, string \<times> string) hashmap"
  ps_reference_grants :: "(string, ReferenceGrant) hashmap"
  ps_service_ref_index :: "string set"
  ps_namespace_labels :: "(string, labels) hashmap"

definition snapshot_gateway :: "PlannerSnapshot \<Rightarrow> string \<Rightarrow> string \<Rightarrow> Gateway option" where
  "snapshot_gateway self namespace name = hm_get (ps_gateways self) (state_key namespace name)"

definition snapshot_gateway_class :: "PlannerSnapshot \<Rightarrow> string \<Rightarrow> GatewayClass option" where
  "snapshot_gateway_class self name = hm_get (ps_gateway_classes self) name"

definition snapshot_tls_secret :: "PlannerSnapshot \<Rightarrow> string \<Rightarrow> string \<Rightarrow> (string \<times> string) option" where
  "snapshot_tls_secret self namespace name = hm_get (ps_tls_secrets self) (state_key namespace name)"

definition reference_grants_in_namespace :: "PlannerSnapshot \<Rightarrow> string \<Rightarrow> ReferenceGrant list" where
  "reference_grants_in_namespace self namespace =
     sort_key (\<lambda>g. name_or_empty (rg_metadata g))
       (map snd (filter (\<lambda>(_, g). namespace_or_default (rg_metadata g) = namespace) (ps_reference_grants self)))"

definition route_references_gateway :: "string \<Rightarrow> ParentReference list \<Rightarrow> string \<Rightarrow> string \<Rightarrow> bool" where
  "route_references_gateway route_namespace parent_refs gateway_namespace gateway_name =
     list_ex (\<lambda>p.
       let group_matches = pr_group p = [] \<or> pr_group p = ''gateway.networking.k8s.io'';
           kind_matches = pr_kind p = ''Gateway'';
           ns_matches = unwrap_or (pr_namespace p) route_namespace = gateway_namespace;
           name_matches = pr_name p = gateway_name in
       group_matches \<and> kind_matches \<and> ns_matches \<and> name_matches) parent_refs"

text \<open>The sort key of the route accessors.\<close>

definition route_sort_key :: "ObjectMeta \<Rightarrow> string \<times> string" where
  "route_sort_key m = (unwrap_or (meta_namespace m) [], unwrap_or (meta_name m) [])"

definition http_routes_for_gateway :: "PlannerSnapshot \<Rightarrow> string \<Rightarrow> string \<Rightarrow> HTTPRoute list" where
  "http_routes_for_gateway self gateway_namespace gateway_name =
     sort_key (\<lambda>r. route_sort_key (hr_metadata r))
       (filter (\<lambda>r. route_references_gateway (namespace_or_default (hr_metadata r))
                      (hrs_parent_refs (hr_spec r)) gateway_namespace gateway_name)
          (hm_values (ps_http_routes self)))"

definition tcp_routes_for_gateway :: "PlannerSnapshot \<Rightarrow> string \<Rightarrow> string \<Rightarrow> TCPRoute list" where
  "tcp_routes_for_gateway self gateway_namespace gateway_name =
     sort_key (\<lambda>r. route_sort_key (tr_metadata r))
       (filter (\<lambda>r. route_references_gateway (namespace_or_default (tr_metadata r))
                      (trs_parent_refs (tr_spec r)) gateway_namespace gateway_name)
          (hm_values (ps_tcp_routes self)))"

definition tls_routes_for_gateway :: "PlannerSnapshot \<Rightarrow> string \<Rightarrow> string \<Rightarrow> TLSRoute list" where
  "tls_routes_for_gateway self gateway_namespace gateway_name =
     sort_key (\<lambda>r. route_sort_key (lr_metadata r))
       (filter (\<lambda>r. route_references_gateway (namespace_or_default (lr_metadata r))
                      (lrs_parent_refs (lr_spec r)) gateway_namespace gateway_name)
          (hm_values (ps_tls_routes self)))"

definition snapshot_is_service_referenced :: "PlannerSnapshot \<Rightarrow> string \<Rightarrow> string \<Rightarrow> bool" where
  "snapshot_is_service_referenced self namespace name =
     (state_key namespace name \<in> ps_service_ref_index self)"

section \<open>Store contents\<close>

datatype ResourceClass =
  GatewayClasses | ReferenceGrants | Gateways | HttpRoutes | TcpRoutes | TlsRoutes | Services
| Endpoints | Secrets

definition ResourceClass_ALL :: "ResourceClass list" where
  "ResourceClass_ALL =
     [GatewayClasses, ReferenceGrants, Gateways, HttpRoutes, TcpRoutes, TlsRoutes, Services,
      Endpoints, Secrets]"

datatype StorePhase = Warming "ResourceClass set" | PhaseReady

definition progress_is_complete :: "ResourceClass set \<Rightarrow> bool" where
  "progress_is_complete listed = list_all (\<lambda>rc. rc \<in> listed) ResourceClass_ALL"

definition progress_remaining :: "ResourceClass set \<Rightarrow> ResourceClass list" where
  "progress_remaining listed = filter (\<lambda>rc. rc \<notin> listed) ResourceClass_ALL"

record StoreInner =
  si_gateways :: "(string, Gateway) hashmap"
  si_gateway_classes :: "(string, GatewayClass) hashmap"
  si_http_routes :: "(string, HTTPRoute) hashmap"
  si_tcp_routes :: "(string, TCPRoute) hashmap"
  si_tls_routes :: "(string, TLSRoute) hashmap"
  si_service_endpoints :: "(string, ServiceEndpoints) hashmap"
  si_service_presence :: "string set"
  si_tls_secrets :: "(string, string \<times> string) hashmap"
  si_reference_grants :: "(string, ReferenceGrant) hashmap"
  si_service_ref_index :: "string set"
  si_namespace_labels :: "(string, labels) hashmap"
  si_phase :: StorePhase

definition StoreInner_default :: StoreInner where
  "StoreInner_default =
     \<lparr>si_gateways = [], si_gateway_classes = [], si_http_routes = [], si_tcp_routes = [],
      si_tls_routes = [], si_service_endpoints = [], si_service_presence = {}, si_tls_secrets = [],
      si_reference_grants = [], si_service_ref_index = {}, si_namespace_labels = [],
      si_phase = Warming {}\<rparr>"

definition is_core_service_ref :: "string \<Rightarrow> string \<Rightarrow> bool" where
  "is_core_service_ref grp kind =
     (let group_is_core = grp = []; kind_is_service = kind = [] \<or> kind = ''Service'' in
      group_is_core \<and> kind_is_service)"

section \<open>The service index\<close>

definition index_service :: "string \<Rightarrow> BackendRef \<Rightarrow> string set \<Rightarrow> string set" where
  "index_service route_ns br index =
     (if \<not> is_core_service_ref (br_group br) (br_kind br) then index
      else insert (state_key (unwrap_or (br_namespace br) route_ns) (br_name br)) index)"

definition rebuild_service_index :: "StoreInner \<Rightarrow> StoreInner" where
  "rebuild_service_index self =
     (let index = {};
          index = fold (\<lambda>route index.
            let route_ns = namespace_or_default (hr_metadata route) in
            fold (\<lambda>rule index.
              fold (\<lambda>backend_ref index. index_service route_ns (hbr_backend_ref backend_ref) index)
                (hrr_backend_refs rule) index) (hrs_rules (hr_spec route)) index)
            (hm_values (si_http_routes self)) index;
          index = fold (\<lambda>route index.
            let route_ns = namespace_or_default (tr_metadata route) in
            fold (\<lambda>rule index. fold (index_service route_ns) (trr_backend_refs rule) index)
              (trs_rules (tr_spec route)) index)
            (hm_values (si_tcp_routes self)) index;
          index = fold (\<lambda>route index.
            let route_ns = namespace_or_default (lr_metadata route) in
            fold (\<lambda>rule index. fold (index_service route_ns) (lrr_backend_refs rule) index)
              (lrs_rules (lr_spec route)) index)
            (hm_values (si_tls_routes self)) index in
      self\<lparr>si_service_ref_index := index\<rparr>)"

section \<open>The reverse index\<close>

definition route_parent_gateways :: "string \<Rightarrow> ParentReference list \<Rightarrow> obj_key set" where
  "route_parent_gateways route_namespace parent_refs =
     fold (\<lambda>parent_ref gateways.
       let group_matches = pr_group parent_ref = [] \<or> pr_group parent_ref = ''gateway.networking.k8s.io'';
           kind_matches = pr_kind parent_ref = ''Gateway'' in
       if \<not> group_matches \<or> \<not> kind_matches then gateways
       else insert (unwrap_or (pr_namespace parent_ref) route_namespace, pr_name parent_ref) gateways)
       parent_refs {}"

record ReverseIndexInner =
  ri_http_route_to_gateways :: "(obj_key, obj_key set) hashmap"
  ri_tcp_route_to_gateways :: "(obj_key, obj_key set) hashmap"
  ri_tls_route_to_gateways :: "(obj_key, obj_key set) hashmap"
  ri_service_to_gateways :: "(obj_key, obj_key set) hashmap"
  ri_secret_to_gateways :: "(obj_key, obj_key set) hashmap"
  ri_reference_grant_to_gateways :: "(obj_key, obj_key set) hashmap"

definition ReverseIndexInner_default :: ReverseIndexInner where
  "ReverseIndexInner_default =
     \<lparr>ri_http_route_to_gateways = [], ri_tcp_route_to_gateways = [], ri_tls_route_to_gateways = [],
      ri_service_to_gateways = [], ri_secret_to_gateways = [], ri_reference_grant_to_gateways = []\<rparr>"

definition index_grant :: "obj_key \<Rightarrow> obj_key set \<Rightarrow> ReverseIndexInner \<Rightarrow> ReverseIndexInner" where
  "index_grant k gws index =
     index\<lparr>ri_reference_grant_to_gateways := entry_extend k gws (ri_reference_grant_to_gateways index)\<rparr>"

definition index_cert_ref ::
  "string \<Rightarrow> obj_key \<Rightarrow> SecretObjectReference \<Rightarrow> ReverseIndexInner \<Rightarrow> ReverseIndexInner" where
  "index_cert_ref gateway_ns gateway_key cert_ref index =
     (let cert_ns = unwrap_or (sr_namespace cert_ref) gateway_ns;
          index = index\<lparr>ri_secret_to_gateways :=
                    entry_extend (cert_ns, sr_name cert_ref) {gateway_key} (ri_secret_to_gateways index)\<rparr> in
      if cert_ns \<noteq> gateway_ns then index_grant (cert_ns, sr_name cert_ref) {gateway_key} index
      else index)"

definition index_gateway :: "Gateway \<Rightarrow> ReverseIndexInner \<Rightarrow> ReverseIndexInner" where
  "index_gateway gateway index =
     (let gateway_ns = namespace_or_default (gw_metadata gateway);
          gateway_key = (gateway_ns, name_or_empty (gw_metadata gateway)) in
      fold (\<lambda>listener index.
        case ln_tls listener of
          None \<Rightarrow> index
        | Some tls \<Rightarrow> fold (index_cert_ref gateway_ns gateway_key) (gt_certificate_refs tls) index)
        (gw_listeners gateway) index)"

definition index_backend_ref ::
  "string \<Rightarrow> obj_key set \<Rightarrow> BackendRef \<Rightarrow> ReverseIndexInner \<Rightarrow> ReverseIndexInner" where
  "index_backend_ref route_ns gateways br index =
     (if \<not> is_core_service_ref (br_group br) (br_kind br) then index
      else
        let service_ns = unwrap_or (br_namespace br) route_ns;
            index = index\<lparr>ri_service_to_gateways :=
                      entry_extend (service_ns, br_name br) gateways (ri_service_to_gateways index)\<rparr> in
        if service_ns \<noteq> route_ns then index_grant (service_ns, br_name br) gateways index
        else index)"

definition index_http_route :: "HTTPRoute \<Rightarrow> ReverseIndexInner \<Rightarrow> ReverseIndexInner" where
  "index_http_route route index =
     (let route_ns = namespace_or_default (hr_metadata route);
          route_key = (route_ns, name_or_empty (hr_metadata route));
          gateways = route_parent_gateways route_ns (hrs_parent_refs (hr_spec route));
          index = index\<lparr>ri_http_route_to_gateways :=
                    hm_insert route_key gateways (ri_http_route_to_gateways index)\<rparr> in
      fold (\<lambda>rule index.
        fold (\<lambda>backend_ref. index_backend_ref route_ns gateways (hbr_backend_ref backend_ref))
          (hrr_backend_refs rule) index) (hrs_rules (hr_spec route)) index)"

definition index_tcp_route :: "TCPRoute \<Rightarrow> ReverseIndexInner \<Rightarrow> ReverseIndexInner" where
  "index_tcp_route route index =
     (let route_ns = namespace_or_default (tr_metadata route);
          route_key = (route_ns, name_or_empty (tr_metadata route));
          gateways = route_parent_gateways route_ns (trs_parent_refs (tr_spec route));
          index = index\<lparr>ri_tcp_route_to_gateways :=
                    hm_insert route_key gateways (ri_tcp_route_to_gateways index)\<rparr> in
      fold (\<lambda>rule index. fold (index_backend_ref route_ns gateways) (trr_backend_refs rule) index)
        (trs_rules (tr_spec route)) index)"

definition index_tls_route :: "TLSRoute \<Rightarrow> ReverseIndexInner \<Rightarrow> ReverseIndexInner" where
  "index_tls_route route index =
     (let route_ns = namespace_or_default (lr_metadata route);
          route_key = (route_ns, name_or_empty (lr_metadata route));
          gateways = route_parent_gateways route_ns (lrs_parent_refs (lr_spec route));
          index = index\<lparr>ri_tls_route_to_gateways :=
                    hm_insert route_key gateways (ri_tls_route_to_gateways index)\<rparr> in
      fold (\<lambda>rule index. fold (index_backend_ref route_ns gateways) (lrr_backend_refs rule) index)
        (lrs_rules (lr_spec route)) index)"

definition rebuild_from_store :: "StoreInner \<Rightarrow> ReverseIndexInner" where
  "rebuild_from_store inner =
     (let index = ReverseIndexInner_default;
          index = fold index_gateway (hm_values (si_gateways inner)) index;
          index = fold index_http_route (hm_values (si_http_routes inner)) index;
          index = fold index_tcp_route (hm_values (si_tcp_routes inner)) index in
      fold index_tls_route (hm_values (si_tls_routes inner)) index)"

definition gateways_for_key :: "(obj_key, obj_key set) hashmap \<Rightarrow> string \<Rightarrow> string \<Rightarrow> obj_key list" where
  "gateways_for_key m namespace name = sorted_set (set_at m (namespace, name))"

definition gateways_for_http_route :: "ReverseIndexInner \<Rightarrow> string \<Rightarrow> string \<Rightarrow> obj_key list" where
  "gateways_for_http_route self = gateways_for_key (ri_http_route_to_gateways self)"

definition gateways_for_tcp_route :: "ReverseIndexInner \<Rightarrow> string \<Rightarrow> string \<Rightarrow> obj_key list" where
  "gateways_for_tcp_route self = gateways_for_key (ri_tcp_route_to_gateways self)"

definition gateways_for_tls_route :: "ReverseIndexInner \<Rightarrow> string \<Rightarrow> string \<Rightarrow> obj_key list" where
  "gateways_for_tls_route self = gateways_for_key (ri_tls_route_to_gateways self)"

definition gateways_for_service :: "ReverseIndexInner \<Rightarrow> string \<Rightarrow> string \<Rightarrow> obj_key list" where
  "gateways_for_service self = gateways_for_key (ri_service_to_gateways self)"

definition gateways_for_secret :: "ReverseIndexInner \<Rightarrow> string \<Rightarrow> string \<Rightarrow> obj_key list" where
  "gateways_for_secret self = gateways_for_key (ri_secret_to_gateways self)"

definition gateways_for_reference_grant :: "ReverseIndexInner \<Rightarrow> string \<Rightarrow> string \<Rightarrow> obj_key list" where
  "gateways_for_reference_grant self = gateways_for_key (ri_reference_grant_to_gateways self)"

section \<open>The store\<close>

record SharedStore =
  ss_inner :: StoreInner
  ss_reverse_index :: ReverseIndexInner

definition SharedStore_new :: SharedStore where
  "SharedStore_new = \<lparr>ss_inner = StoreInner_default, ss_reverse_index = ReverseIndexInner_default\<rparr>"

definition to_gateway_state :: "StoreInner \<Rightarrow> GatewayState" where
  "to_gateway_state self =
     \<lparr>gss_gateways = si_gateways self, gss_http_routes = si_http_routes self,
      gss_tcp_routes = si_tcp_routes self, gss_tls_routes = si_tls_routes self,
      gss_service_endpoints = si_service_endpoints self, gss_tls_secrets = si_tls_secrets self\<rparr>"

definition is_complete :: "StoreInner \<Rightarrow> bool" where
  "is_complete self = (case si_phase self of PhaseReady \<Rightarrow> True | Warming _ \<Rightarrow> False)"

definition to_planner_snapshot :: "StoreInner \<Rightarrow> PlannerSnapshot" where
  "to_planner_snapshot self =
     \<lparr>ps_gateways = si_gateways self, ps_gateway_classes = si_gateway_classes self,
      ps_http_routes = si_http_routes self, ps_tcp_routes = si_tcp_routes self,
      ps_tls_routes = si_tls_routes self, ps_service_endpoints = si_service_endpoints self,
      ps_service_presence = si_service_presence self, ps_tls_secrets = si_tls_secrets self,
      ps_reference_grants = si_reference_grants self,
      ps_service_ref_index = si_service_ref_index self,
      ps_namespace_labels = si_namespace_labels self\<rparr>"

definition store_is_ready :: "SharedStore \<Rightarrow> bool" where
  "store_is_ready self = is_complete (ss_inner self)"

definition mark_listed :: "ResourceClass \<Rightarrow> SharedStore \<Rightarrow> SharedStore" where
  "mark_listed rc self =
     (let inner = ss_inner self in
      case si_phase inner of
        Warming listed \<Rightarrow>
          let listed = insert rc listed in
          self\<lparr>ss_inner := inner\<lparr>si_phase := (if progress_is_complete listed then PhaseReady else Warming listed)\<rparr>\<rparr>
      | PhaseReady \<Rightarrow> self)"

definition mark_ready :: "SharedStore \<Rightarrow> SharedStore" where
  "mark_ready self = self\<lparr>ss_inner := (ss_inner self)\<lparr>si_phase := PhaseReady\<rparr>\<rparr>"

definition store_snapshot :: "SharedStore \<Rightarrow> GatewayState option" where
  "store_snapshot self =
     (let inner = ss_inner self;
          gateways_listed =
            (case si_phase inner of PhaseReady \<Rightarrow> True | Warming listed \<Rightarrow> Gateways \<in> listed) in
      if \<not> gateways_listed then None else Some (to_gateway_state inner))"

definition planner_snapshot :: "SharedStore \<Rightarrow> PlannerSnapshot SnapshotResult" where
  "planner_snapshot self =
     (if \<not> is_complete (ss_inner self) then NotReady
      else SnapshotReady (to_planner_snapshot (ss_inner self)))"

definition get_gateway_class :: "SharedStore \<Rightarrow> string \<Rightarrow> GatewayClass option" where
  "get_gateway_class self name =
     (let inner = ss_inner self;
          gateway_classes_listed =
            (case si_phase inner of PhaseReady \<Rightarrow> True | Warming listed \<Rightarrow> GatewayClasses \<in> listed) in
      if \<not> gateway_classes_listed then None else hm_get (si_gateway_classes inner) name)"

definition store_is_service_referenced :: "SharedStore \<Rightarrow> string \<Rightarrow> string \<Rightarrow> bool option" where
  "store_is_service_referenced self namespace name =
     (let inner = ss_inner self in
      if \<not> is_complete inner then None
      else Some (state_key namespace name \<in> si_service_ref_index inner))"

section \<open>Counts for metrics\<close>

definition gateway_counts :: "SharedStore \<Rightarrow> (string \<times> string, int) hashmap" where
  "gateway_counts self =
     counts_of (map (\<lambda>gw. (namespace_or_default (gw_metadata gw), gs_gateway_class_name (gw_spec gw)))
       (hm_values (si_gateways (ss_inner self))))"

definition httproute_counts :: "SharedStore \<Rightarrow> (string, int) hashmap" where
  "httproute_counts self =
     counts_of (map (\<lambda>r. namespace_or_default (hr_metadata r)) (hm_values (si_http_routes (ss_inner self))))"

definition tcproute_counts :: "SharedStore \<Rightarrow> (string, int) hashmap" where
  "tcproute_counts self =
     counts_of (map (\<lambda>r. namespace_or_default (tr_metadata r)) (hm_values (si_tcp_routes (ss_inner self))))"

definition tlsroute_counts :: "SharedStore \<Rightarrow> (string, int) hashmap" where
  "tlsroute_counts self =
     counts_of (map (\<lambda>r. namespace_or_default (lr_metadata r)) (hm_values (si_tls_routes (ss_inner self))))"

definition reference_grant_counts :: "SharedStore \<Rightarrow> (string, int) hashmap" where
  "reference_grant_counts self =
     counts_of (map (\<lambda>g. namespace_or_default (rg_metadata g)) (hm_values (si_reference_grants (ss_inner self))))"

section \<open>Writes\<close>

text \<open>A write to the inner maps, without and with a rebuild of the reverse index.\<close>

definition write_inner :: "(StoreInner \<Rightarrow> StoreInner) \<Rightarrow> SharedStore \<Rightarrow> SharedStore" where
  "write_inner f self = self\<lparr>ss_inner := f (ss_inner self)\<rparr>"

definition write_indexed :: "(StoreInner \<Rightarrow> StoreInner) \<Rightarrow> SharedStore \<Rightarrow> SharedStore" where
  "write_indexed f self =
     (let inner = f (ss_inner self) in
      \<lparr>ss_inner = inner, ss_reverse_index = rebuild_from_store inner\<rparr>)"

definition upsert_gateway :: "string \<Rightarrow> Gateway \<Rightarrow> SharedStore \<Rightarrow> SharedStore" where
  "upsert_gateway key gateway = write_indexed (\<lambda>inner. inner\<lparr>si_gateways := hm_insert key gateway (si_gateways inner)\<rparr>)"

definition remove_gateway :: "string \<Rightarrow> SharedStore \<Rightarrow> SharedStore" where
  "remove_gateway key = write_indexed (\<lambda>inner. inner\<lparr>si_gateways := hm_remove key (si_gateways inner)\<rparr>)"

definition upsert_gateway_class :: "string \<Rightarrow> GatewayClass \<Rightarrow> SharedStore \<Rightarrow> SharedStore" where
  "upsert_gateway_class key gc =
     write_inner (\<lambda>inner. inner\<lparr>si_gateway_classes := hm_insert key gc (si_gateway_classes inner)\<rparr>)"

definition upsert_http_route :: "string \<Rightarrow> HTTPRoute \<Rightarrow> SharedStore \<Rightarrow> SharedStore" where
  "upsert_http_route key route =
     write_indexed (\<lambda>inner. rebuild_service_index
       (inner\<lparr>si_http_routes := hm_insert key route (si_http_routes inner)\<rparr>))"

definition remove_http_route :: "string \<Rightarrow> SharedStore \<Rightarrow> SharedStore" where
  "remove_http_route key =
     write_indexed (\<lambda>inner. rebuild_service_index (inner\<lparr>si_http_routes := hm_remove key (si_http_routes inner)\<rparr>))"

definition upsert_tcp_route :: "string \<Rightarrow> TCPRoute \<Rightarrow> SharedStore \<Rightarrow> SharedStore" where
  "upsert_tcp_route key route =
     write_indexed (\<lambda>inner. rebuild_service_index
       (inner\<lparr>si_tcp_routes := hm_insert key route (si_tcp_routes inner)\<rparr>))"

definition remove_tcp_route :: "string \<Rightarrow> SharedStore \<Rightarrow> SharedStore" where
  "remove_tcp_route key =
     write_indexed (\<lambda>inner. rebuild_service_index (inner\<lparr>si_tcp_routes := hm_remove key (si_tcp_routes inner)\<rparr>))"

definition upsert_tls_route :: "string \<Rightarrow> TLSRoute \<Rightarrow> SharedStore \<Rightarrow> SharedStore" where
  "upsert_tls_route key route =
     write_indexed (\<lambda>inner. rebuild_service_index
       (inner\<lparr>si_tls_routes := hm_insert key route (si_tls_routes inner)\<rparr>))"

definition remove_tls_route :: "string \<Rightarrow> SharedStore \<Rightarrow> SharedStore" where
  "remove_tls_route key =
     write_indexed (\<lambda>inner. rebuild_service_index (inner\<lparr>si_tls_routes := hm_remove key (si_tls_routes inner)\<rparr>))"

definition upsert_endpoints :: "string \<Rightarrow> ServiceEndpoints \<Rightarrow> SharedStore \<Rightarrow> SharedStore" where
  "upsert_endpoints key endpoints =
     write_inner (\<lambda>inner. inner\<lparr>si_service_endpoints := hm_insert key endpoints (si_service_endpoints inner)\<rparr>)"

definition upsert_service_presence :: "string \<Rightarrow> SharedStore \<Rightarrow> SharedStore" where
  "upsert_service_presence key =
     write_inner (\<lambda>inner. inner\<lparr>si_service_presence := insert key (si_service_presence inner)\<rparr>)"

definition replace_service_presence :: "string set \<Rightarrow> SharedStore \<Rightarrow> SharedStore" where
  "replace_service_presence service_presence =
     write_inner (\<lambda>inner. inner\<lparr>si_service_presence := service_presence\<rparr>)"

definition remove_service_presence :: "string \<Rightarrow> SharedStore \<Rightarrow> SharedStore" where
  "remove_service_presence key =
     write_inner (\<lambda>inner. inner\<lparr>si_service_presence := si_service_presence inner - {key}\<rparr>)"

definition remove_endpoints :: "string \<Rightarrow> SharedStore \<Rightarrow> SharedStore" where
  "remove_endpoints key =
     write_inner (\<lambda>inner. inner\<lparr>si_service_endpoints := hm_remove key (si_service_endpoints inner)\<rparr>)"

definition upsert_tls_secret :: "string \<Rightarrow> string \<Rightarrow> string \<Rightarrow> SharedStore \<Rightarrow> SharedStore" where
  "upsert_tls_secret key cert_path key_path =
     write_inner (\<lambda>inner. inner\<lparr>si_tls_secrets := hm_insert key (cert_path, key_path) (si_tls_secrets inner)\<rparr>)"

definition remove_gateway_class :: "string \<Rightarrow> SharedStore \<Rightarrow> SharedStore" where
  "remove_gateway_class key =
     write_inner (\<lambda>inner. inner\<lparr>si_gateway_classes := hm_remove key (si_gateway_classes inner)\<rparr>)"

definition remove_tls_secret :: "string \<Rightarrow> SharedStore \<Rightarrow> SharedStore" where
  "remove_tls_secret key =
     write_inner (\<lambda>inner. inner\<lparr>si_tls_secrets := hm_remove key (si_tls_secrets inner)\<rparr>)"

definition upsert_reference_grant :: "string \<Rightarrow> ReferenceGrant \<Rightarrow> SharedStore \<Rightarrow> SharedStore" where
  "upsert_reference_grant key grant =
     write_inner (\<lambda>inner. inner\<lparr>si_reference_grants := hm_insert key grant (si_reference_grants inner)\<rparr>)"

definition remove_reference_grant :: "string \<Rightarrow> SharedStore \<Rightarrow> SharedStore" where
  "remove_reference_grant key =
     write_inner (\<lambda>inner. inner\<lparr>si_reference_grants := hm_remove key (si_reference_grants inner)\<rparr>)"

definition upsert_namespace_labels :: "string \<Rightarrow> labels \<Rightarrow> SharedStore \<Rightarrow> SharedStore" where
  "upsert_namespace_labels namespace lbls =
     write_inner (\<lambda>inner. inner\<lparr>si_namespace_labels := hm_insert namespace lbls (si_namespace_labels inner)\<rparr>)"

definition remove_namespace_labels :: "string \<Rightarrow> SharedStore \<Rightarrow> SharedStore" where
  "remove_namespace_labels namespace =
     write_inner (\<lambda>inner. inner\<lparr>si_namespace_labels := hm_remove namespace (si_namespace_labels inner)\<rparr>)"

definition replace_all :: "StoreInner \<Rightarrow> SharedStore \<Rightarrow> SharedStore" where
  "replace_all new_inner = write_indexed (\<lambda>_. rebuild_service_index new_inner)"

definition ingest_gateway_state :: "GatewayState \<Rightarrow> SharedStore \<Rightarrow> SharedStore" where
  "ingest_gateway_state state =
     write_indexed (\<lambda>inner.
       let inner = inner\<lparr>si_gateways := gss_gateways state, si_http_routes := gss_http_routes state,
                         si_tcp_routes := gss_tcp_routes state, si_tls_routes := gss_tls_routes state,
                         si_service_endpoints := gss_service_endpoints state\<rparr>;
           tls_secrets = fold (\<lambda>(k, v) m. if hm_contains m k then m else hm_insert k v m)
                           (gss_tls_secrets state) (si_tls_secrets inner) in
       rebuild_service_index (inner\<lparr>si_tls_secrets := tls_secrets\<rparr>))"

section \<open>Runs of the store\<close>

datatype store_event =
  UpsertGateway string Gateway | RemoveGateway string
| UpsertGatewayClass string GatewayClass | RemoveGatewayClass string
| UpsertHttpRoute string HTTPRoute | RemoveHttpRoute string
| UpsertTcpRoute string TCPRoute | RemoveTcpRoute string
| UpsertTlsRoute string TLSRoute | RemoveTlsRoute string
| UpsertEndpoints string ServiceEndpoints | RemoveEndpoints string
| UpsertServicePresence string | ReplaceServicePresence "string set" | RemoveServicePresence string
| UpsertTlsSecret string string string | RemoveTlsSecret string
| UpsertReferenceGrant string ReferenceGrant | RemoveReferenceGrant string
| UpsertNamespaceLabels string labels | RemoveNamespaceLabels string
| ReplaceAll StoreInner | IngestGatewayState GatewayState
| MarkListed ResourceClass | MarkReady

fun store_step :: "SharedStore \<Rightarrow> store_event \<Rightarrow> SharedStore" where
  "store_step s (UpsertGateway k g) = upsert_gateway k g s"
| "store_step s (RemoveGateway k) = remove_gateway k s"
| "store_step s (UpsertGatewayClass k g) = upsert_gateway_class k g s"
| "store_step s (RemoveGatewayClass k) = remove_gateway_class k s"
| "store_step s (UpsertHttpRoute k r) = upsert_http_route k r s"
| "store_step s (RemoveHttpRoute k) = remove_http_route k s"
| "store_step s (UpsertTcpRoute k r) = upsert_tcp_route k r s"
| "store_step s (RemoveTcpRoute k) = remove_tcp_route k s"
| "store_step s (UpsertTlsRoute k r) = upsert_tls_route k r s"
| "store_step s (RemoveTlsRoute k) = remove_tls_route k s"
| "store_step s (UpsertEndpoints k e) = upsert_endpoints k e s"
| "store_step s (RemoveEndpoints k) = remove_endpoints k s"
| "store_step s (UpsertServicePresence k) = upsert_service_presence k s"
| "store_step s (ReplaceServicePresence A) = replace_service_presence A s"
| "store_step s (RemoveServicePresence k) = remove_service_presence k s"
| "store_step s (UpsertTlsSecret k c p) = upsert_tls_secret k c p s"
| "store_step s (RemoveTlsSecret k) = remove_tls_secret k s"
| "store_step s (UpsertReferenceGrant k g) = upsert_reference_grant k g s"
| "store_step s (RemoveReferenceGrant k) = remove_reference_grant k s"
| "store_step s (UpsertNamespaceLabels k l) = upsert_namespace_labels k l s"
| "store_step s (RemoveNamespaceLabels k) = remove_namespace_labels k s"
| "store_step s (ReplaceAll i) = replace_all i s"
| "store_step s (IngestGatewayState g) = ingest_gateway_state g s"
| "store_step s (MarkListed rc) = mark_listed rc s"
| "store_step s MarkReady = mark_ready s"

section \<open>What the indexes mean\<close>

text \<open>
  The backend references of the stored routes, each with the namespace of its route and the
  Gateways the route names as parents.
\<close>

definition http_uses :: "HTTPRoute \<Rightarrow> (string \<times> obj_key set \<times> BackendRef) set" where
  "http_uses r =
     (let ns = namespace_or_default (hr_metadata r) in
      (\<lambda>br. (ns, route_parent_gateways ns (hrs_parent_refs (hr_spec r)), br)) ` set (HTTPRoute_backend_refs r))"

definition tcp_uses :: "TCPRoute \<Rightarrow> (string \<times> obj_key set \<times> BackendRef) set" where
  "tcp_uses r =
     (let ns = namespace_or_default (tr_metadata r) in
      (\<lambda>br. (ns, route_parent_gateways ns (trs_parent_refs (tr_spec r)), br)) ` set (TCPRoute_backend_refs r))"

definition tls_uses :: "TLSRoute \<Rightarrow> (string \<times> obj_key set \<times> BackendRef) set" where
  "tls_uses r =
     (let ns = namespace_or_default (lr_metadata r) in
      (\<lambda>br. (ns, route_parent_gateways ns (lrs_parent_refs (lr_spec r)), br)) ` set (TLSRoute_backend_refs r))"

definition backend_uses :: "StoreInner \<Rightarrow> (string \<times> obj_key set \<times> BackendRef) set" where
  "backend_uses inner =
     (\<Union>r\<in>set (hm_values (si_http_routes inner)). http_uses r) \<union>
     (\<Union>r\<in>set (hm_values (si_tcp_routes inner)). tcp_uses r) \<union>
     (\<Union>r\<in>set (hm_values (si_tls_routes inner)). tls_uses r)"

text \<open>The certificate references of the stored Gateways, each with its Gateway.\<close>

definition cert_uses :: "StoreInner \<Rightarrow> (obj_key \<times> SecretObjectReference) set" where
  "cert_uses inner =
     {((namespace_or_default (gw_metadata g), name_or_empty (gw_metadata g)), c) | g l t c.
        g \<in> set (hm_values (si_gateways inner)) \<and> l \<in> set (gw_listeners g) \<and> ln_tls l = Some t \<and>
        c \<in> set (gt_certificate_refs t)}"

definition service_target :: "string \<Rightarrow> BackendRef \<Rightarrow> obj_key option" where
  "service_target ns br =
     (if is_core_service_ref (br_group br) (br_kind br) then Some (unwrap_or (br_namespace br) ns, br_name br)
      else None)"

definition secret_target :: "obj_key \<Rightarrow> SecretObjectReference \<Rightarrow> obj_key" where
  "secret_target gw c = (unwrap_or (sr_namespace c) (fst gw), sr_name c)"

subsection \<open>The service index\<close>

definition service_keys :: "string \<Rightarrow> BackendRef \<Rightarrow> string set" where
  "service_keys ns br = {state_key (fst k) (snd k) | k. service_target ns br = Some k}"

lemma index_service_Un: "index_service ns br A = A \<union> service_keys ns br"
  by (auto simp: index_service_def service_target_def service_keys_def)

lemma service_index_spec:
  "si_service_ref_index (rebuild_service_index inner) = (\<Union>(ns, gws, br)\<in>backend_uses inner. service_keys ns br)"
proof -
  note fc = fold_collect [where obs = "\<lambda>x. x"]
  have h: "fold (\<lambda>b. index_service ns (hbr_backend_ref b)) bs A = A \<union> (\<Union>b\<in>set bs. service_keys ns (hbr_backend_ref b))"
    for ns bs A by (rule fc) (rule index_service_Un)
  have i: "fold (index_service ns) bs A = A \<union> (\<Union>b\<in>set bs. service_keys ns b)"
    for ns bs A by (rule fc) (rule index_service_Un)
  show ?thesis
    unfolding rebuild_service_index_def Let_def h i backend_uses_def http_uses_def tcp_uses_def tls_uses_def
    by (simp only: fc [OF fc [OF refl]] fc HTTPRoute_backend_refs_def TCPRoute_backend_refs_def
        TLSRoute_backend_refs_def) (simp add: UN_UN_flatten)
qed

subsection \<open>The reverse index\<close>

text \<open>What one backend reference adds for a service, and for the grants of its namespace.\<close>

definition service_gain :: "obj_key \<Rightarrow> string \<times> obj_key set \<times> BackendRef \<Rightarrow> obj_key set" where
  "service_gain k u = {gw. service_target (fst u) (snd (snd u)) = Some k \<and> gw \<in> fst (snd u)}"

definition grant_gain :: "obj_key \<Rightarrow> string \<times> obj_key set \<times> BackendRef \<Rightarrow> obj_key set" where
  "grant_gain k u =
     {gw. service_target (fst u) (snd (snd u)) = Some k \<and> fst k \<noteq> fst u \<and> gw \<in> fst (snd u)}"

lemma index_backend_ref_simps:
  "set_at (ri_service_to_gateways (index_backend_ref ns gws br ix)) k =
     set_at (ri_service_to_gateways ix) k \<union> service_gain k (ns, gws, br)"
  "set_at (ri_reference_grant_to_gateways (index_backend_ref ns gws br ix)) k =
     set_at (ri_reference_grant_to_gateways ix) k \<union> grant_gain k (ns, gws, br)"
  "ri_secret_to_gateways (index_backend_ref ns gws br ix) = ri_secret_to_gateways ix"
  by (auto simp: index_backend_ref_def index_grant_def Let_def service_gain_def grant_gain_def
      service_target_def hm_simps split: if_splits)

lemma index_cert_ref_simps:
  "ri_service_to_gateways (index_cert_ref ns gw c ix) = ri_service_to_gateways ix"
  "set_at (ri_secret_to_gateways (index_cert_ref (fst gw) gw c ix)) k =
     set_at (ri_secret_to_gateways ix) k \<union> (if secret_target gw c = k then {gw} else {})"
  "set_at (ri_reference_grant_to_gateways (index_cert_ref (fst gw) gw c ix)) k =
     set_at (ri_reference_grant_to_gateways ix) k \<union> (if secret_target gw c = k \<and> fst k \<noteq> fst gw then {gw} else {})"
  by (auto simp: index_cert_ref_def index_grant_def Let_def secret_target_def hm_simps split: if_splits)

text \<open>
  An observation of the index that grows by \<open>gain\<close> with every backend reference and ignores the
  per-route entries grows by the gains of all uses of a route.
\<close>

lemma fold_rules_gain:
  assumes "\<And>br ix. obs (index_backend_ref ns gws br ix) = obs ix \<union> gain (ns, gws, br)"
  shows "obs (fold (\<lambda>rule ix. fold (\<lambda>b. index_backend_ref ns gws (f b)) (refs rule) ix) rules ix) =
    obs ix \<union> (\<Union>u\<in>(\<lambda>br. (ns, gws, br)) ` set (concat (map (\<lambda>rule. map f (refs rule)) rules)). gain u)"
proof -
  have refs: "obs (fold (\<lambda>b. index_backend_ref ns gws (f b)) bs ix) = obs ix \<union> (\<Union>b\<in>set bs. gain (ns, gws, f b))" for bs ix
    by (rule fold_collect) (rule assms)
  have "obs (fold (\<lambda>rule ix. fold (\<lambda>b. index_backend_ref ns gws (f b)) (refs rule) ix) rules ix) =
      obs ix \<union> (\<Union>rule\<in>set rules. \<Union>b\<in>set (refs rule). gain (ns, gws, f b))"
    by (rule fold_collect) (rule refs)
  then show ?thesis by simp
qed

lemma index_http_route_gain:
  assumes "\<And>ns gws br ix. obs (index_backend_ref ns gws br ix) = obs ix \<union> gain (ns, gws, br)"
    and "\<And>m ix. obs (ix\<lparr>ri_http_route_to_gateways := m\<rparr>) = obs ix"
  shows "obs (index_http_route r ix) = obs ix \<union> (\<Union>u\<in>http_uses r. gain u)"
  unfolding index_http_route_def http_uses_def HTTPRoute_backend_refs_def Let_def
  by (subst fold_rules_gain [where obs = obs and gain = gain, OF assms(1)]) (simp only: assms(2))

lemma index_tcp_route_gain:
  assumes "\<And>ns gws br ix. obs (index_backend_ref ns gws br ix) = obs ix \<union> gain (ns, gws, br)"
    and "\<And>m ix. obs (ix\<lparr>ri_tcp_route_to_gateways := m\<rparr>) = obs ix"
  shows "obs (index_tcp_route r ix) = obs ix \<union> (\<Union>u\<in>tcp_uses r. gain u)"
  unfolding index_tcp_route_def tcp_uses_def TCPRoute_backend_refs_def Let_def
  by (subst fold_rules_gain [where obs = obs and gain = gain and f = "\<lambda>b. b", OF assms(1)])
     (simp only: assms(2) list.map_ident)

lemma index_tls_route_gain:
  assumes "\<And>ns gws br ix. obs (index_backend_ref ns gws br ix) = obs ix \<union> gain (ns, gws, br)"
    and "\<And>m ix. obs (ix\<lparr>ri_tls_route_to_gateways := m\<rparr>) = obs ix"
  shows "obs (index_tls_route r ix) = obs ix \<union> (\<Union>u\<in>tls_uses r. gain u)"
  unfolding index_tls_route_def tls_uses_def TLSRoute_backend_refs_def Let_def
  by (subst fold_rules_gain [where obs = obs and gain = gain and f = "\<lambda>b. b", OF assms(1)])
     (simp only: assms(2) list.map_ident)

text \<open>What a Gateway adds, for an observation that grows with every certificate reference.\<close>

definition gateway_certs :: "Gateway \<Rightarrow> (obj_key \<times> SecretObjectReference) set" where
  "gateway_certs g =
     (\<lambda>c. ((namespace_or_default (gw_metadata g), name_or_empty (gw_metadata g)), c)) `
       {c. \<exists>l\<in>set (gw_listeners g). \<exists>t. ln_tls l = Some t \<and> c \<in> set (gt_certificate_refs t)}"

lemma index_gateway_gain:
  assumes "\<And>gw c ix. obs (index_cert_ref (fst gw) gw c ix) = obs ix \<union> gain (gw, c)"
  shows "obs (index_gateway g ix) = obs ix \<union> (\<Union>u\<in>gateway_certs g. gain u)"
proof -
  let ?ns = "namespace_or_default (gw_metadata g)"
  let ?gw = "(?ns, name_or_empty (gw_metadata g))"
  have refs: "obs (fold (index_cert_ref ?ns ?gw) cs ix) = obs ix \<union> (\<Union>c\<in>set cs. gain (?gw, c))" for cs ix
    by (rule fold_collect) (use assms [of ?gw] in simp)
  have "obs (index_gateway g ix) = obs ix \<union>
      (\<Union>l\<in>set (gw_listeners g). case ln_tls l of None \<Rightarrow> {} | Some t \<Rightarrow> \<Union>c\<in>set (gt_certificate_refs t). gain (?gw, c))"
    unfolding index_gateway_def Let_def
    by (rule fold_collect) (simp add: refs split: option.split)
  also have "\<dots> = obs ix \<union> (\<Union>u\<in>gateway_certs g. gain u)"
    by (fastforce simp: gateway_certs_def split: option.splits)
  finally show ?thesis .
qed

lemma cert_uses_alt: "cert_uses inner = (\<Union>g\<in>set (hm_values (si_gateways inner)). gateway_certs g)"
  unfolding cert_uses_def gateway_certs_def by blast

text \<open>The observations of the rebuilt index: services, secrets and reference grants.\<close>

lemma rebuild_service:
  "set_at (ri_service_to_gateways (rebuild_from_store inner)) k = (\<Union>u\<in>backend_uses inner. service_gain k u)"
proof -
  let ?obs = "\<lambda>ix. set_at (ri_service_to_gateways ix) k"
  have g: "?obs (fold index_gateway gs ix) = ?obs ix" for gs ix
    by (rule fold_keeps)
       (use index_gateway_gain [where obs = ?obs and gain = "\<lambda>_. {}"] in \<open>simp add: index_cert_ref_simps\<close>)
  have h: "?obs (fold index_http_route rs ix) = ?obs ix \<union> (\<Union>r\<in>set rs. \<Union>u\<in>http_uses r. service_gain k u)" for rs ix
    by (rule fold_collect [where obs = ?obs], rule index_http_route_gain) (simp_all add: index_backend_ref_simps)
  have t: "?obs (fold index_tcp_route rs ix) = ?obs ix \<union> (\<Union>r\<in>set rs. \<Union>u\<in>tcp_uses r. service_gain k u)" for rs ix
    by (rule fold_collect [where obs = ?obs], rule index_tcp_route_gain) (simp_all add: index_backend_ref_simps)
  have l: "?obs (fold index_tls_route rs ix) = ?obs ix \<union> (\<Union>r\<in>set rs. \<Union>u\<in>tls_uses r. service_gain k u)" for rs ix
    by (rule fold_collect [where obs = ?obs], rule index_tls_route_gain) (simp_all add: index_backend_ref_simps)
  show ?thesis
    unfolding rebuild_from_store_def Let_def h t l g
    by (simp add: backend_uses_def ReverseIndexInner_default_def UN_Un)
qed

lemma rebuild_secret:
  "set_at (ri_secret_to_gateways (rebuild_from_store inner)) k =
     {gw. \<exists>c. (gw, c) \<in> cert_uses inner \<and> secret_target gw c = k}"
proof -
  let ?obs = "\<lambda>ix. set_at (ri_secret_to_gateways ix) k"
  let ?g = "\<lambda>(gw, c). if secret_target gw c = k then {gw} else {}"
  have g: "?obs (fold index_gateway gs ix) = ?obs ix \<union> (\<Union>g\<in>set gs. \<Union>u\<in>gateway_certs g. ?g u)" for gs ix
    by (rule fold_collect [where obs = ?obs], rule index_gateway_gain) (simp add: index_cert_ref_simps)
  have h: "?obs (fold index_http_route rs ix) = ?obs ix" for rs ix
    by (rule fold_keeps)
       (use index_http_route_gain [where obs = ?obs and gain = "\<lambda>_. {}"] in \<open>simp add: index_backend_ref_simps\<close>)
  have t: "?obs (fold index_tcp_route rs ix) = ?obs ix" for rs ix
    by (rule fold_keeps)
       (use index_tcp_route_gain [where obs = ?obs and gain = "\<lambda>_. {}"] in \<open>simp add: index_backend_ref_simps\<close>)
  have l: "?obs (fold index_tls_route rs ix) = ?obs ix" for rs ix
    by (rule fold_keeps)
       (use index_tls_route_gain [where obs = ?obs and gain = "\<lambda>_. {}"] in \<open>simp add: index_backend_ref_simps\<close>)
  have "?obs (rebuild_from_store inner) = (\<Union>u\<in>cert_uses inner. ?g u)"
    unfolding rebuild_from_store_def Let_def h t l g cert_uses_alt by (simp add: ReverseIndexInner_default_def)
  then show ?thesis by (auto split: if_splits)
qed

lemma rebuild_grant:
  "set_at (ri_reference_grant_to_gateways (rebuild_from_store inner)) k =
     {gw. \<exists>c. (gw, c) \<in> cert_uses inner \<and> secret_target gw c = k \<and> fst k \<noteq> fst gw} \<union>
     (\<Union>u\<in>backend_uses inner. grant_gain k u)"
proof -
  let ?obs = "\<lambda>ix. set_at (ri_reference_grant_to_gateways ix) k"
  let ?g = "\<lambda>(gw, c). if secret_target gw c = k \<and> fst k \<noteq> fst gw then {gw} else {}"
  have g: "?obs (fold index_gateway gs ix) = ?obs ix \<union> (\<Union>g\<in>set gs. \<Union>u\<in>gateway_certs g. ?g u)" for gs ix
    by (rule fold_collect [where obs = ?obs], rule index_gateway_gain) (simp add: index_cert_ref_simps)
  have h: "?obs (fold index_http_route rs ix) = ?obs ix \<union> (\<Union>r\<in>set rs. \<Union>u\<in>http_uses r. grant_gain k u)" for rs ix
    by (rule fold_collect [where obs = ?obs], rule index_http_route_gain) (simp_all add: index_backend_ref_simps)
  have t: "?obs (fold index_tcp_route rs ix) = ?obs ix \<union> (\<Union>r\<in>set rs. \<Union>u\<in>tcp_uses r. grant_gain k u)" for rs ix
    by (rule fold_collect [where obs = ?obs], rule index_tcp_route_gain) (simp_all add: index_backend_ref_simps)
  have l: "?obs (fold index_tls_route rs ix) = ?obs ix \<union> (\<Union>r\<in>set rs. \<Union>u\<in>tls_uses r. grant_gain k u)" for rs ix
    by (rule fold_collect [where obs = ?obs], rule index_tls_route_gain) (simp_all add: index_backend_ref_simps)
  have "?obs (rebuild_from_store inner) = (\<Union>u\<in>cert_uses inner. ?g u) \<union> (\<Union>u\<in>backend_uses inner. grant_gain k u)"
    unfolding rebuild_from_store_def Let_def h t l g cert_uses_alt
    by (simp add: backend_uses_def ReverseIndexInner_default_def UN_Un Un_assoc)
  moreover have "(\<Union>u\<in>cert_uses inner. ?g u) =
      {gw. \<exists>c. (gw, c) \<in> cert_uses inner \<and> secret_target gw c = k \<and> fst k \<noteq> fst gw}"
    by (auto split: if_splits)
  ultimately show ?thesis by simp
qed

subsection \<open>Finiteness\<close>

lemma finite_route_parent_gateways [simp]: "finite (route_parent_gateways ns prs)"
proof -
  have "finite A \<Longrightarrow> finite (fold (\<lambda>p A. if P p then A else insert (f p) A) prs A)"
    for P :: "ParentReference \<Rightarrow> bool" and f :: "ParentReference \<Rightarrow> obj_key" and A
    by (induction prs arbitrary: A) auto
  then show ?thesis by (simp add: route_parent_gateways_def Let_def)
qed

lemma finite_backend_uses [simp]: "finite (backend_uses inner)"
  by (auto simp: backend_uses_def http_uses_def tcp_uses_def tls_uses_def Let_def)

lemma finite_backend_gws: "(ns, gws, br) \<in> backend_uses inner \<Longrightarrow> finite gws"
  by (auto simp: backend_uses_def http_uses_def tcp_uses_def tls_uses_def Let_def)

lemma finite_cert_gateways [simp]: "finite {gw. \<exists>c. (gw, c) \<in> cert_uses inner \<and> P gw c}"
proof (rule finite_subset)
  show "{gw. \<exists>c. (gw, c) \<in> cert_uses inner \<and> P gw c} \<subseteq>
      (\<lambda>g. (namespace_or_default (gw_metadata g), name_or_empty (gw_metadata g))) ` set (hm_values (si_gateways inner))"
    by (auto simp: cert_uses_def)
qed simp

subsection \<open>The invariant\<close>

text \<open>Both indexes are what a rebuild from the current maps would give.\<close>

definition store_inv :: "SharedStore \<Rightarrow> bool" where
  "store_inv s =
     (ss_reverse_index s = rebuild_from_store (ss_inner s) \<and>
      si_service_ref_index (ss_inner s) = si_service_ref_index (rebuild_service_index (ss_inner s)))"

lemma rebuild_service_index_fields [simp]:
  "si_gateways (rebuild_service_index i) = si_gateways i"
  "si_http_routes (rebuild_service_index i) = si_http_routes i"
  "si_tcp_routes (rebuild_service_index i) = si_tcp_routes i"
  "si_tls_routes (rebuild_service_index i) = si_tls_routes i"
  "si_phase (rebuild_service_index i) = si_phase i"
  by (simp_all add: rebuild_service_index_def Let_def)

text \<open>The indexes depend on the Gateway and route maps only.\<close>

lemma rebuild_from_store_cong:
  assumes "si_gateways i = si_gateways j" "si_http_routes i = si_http_routes j"
    "si_tcp_routes i = si_tcp_routes j" "si_tls_routes i = si_tls_routes j"
  shows "rebuild_from_store i = rebuild_from_store j"
  using assms by (simp add: rebuild_from_store_def)

lemma service_index_cong:
  assumes "si_http_routes i = si_http_routes j" "si_tcp_routes i = si_tcp_routes j"
    "si_tls_routes i = si_tls_routes j"
  shows "si_service_ref_index (rebuild_service_index i) = si_service_ref_index (rebuild_service_index j)"
  using assms by (simp add: rebuild_service_index_def)

lemma write_inner_inv:
  assumes "store_inv s" "\<And>i. si_gateways (f i) = si_gateways i" "\<And>i. si_http_routes (f i) = si_http_routes i"
    "\<And>i. si_tcp_routes (f i) = si_tcp_routes i" "\<And>i. si_tls_routes (f i) = si_tls_routes i"
    "\<And>i. si_service_ref_index (f i) = si_service_ref_index i"
  shows "store_inv (write_inner f s)"
  using assms rebuild_from_store_cong [of "f (ss_inner s)" "ss_inner s"]
    service_index_cong [of "f (ss_inner s)" "ss_inner s"]
  by (simp add: store_inv_def write_inner_def)

lemma write_indexed_inv:
  assumes "\<And>i. si_service_ref_index i = si_service_ref_index (rebuild_service_index i) \<Longrightarrow>
      si_service_ref_index (f i) = si_service_ref_index (rebuild_service_index (f i))"
    and "store_inv s"
  shows "store_inv (write_indexed f s)"
  using assms by (simp add: store_inv_def write_indexed_def Let_def)

lemma write_indexed_service_inv: "store_inv (write_indexed (\<lambda>i. rebuild_service_index (f i)) s)"
  by (simp add: store_inv_def write_indexed_def Let_def
      service_index_cong [of "rebuild_service_index (f (ss_inner s))" "f (ss_inner s)"])

lemma write_indexed_gateways_inv:
  "store_inv s \<Longrightarrow> store_inv (write_indexed (\<lambda>i. i\<lparr>si_gateways := g i\<rparr>) s)"
  by (rule write_indexed_inv) (simp_all add: service_index_cong [of "_\<lparr>si_gateways := _\<rparr>"])

lemma mark_listed_inv: "store_inv s \<Longrightarrow> store_inv (mark_listed rc s)"
  using write_inner_inv [of s "\<lambda>i. i\<lparr>si_phase := p\<rparr>" for p]
  by (auto simp: mark_listed_def write_inner_def Let_def split: StorePhase.split)

lemma store_step_inv: "store_inv s \<Longrightarrow> store_inv (store_step s e)"
proof (cases e)
  case (MarkListed rc)
  then show "store_inv s \<Longrightarrow> ?thesis" by (simp add: mark_listed_inv)
next
  case MarkReady
  then show "store_inv s \<Longrightarrow> ?thesis"
    using write_inner_inv [of s "\<lambda>i. i\<lparr>si_phase := PhaseReady\<rparr>"] by (simp add: mark_ready_def write_inner_def)
next
  case (IngestGatewayState g)
  then show ?thesis by (simp add: ingest_gateway_state_def Let_def write_indexed_service_inv)
qed (simp_all add: upsert_gateway_def remove_gateway_def upsert_gateway_class_def remove_gateway_class_def
  upsert_http_route_def remove_http_route_def upsert_tcp_route_def remove_tcp_route_def
  upsert_tls_route_def remove_tls_route_def upsert_endpoints_def remove_endpoints_def
  upsert_service_presence_def replace_service_presence_def remove_service_presence_def
  upsert_tls_secret_def remove_tls_secret_def upsert_reference_grant_def remove_reference_grant_def
  upsert_namespace_labels_def remove_namespace_labels_def replace_all_def
  write_inner_inv write_indexed_service_inv write_indexed_gateways_inv)

interpretation store: invariant_machine store_step "\<lambda>_. True" store_inv
  by unfold_locales (rule store_step_inv)

lemma store_inv_new: "store_inv SharedStore_new"
  by (simp add: store_inv_def SharedStore_new_def StoreInner_default_def rebuild_from_store_def
      rebuild_service_index_def hm_values_def Let_def)

lemma store_run_inv: "store_inv (foldl store_step SharedStore_new es)"
  using store.run_inv [OF store_inv_new, of es] by (simp add: list_all_iff)

subsection \<open>Properties of the indexes\<close>

lemma service_keys_spec:
  "(\<Union>(ns, gws, br)\<in>backend_uses i. service_keys ns br) =
     {state_key (fst k) (snd k) | ns gws br k. (ns, gws, br) \<in> backend_uses i \<and> service_target ns br = Some k}"
  unfolding service_keys_def by (rule UN_triples)

lemma service_gain_spec:
  "(\<Union>u\<in>backend_uses i. service_gain k u) =
     {gw. \<exists>ns gws br. (ns, gws, br) \<in> backend_uses i \<and> service_target ns br = Some k \<and> gw \<in> gws}"
  unfolding service_gain_def by (rule UN_triples_middle)

lemma grant_gain_spec:
  "(\<Union>u\<in>backend_uses i. grant_gain k u) =
     {gw. \<exists>ns gws br. (ns, gws, br) \<in> backend_uses i \<and> (service_target ns br = Some k \<and> fst k \<noteq> ns) \<and> gw \<in> gws}"
  using UN_triples_middle [where P = "\<lambda>ns br. service_target ns br = Some k \<and> fst k \<noteq> ns"]
  unfolding grant_gain_def by (simp only: conj_assoc)

lemma finite_gains [simp]:
  "finite (\<Union>u\<in>backend_uses i. service_gain k u)" "finite (\<Union>u\<in>backend_uses i. grant_gain k u)"
  by (auto simp: service_gain_def grant_gain_def dest: finite_backend_gws)

lemma set_gateways_for_service:
  "set (gateways_for_service (rebuild_from_store i) ns n) =
     {gw. \<exists>ns' gws br. (ns', gws, br) \<in> backend_uses i \<and> service_target ns' br = Some (ns, n) \<and> gw \<in> gws}"
  unfolding gateways_for_service_def gateways_for_key_def rebuild_service service_gain_spec [symmetric]
  by (rule set_sorted_set) simp

lemma set_gateways_for_secret:
  "set (gateways_for_secret (rebuild_from_store i) ns n) =
     {gw. \<exists>c. (gw, c) \<in> cert_uses i \<and> secret_target gw c = (ns, n)}"
  unfolding gateways_for_secret_def gateways_for_key_def rebuild_secret by (rule set_sorted_set) simp

lemma set_gateways_for_grant:
  "set (gateways_for_reference_grant (rebuild_from_store i) ns n) =
     {gw. \<exists>c. (gw, c) \<in> cert_uses i \<and> secret_target gw c = (ns, n) \<and> fst (ns, n) \<noteq> fst gw} \<union>
     {gw. \<exists>ns' gws br. (ns', gws, br) \<in> backend_uses i \<and> (service_target ns' br = Some (ns, n) \<and>
        fst (ns, n) \<noteq> ns') \<and> gw \<in> gws}"
  unfolding gateways_for_reference_grant_def gateways_for_key_def rebuild_grant grant_gain_spec [symmetric]
  by (rule set_sorted_set) simp


text \<open>
  The Gateways a ReferenceGrant watch event is mapped to. The index is keyed by the name of
  the referenced object, so the event of a grant reaches only the Gateways with a reference
  across namespaces to an object that has the same name as the grant.
\<close>

theorem grant_watch_keyed_by_target:
  "let s = foldl store_step SharedStore_new es; inner = ss_inner s in
     set (gateways_for_reference_grant (ss_reverse_index s) grant_ns grant_name) =
       {gw. \<exists>c. (gw, c) \<in> cert_uses inner \<and> secret_target gw c = (grant_ns, grant_name) \<and> grant_ns \<noteq> fst gw} \<union>
       {gw. \<exists>ns gws br. (ns, gws, br) \<in> backend_uses inner \<and>
          service_target ns br = Some (grant_ns, grant_name) \<and> grant_ns \<noteq> ns \<and> gw \<in> gws}"
proof -
  let ?s = "foldl store_step SharedStore_new es"
  have inv: "ss_reverse_index ?s = rebuild_from_store (ss_inner ?s)"
    using store_run_inv [of es] by (simp add: store_inv_def)
  show ?thesis unfolding Let_def inv set_gateways_for_grant by simp
qed

section \<open>Readiness\<close>

text \<open>The phase that corresponds to a set of listed classes.\<close>

definition phase_of :: "ResourceClass set \<Rightarrow> StorePhase" where
  "phase_of listed = (if listed = UNIV then PhaseReady else Warming listed)"

lemma progress_is_complete_iff: "progress_is_complete listed \<longleftrightarrow> listed = UNIV"
proof -
  have "x \<in> set ResourceClass_ALL" for x by (cases x) (simp_all add: ResourceClass_ALL_def)
  then show ?thesis unfolding progress_is_complete_def list_all_iff by blast
qed

lemma progress_remaining_iff: "set (progress_remaining listed) = - listed"
proof -
  have "x \<in> set ResourceClass_ALL" for x by (cases x) (simp_all add: ResourceClass_ALL_def)
  then show ?thesis by (auto simp: progress_remaining_def)
qed

text \<open>Events that neither force the store ready nor replace it as a whole.\<close>

fun controller_event :: "store_event \<Rightarrow> bool" where
  "controller_event MarkReady = False"
| "controller_event (ReplaceAll _) = False"
| "controller_event _ = True"

lemma mark_listed_phase:
  "si_phase (ss_inner s) = phase_of A \<Longrightarrow> si_phase (ss_inner (mark_listed rc s)) = phase_of (insert rc A)"
  by (auto simp: mark_listed_def phase_of_def progress_is_complete_iff Let_def split: StorePhase.split)

lemma store_step_phase:
  assumes "controller_event e" "\<forall>rc. e \<noteq> MarkListed rc"
  shows "si_phase (ss_inner (store_step s e)) = si_phase (ss_inner s)"
  using assms
  by (cases e) (simp_all add: upsert_gateway_def remove_gateway_def upsert_gateway_class_def
    remove_gateway_class_def upsert_http_route_def remove_http_route_def upsert_tcp_route_def
    remove_tcp_route_def upsert_tls_route_def remove_tls_route_def upsert_endpoints_def
    remove_endpoints_def upsert_service_presence_def replace_service_presence_def
    remove_service_presence_def upsert_tls_secret_def remove_tls_secret_def
    upsert_reference_grant_def remove_reference_grant_def upsert_namespace_labels_def
    remove_namespace_labels_def ingest_gateway_state_def write_inner_def write_indexed_def Let_def)

lemma store_run_phase:
  assumes "list_all controller_event es" "si_phase (ss_inner s) = phase_of A"
  shows "si_phase (ss_inner (foldl store_step s es)) = phase_of (A \<union> {rc. MarkListed rc \<in> set es})"
  using assms
proof (induction es arbitrary: s A)
  case (Cons e es)
  show ?case
  proof (cases "\<exists>rc. e = MarkListed rc")
    case True
    then obtain rc where rc: "e = MarkListed rc" ..
    have "insert rc A \<union> {rc. MarkListed rc \<in> set es} = A \<union> {rc'. MarkListed rc' \<in> set (e # es)}"
      using rc by auto
    with Cons rc show ?thesis using mark_listed_phase [of s A rc] by simp
  next
    case False
    then have "{rc. MarkListed rc \<in> set (e # es)} = {rc. MarkListed rc \<in> set es}" by auto
    with Cons False show ?thesis using store_step_phase [of e s] by simp
  qed
qed simp



end
