(* ===== verification/Controller_Contracts.thy ===== *)
theory Controller_Contracts
  imports Gateway_Crds
begin

text \<open>
  The contracts between planners and appliers
  (\<^verbatim>\<open>crates/wicket-controller/src/reconcilers/contracts.rs\<close>): error values, configuration plans,
  listener status intents, service types and ports, and the contract of a planner. The source
  has \<^verbatim>\<open>RouteGroupKind\<close> twice (here and among the CRDs) with the same fields; it is one record.
\<close>

section \<open>Errors\<close>

datatype PlanError =
  MissingField string
| InvalidInput string
| StoreNotReady
| ReferenceNotPermitted string string string string

fun show_PlanError :: "PlanError \<Rightarrow> string" where
  "show_PlanError (MissingField field) = ''missing required field: '' @ field"
| "show_PlanError (InvalidInput reason) = ''invalid input: '' @ reason"
| "show_PlanError StoreNotReady = ''store not ready''"
| "show_PlanError (ReferenceNotPermitted from_ns from_kind to_ns to_name) =
     ''cross-namespace reference not permitted: from '' @ from_ns @ ''/'' @ from_kind @ '' to '' @
     to_ns @ ''/'' @ to_name"

datatype ApplyError =
  KubeApi string
| Filesystem string
| Serialization string
| NotOwned string string

fun show_ApplyError :: "ApplyError \<Rightarrow> string" where
  "show_ApplyError (KubeApi e) = ''kubernetes API error: '' @ e"
| "show_ApplyError (Filesystem e) = ''filesystem error: '' @ e"
| "show_ApplyError (Serialization e) = ''serialization error: '' @ e"
| "show_ApplyError (NotOwned namespace name) =
     ''object '' @ namespace @ ''/'' @ name @ '' exists but is not managed by wicket-controller''"

section \<open>Plans and intents\<close>

datatype ConfigPlan =
  ConfigUpdate (cp_toml_content: string) (cp_config_hash: string)
| ConfigNoOp (cp_toml_content: string) (cp_config_hash: string)

datatype ConfigApplyResult = ApplyUpdated string | ApplyNoOp

record ListenerStatusIntent =
  lsi_name :: string
  lsi_attached_routes :: u32
  lsi_supported_kinds :: "RouteGroupKind list"
  lsi_accepted :: bool
  lsi_rejection_reason :: "string option"
  lsi_resolved_refs :: bool
  lsi_resolved_refs_reason :: "string option"

datatype ServiceType = ClusterIP | LoadBalancer | NodePort

fun ServiceType_display :: "ServiceType \<Rightarrow> string" where
  "ServiceType_display ClusterIP = ''ClusterIP''"
| "ServiceType_display LoadBalancer = ''LoadBalancer''"
| "ServiceType_display NodePort = ''NodePort''"

text \<open>\<^verbatim>\<open>format!("{:?}")\<close> of a string adds quotes and escapes; it is an argument here.\<close>

definition ServiceType_from_str :: "(string \<Rightarrow> string) \<Rightarrow> string \<Rightarrow> string + ServiceType" where
  "ServiceType_from_str debug s =
     (if s = ''ClusterIP'' then Ok ClusterIP
      else if s = ''LoadBalancer'' then Ok LoadBalancer
      else if s = ''NodePort'' then Ok NodePort
      else Err (''invalid service type '' @ debug s @
                ''; expected one of: ClusterIP, LoadBalancer, NodePort''))"

lemma ServiceType_round_trip: "ServiceType_from_str debug (ServiceType_display t) = Ok t"
  by (cases t) (simp_all add: ServiceType_from_str_def)

lemma ServiceType_from_str_Ok: "ServiceType_from_str debug s = Ok t \<longleftrightarrow> s = ServiceType_display t"
  by (cases t) (auto simp: ServiceType_from_str_def)

record ServicePortSpec =
  sps_name :: string
  sps_port :: u16
  sps_target_port :: u16
  sps_protocol :: string

record RuntimeMetadata =
  rmd_image :: string
  rmd_replicas :: u32
  rmd_resources :: labels
  rmd_node_selector :: labels

definition RuntimeMetadata_default :: RuntimeMetadata where
  "RuntimeMetadata_default = \<lparr>rmd_image = [], rmd_replicas = 1, rmd_resources = [], rmd_node_selector = []\<rparr>"

section \<open>The contract of a planner\<close>

text \<open>
  A planner is a pure function of its input: inputs that carry the same information, however a
  hash map happens to enumerate it, give the same plan or the same failure.
\<close>

locale planner_contract =
  fixes plan :: "'i \<Rightarrow> 'e + 'p"
    and same :: "'i \<Rightarrow> 'i \<Rightarrow> bool"
  assumes deterministic: "same i j \<Longrightarrow> plan i = plan j"
begin

lemma replan_stable: "same i j \<Longrightarrow> plan i = Inr p \<Longrightarrow> plan j = Inr p"
  using deterministic [of i j] by simp

lemma replan_fails_alike: "same i j \<Longrightarrow> is_ok (plan i) = is_ok (plan j)"
  using deterministic [of i j] by simp

end

end
