(* ===== verification/Attachment_Planner.thy ===== *)
theory Attachment_Planner
  imports Controller_Store Controller_Contracts Sni_Router
begin

text \<open>
  The attachment planner (\<^verbatim>\<open>crates/wicket-controller/src/reconcilers/attachment_planner.rs\<close>): which
  routes attach to which listeners of a Gateway, why the others do not, and how many routes each
  listener carries. The theorems say when a route attaches, that the counts are right, that the
  plan does not depend on the iteration order of the snapshot's hash maps, and that the host name
  check agrees with the patterns of the proxy's SNI router.
\<close>

section \<open>Route kinds\<close>

datatype RouteKind = KindHTTPRoute | KindTCPRoute | KindTLSRoute

text \<open>The derived order of the source's enumeration.\<close>

fun RouteKind_rank :: "RouteKind \<Rightarrow> nat" where
  "RouteKind_rank KindHTTPRoute = 0"
| "RouteKind_rank KindTCPRoute = 1"
| "RouteKind_rank KindTLSRoute = 2"

lemma RouteKind_rank_inj: "RouteKind_rank a = RouteKind_rank b \<Longrightarrow> a = b"
  by (cases a; cases b) simp_all

instantiation RouteKind :: linorder
begin

definition less_eq_RouteKind :: "RouteKind \<Rightarrow> RouteKind \<Rightarrow> bool" where
  "less_eq_RouteKind a b = (RouteKind_rank a \<le> RouteKind_rank b)"

definition less_RouteKind :: "RouteKind \<Rightarrow> RouteKind \<Rightarrow> bool" where
  "less_RouteKind a b = (RouteKind_rank a < RouteKind_rank b)"

instance
  by standard (auto simp: less_eq_RouteKind_def less_RouteKind_def intro: RouteKind_rank_inj)

end

fun RouteKind_as_str :: "RouteKind \<Rightarrow> string" where
  "RouteKind_as_str KindHTTPRoute = ''HTTPRoute''"
| "RouteKind_as_str KindTCPRoute = ''TCPRoute''"
| "RouteKind_as_str KindTLSRoute = ''TLSRoute''"

definition to_route_group_kind :: "RouteKind \<Rightarrow> RouteGroupKind" where
  "to_route_group_kind self = \<lparr>rgk_group = GATEWAY_API_GROUP, rgk_kind = RouteKind_as_str self\<rparr>"

section \<open>Attachment status\<close>

datatype AttachmentStatus =
  Attached
| NoMatchingParent
| NotAllowedByListenerProtocol
| NotAllowedByListenerNamespacePolicy
| NotAllowedByListenerKindPolicy
| NoMatchingListenerHostname
| RefNotPermitted string string string
| BackendNotFound string string string

definition is_attached :: "AttachmentStatus \<Rightarrow> bool" where
  "is_attached self =
     (case self of Attached \<Rightarrow> True | RefNotPermitted _ _ _ \<Rightarrow> True | BackendNotFound _ _ _ \<Rightarrow> True | _ \<Rightarrow> False)"

fun accepted_reason :: "AttachmentStatus \<Rightarrow> string" where
  "accepted_reason Attached = ''Accepted''"
| "accepted_reason (RefNotPermitted _ _ _) = ''Accepted''"
| "accepted_reason (BackendNotFound _ _ _) = ''Accepted''"
| "accepted_reason NoMatchingParent = ''NoMatchingParent''"
| "accepted_reason NotAllowedByListenerProtocol = ''NotAllowedByListenerProtocol''"
| "accepted_reason NotAllowedByListenerNamespacePolicy = ''NotAllowedByListenerNamespacePolicy''"
| "accepted_reason NotAllowedByListenerKindPolicy = ''NotAllowedByListenerKindPolicy''"
| "accepted_reason NoMatchingListenerHostname = ''NoMatchingListenerHostname''"

fun resolved_refs_reason :: "AttachmentStatus \<Rightarrow> string option" where
  "resolved_refs_reason (RefNotPermitted _ _ _) = Some ''RefNotPermitted''"
| "resolved_refs_reason (BackendNotFound _ _ _) = Some ''BackendNotFound''"
| "resolved_refs_reason _ = None"

section \<open>Results and plans\<close>

record RouteAttachmentResult =
  rar_route_namespace :: string
  rar_route_name :: string
  rar_route_kind :: RouteKind
  rar_listener_name :: "string option"
  rar_parent_ref_section_name :: "string option"
  rar_parent_ref_port :: "u16 option"
  rar_status :: AttachmentStatus
  rar_observed_generation :: int

record ListenerAttachmentSummary =
  las_listener_name :: string
  las_attached_routes :: u32
  las_supported_kinds :: "RouteGroupKind list"
  las_listener_accepted :: bool
  las_listener_rejection_reason :: "string option"

record AttachmentPlan =
  ap_gateway_namespace :: string
  ap_gateway_name :: string
  ap_gateway_generation :: int
  ap_route_results :: "RouteAttachmentResult list"
  ap_listener_summaries :: "ListenerAttachmentSummary list"

record AttachmentPlanInput =
  api_gateway_namespace :: string
  api_gateway_name :: string
  api_gateway_generation :: int
  api_snapshot :: PlannerSnapshot

definition listener_summary :: "AttachmentPlan \<Rightarrow> string \<Rightarrow> ListenerAttachmentSummary option" where
  "listener_summary self listener_name =
     find (\<lambda>s. las_listener_name s = listener_name) (ap_listener_summaries self)"

definition results_for_listener :: "AttachmentPlan \<Rightarrow> string \<Rightarrow> bool \<Rightarrow> RouteAttachmentResult list" where
  "results_for_listener self listener_name include_gateway_wide =
     filter (\<lambda>r. case rar_listener_name r of Some ln \<Rightarrow> ln = listener_name | None \<Rightarrow> include_gateway_wide)
       (ap_route_results self)"

definition result_for_route_parent_ref ::
  "AttachmentPlan \<Rightarrow> string \<Rightarrow> string \<Rightarrow> string \<Rightarrow> u16 option \<Rightarrow> RouteAttachmentResult option" where
  "result_for_route_parent_ref self route_namespace route_name section_name port =
     find (\<lambda>r. rar_route_namespace r = route_namespace \<and> rar_route_name r = route_name \<and>
               rar_parent_ref_section_name r = Some section_name \<and> rar_parent_ref_port r = port)
       (ap_route_results self)"

section \<open>Checks\<close>

definition parent_ref_targets_gateway :: "string \<Rightarrow> ParentReference \<Rightarrow> string \<Rightarrow> string \<Rightarrow> bool" where
  "parent_ref_targets_gateway route_namespace parent_ref gateway_namespace gateway_name =
     (let group_ok = pr_group parent_ref = [] \<or> pr_group parent_ref = GATEWAY_API_GROUP;
          kind_ok = pr_kind parent_ref = ''Gateway'';
          ns_ok = unwrap_or (pr_namespace parent_ref) route_namespace = gateway_namespace;
          name_ok = pr_name parent_ref = gateway_name in
      group_ok \<and> kind_ok \<and> ns_ok \<and> name_ok)"

fun listener_acceptance :: "ProtocolType \<Rightarrow> bool \<times> string option \<times> RouteGroupKind list" where
  "listener_acceptance HTTP = (True, None, [\<lparr>rgk_group = GATEWAY_API_GROUP, rgk_kind = ''HTTPRoute''\<rparr>])"
| "listener_acceptance HTTPS = (True, None, [\<lparr>rgk_group = GATEWAY_API_GROUP, rgk_kind = ''HTTPRoute''\<rparr>])"
| "listener_acceptance TCP = (True, None, [\<lparr>rgk_group = GATEWAY_API_GROUP, rgk_kind = ''TCPRoute''\<rparr>])"
| "listener_acceptance TLS = (True, None, [\<lparr>rgk_group = GATEWAY_API_GROUP, rgk_kind = ''TLSRoute''\<rparr>])"
| "listener_acceptance UDP =
     (False, Some ''UnsupportedProtocol: UDP listeners are not supported by this controller'', [])"

definition is_protocol_compatible_http :: "ProtocolType \<Rightarrow> bool" where
  "is_protocol_compatible_http protocol = (protocol = HTTP \<or> protocol = HTTPS)"

definition is_protocol_compatible_tcp :: "ProtocolType \<Rightarrow> bool" where
  "is_protocol_compatible_tcp protocol = (protocol = TCP)"

definition is_protocol_compatible_tls :: "ProtocolType \<Rightarrow> bool" where
  "is_protocol_compatible_tls protocol = (protocol = TLS)"

definition hostname_intersects :: "string \<Rightarrow> string \<Rightarrow> bool" where
  "hostname_intersects a b =
     (if a = b then True
      else
        let label_ok = (\<lambda>label. label \<noteq> [] \<and> CHR ''.'' \<notin> set label);
            first = (case strip_prefix ''*.'' a of
                       Some a_suffix \<Rightarrow>
                         if \<not> starts_with b ''*.'' then strip_suffix (''.'' @ a_suffix) b else None
                     | None \<Rightarrow> None) in
        case first of
          Some label \<Rightarrow> label_ok label
        | None \<Rightarrow>
            (case strip_prefix ''*.'' b of
               Some b_suffix \<Rightarrow>
                 if \<not> starts_with a ''*.'' then
                   (case strip_suffix (''.'' @ b_suffix) a of Some label \<Rightarrow> label_ok label | None \<Rightarrow> False)
                 else False
             | None \<Rightarrow> False))"

definition hostnames_compatible :: "string option \<Rightarrow> string list \<Rightarrow> bool" where
  "hostnames_compatible listener_hostname route_hostnames =
     (if listener_hostname = None \<or> listener_hostname = Some [] then True
      else if route_hostnames = [] then True
      else list_ex (\<lambda>rh. hostname_intersects (the listener_hostname) rh) route_hostnames)"

definition label_requirement_matches :: "LabelSelectorRequirement \<Rightarrow> labels \<Rightarrow> bool" where
  "label_requirement_matches req lbls =
     (if lsr_operator req = ''In'' then
        (case hm_get lbls (lsr_key req) of Some v \<Rightarrow> v \<in> set (lsr_values req) | None \<Rightarrow> False)
      else if lsr_operator req = ''NotIn'' then
        (case hm_get lbls (lsr_key req) of Some v \<Rightarrow> v \<notin> set (lsr_values req) | None \<Rightarrow> True)
      else if lsr_operator req = ''Exists'' then hm_contains lbls (lsr_key req)
      else if lsr_operator req = ''DoesNotExist'' then \<not> hm_contains lbls (lsr_key req)
      else False)"

definition label_selector_matches :: "LabelSelector \<Rightarrow> labels \<Rightarrow> bool" where
  "label_selector_matches selector lbls =
     (if (case ls_match_labels selector of
            Some required \<Rightarrow>
              required \<noteq> [] \<and> \<not> list_all (\<lambda>(k, v). hm_get lbls k = Some v) required
          | None \<Rightarrow> False) then False
      else list_all (\<lambda>req. label_requirement_matches req lbls) (ls_match_expressions selector))"

definition namespace_allowed ::
  "AllowedRoutes option \<Rightarrow> string \<Rightarrow> string \<Rightarrow> (string, labels) hashmap \<Rightarrow> bool" where
  "namespace_allowed allowed_routes gateway_namespace route_namespace namespace_labels =
     (let ns_config = Option.bind allowed_routes ar_namespaces;
          frm = (case ns_config of Some ns \<Rightarrow> rn_from ns | None \<Rightarrow> Same) in
      case frm of
        All \<Rightarrow> True
      | Same \<Rightarrow> route_namespace = gateway_namespace
      | Selector \<Rightarrow>
          (case Option.bind ns_config rn_selector of
             None \<Rightarrow> False
           | Some sel \<Rightarrow>
               let lbls = unwrap_or (hm_get namespace_labels route_namespace) [];
                   lbls = bt_insert ''kubernetes.io/metadata.name'' route_namespace lbls in
               label_selector_matches sel lbls))"

definition kind_allowed :: "AllowedRoutes option \<Rightarrow> RouteKind \<Rightarrow> bool" where
  "kind_allowed allowed_routes route_kind =
     (let kinds = (case allowed_routes of Some ar \<Rightarrow> ar_kinds ar | None \<Rightarrow> []) in
      if kinds = [] then True
      else list_ex (\<lambda>k. (rgk_group k = [] \<or> rgk_group k = GATEWAY_API_GROUP) \<and>
                        rgk_kind k = RouteKind_as_str route_kind) kinds)"

fun first_unresolved_backend_ref_for_kind ::
  "string \<Rightarrow> string \<Rightarrow> BackendRef list \<Rightarrow> PlannerSnapshot \<Rightarrow> AttachmentStatus option" where
  "first_unresolved_backend_ref_for_kind route_namespace route_kind_str [] snapshot = None"
| "first_unresolved_backend_ref_for_kind route_namespace route_kind_str (br # backend_refs) snapshot =
     (let kind_is_service = br_kind br = [] \<or> br_kind br = ''Service'';
          group_is_core = br_group br = [] in
      if \<not> kind_is_service \<or> \<not> group_is_core then
        first_unresolved_backend_ref_for_kind route_namespace route_kind_str backend_refs snapshot
      else
        let target_ns = (case br_namespace br of Some ns \<Rightarrow> ns | None \<Rightarrow> route_namespace);
            target_key = state_key target_ns (br_name br) in
        if target_ns = route_namespace \<and> target_key \<notin> ps_service_presence snapshot then
          Some (BackendNotFound route_namespace target_ns (br_name br))
        else if target_ns = route_namespace then
          first_unresolved_backend_ref_for_kind route_namespace route_kind_str backend_refs snapshot
        else
          let grants = reference_grants_in_namespace snapshot target_ns;
              permitted = list_ex (\<lambda>g. allows_service_reference g GATEWAY_API_GROUP route_kind_str
                                         route_namespace (Some (br_name br))) grants in
          if \<not> permitted then Some (RefNotPermitted route_namespace target_ns (br_name br))
          else first_unresolved_backend_ref_for_kind route_namespace route_kind_str backend_refs snapshot)"

section \<open>Evaluating one parent reference\<close>

record RouteEvalContext =
  rec_gateway :: Gateway
  rec_route_namespace :: string
  rec_route_name :: string
  rec_route_kind :: RouteKind
  rec_route_hostnames :: "string list"
  rec_section_name :: "string option"
  rec_parent_ref_port :: "u16 option"
  rec_snapshot :: PlannerSnapshot
  rec_backend_refs :: "BackendRef list"
  rec_observed_generation :: int
  rec_protocol_compat :: "ProtocolType \<Rightarrow> bool"
  rec_check_hostname_compat :: bool

definition route_result ::
  "RouteEvalContext \<Rightarrow> string option \<Rightarrow> string option \<Rightarrow> AttachmentStatus \<Rightarrow> RouteAttachmentResult" where
  "route_result ctx listener_name section_name status =
     \<lparr>rar_route_namespace = rec_route_namespace ctx, rar_route_name = rec_route_name ctx,
      rar_route_kind = rec_route_kind ctx, rar_listener_name = listener_name,
      rar_parent_ref_section_name = section_name, rar_parent_ref_port = rec_parent_ref_port ctx,
      rar_status = status, rar_observed_generation = rec_observed_generation ctx\<rparr>"

text \<open>The body of the loop over the listeners: it pushes exactly one result.\<close>

definition listener_status :: "RouteEvalContext \<Rightarrow> Listener \<Rightarrow> AttachmentStatus" where
  "listener_status ctx listener =
     (let gateway_namespace = namespace_or_default (gw_metadata (rec_gateway ctx)) in
      if \<not> rec_protocol_compat ctx (ln_protocol listener) then NotAllowedByListenerProtocol
      else if \<not> namespace_allowed (ln_allowed_routes listener) gateway_namespace
                   (rec_route_namespace ctx) (ps_namespace_labels (rec_snapshot ctx)) then
        NotAllowedByListenerNamespacePolicy
      else if \<not> kind_allowed (ln_allowed_routes listener) (rec_route_kind ctx) then
        NotAllowedByListenerKindPolicy
      else if rec_check_hostname_compat ctx \<and>
              \<not> hostnames_compatible (ln_hostname listener) (rec_route_hostnames ctx) then
        NoMatchingListenerHostname
      else
        case first_unresolved_backend_ref_for_kind (rec_route_namespace ctx)
               (RouteKind_as_str (rec_route_kind ctx)) (rec_backend_refs ctx) (rec_snapshot ctx) of
          Some status \<Rightarrow> status
        | None \<Rightarrow> Attached)"

definition evaluate_route_attachment_inner :: "RouteEvalContext \<Rightarrow> RouteAttachmentResult list" where
  "evaluate_route_attachment_inner ctx =
     (let listeners = gw_listeners (rec_gateway ctx);
          parent_ref_port = rec_parent_ref_port ctx;
          listeners_to_check =
            (case rec_section_name ctx of
               Some sn \<Rightarrow>
                 (case find (\<lambda>l. ln_name l = sn) listeners of
                    Some l \<Rightarrow>
                      (case parent_ref_port of
                         Some ref_port \<Rightarrow>
                           if ln_port l \<noteq> ref_port then Err (Some sn) else Ok [l]
                       | None \<Rightarrow> Ok [l])
                  | None \<Rightarrow> Err (Some sn))
             | None \<Rightarrow>
                 Ok (filter (\<lambda>l. case parent_ref_port of None \<Rightarrow> True | Some p \<Rightarrow> ln_port l = p) listeners)) in
      case listeners_to_check of
        Inl sn \<Rightarrow> [route_result ctx sn sn NoMatchingParent]
      | Inr ls \<Rightarrow>
          if ls = [] then [route_result ctx None None NoMatchingParent]
          else map (\<lambda>l. route_result ctx (Some (ln_name l)) (rec_section_name ctx) (listener_status ctx l)) ls)"

type_synonym parent_ref_key = "string option \<times> u16 option"

definition evaluate_http_route_attachment ::
  "Gateway \<Rightarrow> string \<Rightarrow> string \<Rightarrow> parent_ref_key \<Rightarrow> PlannerSnapshot \<Rightarrow> HTTPRoute \<Rightarrow> int \<Rightarrow>
   RouteAttachmentResult list" where
  "evaluate_http_route_attachment gateway route_namespace route_name parent_ref snapshot route observed_generation =
     (let all_backend_refs =
        concat (map (\<lambda>r. map hbr_backend_ref (hrr_backend_refs r)) (hrs_rules (hr_spec route))) in
      evaluate_route_attachment_inner
        \<lparr>rec_gateway = gateway, rec_route_namespace = route_namespace, rec_route_name = route_name,
         rec_route_kind = KindHTTPRoute, rec_route_hostnames = hrs_hostnames (hr_spec route),
         rec_section_name = fst parent_ref, rec_parent_ref_port = snd parent_ref,
         rec_snapshot = snapshot, rec_backend_refs = all_backend_refs,
         rec_observed_generation = observed_generation,
         rec_protocol_compat = is_protocol_compatible_http, rec_check_hostname_compat = True\<rparr>)"

definition evaluate_tcp_route_attachment ::
  "Gateway \<Rightarrow> string \<Rightarrow> string \<Rightarrow> parent_ref_key \<Rightarrow> PlannerSnapshot \<Rightarrow> TCPRoute \<Rightarrow> int \<Rightarrow>
   RouteAttachmentResult list" where
  "evaluate_tcp_route_attachment gateway route_namespace route_name parent_ref snapshot route observed_generation =
     (let all_backend_refs = concat (map trr_backend_refs (trs_rules (tr_spec route))) in
      evaluate_route_attachment_inner
        \<lparr>rec_gateway = gateway, rec_route_namespace = route_namespace, rec_route_name = route_name,
         rec_route_kind = KindTCPRoute, rec_route_hostnames = [],
         rec_section_name = fst parent_ref, rec_parent_ref_port = snd parent_ref,
         rec_snapshot = snapshot, rec_backend_refs = all_backend_refs,
         rec_observed_generation = observed_generation,
         rec_protocol_compat = is_protocol_compatible_tcp, rec_check_hostname_compat = False\<rparr>)"

definition evaluate_tls_route_attachment ::
  "Gateway \<Rightarrow> string \<Rightarrow> string \<Rightarrow> parent_ref_key \<Rightarrow> PlannerSnapshot \<Rightarrow> TLSRoute \<Rightarrow> int \<Rightarrow>
   RouteAttachmentResult list" where
  "evaluate_tls_route_attachment gateway route_namespace route_name parent_ref snapshot route observed_generation =
     (let all_backend_refs = concat (map lrr_backend_refs (lrs_rules (lr_spec route))) in
      evaluate_route_attachment_inner
        \<lparr>rec_gateway = gateway, rec_route_namespace = route_namespace, rec_route_name = route_name,
         rec_route_kind = KindTLSRoute, rec_route_hostnames = lrs_hostnames (lr_spec route),
         rec_section_name = fst parent_ref, rec_parent_ref_port = snd parent_ref,
         rec_snapshot = snapshot, rec_backend_refs = all_backend_refs,
         rec_observed_generation = observed_generation,
         rec_protocol_compat = is_protocol_compatible_tls, rec_check_hostname_compat = True\<rparr>)"

section \<open>The plan\<close>

type_synonym attached_map = "(string, string set) hashmap"

text \<open>\<^verbatim>\<open>if let Some(set) = listener_attached.get_mut(name) { set.insert(key) }\<close>\<close>

definition attach_to :: "string \<Rightarrow> string \<Rightarrow> attached_map \<Rightarrow> attached_map" where
  "attach_to listener_name route_key m =
     (case hm_get m listener_name of
        Some s \<Rightarrow> hm_insert listener_name (insert route_key s) m
      | None \<Rightarrow> m)"

definition count_result ::
  "(ProtocolType \<Rightarrow> bool) \<Rightarrow> Listener list \<Rightarrow> string \<Rightarrow> RouteAttachmentResult \<Rightarrow> attached_map \<Rightarrow> attached_map" where
  "count_result protocol_compat listeners route_key r m =
     (if is_attached (rar_status r) then
        (case rar_listener_name r of
           Some ln \<Rightarrow> attach_to ln route_key m
         | None \<Rightarrow>
             fold (\<lambda>l m. if protocol_compat (ln_protocol l) then attach_to (ln_name l) route_key m else m)
               listeners m)
      else m)"

definition plan_http_route ::
  "AttachmentPlanInput \<Rightarrow> Gateway \<Rightarrow> HTTPRoute \<Rightarrow> RouteAttachmentResult list \<times> attached_map \<Rightarrow>
   RouteAttachmentResult list \<times> attached_map" where
  "plan_http_route input gateway route acc =
     (let route_ns = namespace_or_default (hr_metadata route);
          route_name = name_or_empty (hr_metadata route);
          route_key = route_ns @ ''/'' @ route_name in
      fold (\<lambda>parent_ref (route_results, listener_attached).
        if \<not> parent_ref_targets_gateway route_ns parent_ref (api_gateway_namespace input) (api_gateway_name input)
        then (route_results, listener_attached)
        else
          let results = evaluate_http_route_attachment gateway route_ns route_name
                (pr_section_name parent_ref, pr_port parent_ref) (api_snapshot input) route
                (api_gateway_generation input) in
          (route_results @ results,
           fold (count_result is_protocol_compatible_http (gw_listeners gateway) route_key) results listener_attached))
        (hrs_parent_refs (hr_spec route)) acc)"

definition plan_tcp_route ::
  "AttachmentPlanInput \<Rightarrow> Gateway \<Rightarrow> TCPRoute \<Rightarrow> RouteAttachmentResult list \<times> attached_map \<Rightarrow>
   RouteAttachmentResult list \<times> attached_map" where
  "plan_tcp_route input gateway route acc =
     (let route_ns = namespace_or_default (tr_metadata route);
          route_name = name_or_empty (tr_metadata route);
          route_key = route_ns @ ''/'' @ route_name in
      fold (\<lambda>parent_ref (route_results, listener_attached).
        if \<not> parent_ref_targets_gateway route_ns parent_ref (api_gateway_namespace input) (api_gateway_name input)
        then (route_results, listener_attached)
        else
          let results = evaluate_tcp_route_attachment gateway route_ns route_name
                (pr_section_name parent_ref, pr_port parent_ref) (api_snapshot input) route
                (api_gateway_generation input) in
          (route_results @ results,
           fold (count_result is_protocol_compatible_tcp (gw_listeners gateway) route_key) results listener_attached))
        (trs_parent_refs (tr_spec route)) acc)"

definition plan_tls_route ::
  "AttachmentPlanInput \<Rightarrow> Gateway \<Rightarrow> TLSRoute \<Rightarrow> RouteAttachmentResult list \<times> attached_map \<Rightarrow>
   RouteAttachmentResult list \<times> attached_map" where
  "plan_tls_route input gateway route acc =
     (let route_ns = namespace_or_default (lr_metadata route);
          route_name = name_or_empty (lr_metadata route);
          route_key = route_ns @ ''/'' @ route_name in
      fold (\<lambda>parent_ref (route_results, listener_attached).
        if \<not> parent_ref_targets_gateway route_ns parent_ref (api_gateway_namespace input) (api_gateway_name input)
        then (route_results, listener_attached)
        else
          let results = evaluate_tls_route_attachment gateway route_ns route_name
                (pr_section_name parent_ref, pr_port parent_ref) (api_snapshot input) route
                (api_gateway_generation input) in
          (route_results @ results,
           fold (count_result is_protocol_compatible_tls (gw_listeners gateway) route_key) results listener_attached))
        (lrs_parent_refs (lr_spec route)) acc)"

definition result_sort_key ::
  "RouteAttachmentResult \<Rightarrow> string \<times> string \<times> RouteKind \<times> string option \<times> u16 option" where
  "result_sort_key r =
     (rar_route_namespace r, rar_route_name r, rar_route_kind r, rar_listener_name r, rar_parent_ref_port r)"

definition listener_attachment_summary :: "attached_map \<Rightarrow> Listener \<Rightarrow> ListenerAttachmentSummary" where
  "listener_attachment_summary listener_attached l =
     (case listener_acceptance (ln_protocol l) of
        (accepted, rejection_reason, supported_kinds) \<Rightarrow>
          \<lparr>las_listener_name = ln_name l,
           las_attached_routes =
             (case hm_get listener_attached (ln_name l) of Some s \<Rightarrow> of_nat (card s) | None \<Rightarrow> 0),
           las_supported_kinds = supported_kinds, las_listener_accepted = accepted,
           las_listener_rejection_reason = rejection_reason\<rparr>)"

definition plan_routes :: "AttachmentPlanInput \<Rightarrow> Gateway \<Rightarrow> RouteAttachmentResult list \<times> attached_map" where
  "plan_routes input gateway =
     (let snapshot = api_snapshot input;
          gns = api_gateway_namespace input; gname = api_gateway_name input;
          listener_attached = fold (\<lambda>l m. hm_insert (ln_name l) {} m) (gw_listeners gateway) [];
          acc = ([], listener_attached);
          acc = fold (plan_http_route input gateway) (http_routes_for_gateway snapshot gns gname) acc;
          acc = fold (plan_tcp_route input gateway) (tcp_routes_for_gateway snapshot gns gname) acc in
      fold (plan_tls_route input gateway) (tls_routes_for_gateway snapshot gns gname) acc)"

definition AttachmentPlanner_plan :: "AttachmentPlanInput \<Rightarrow> PlanError + AttachmentPlan" where
  "AttachmentPlanner_plan input =
     (case snapshot_gateway (api_snapshot input) (api_gateway_namespace input) (api_gateway_name input) of
        None \<Rightarrow> Err (MissingField ''gateway (not found in snapshot)'')
      | Some gateway \<Rightarrow>
          let (route_results, listener_attached) = plan_routes input gateway;
              route_results = sort_by (\<lambda>a b. cmp (result_sort_key a) (result_sort_key b)) route_results;
              listener_summaries = map (listener_attachment_summary listener_attached) (gw_listeners gateway);
              listener_summaries =
                sort_by (\<lambda>a b. cmp (las_listener_name a) (las_listener_name b)) listener_summaries in
          Ok \<lparr>ap_gateway_namespace = api_gateway_namespace input,
              ap_gateway_name = api_gateway_name input,
              ap_gateway_generation = api_gateway_generation input,
              ap_route_results = route_results, ap_listener_summaries = listener_summaries\<rparr>)"

section \<open>Host names\<close>

text \<open>The names a host name pattern of a listener or a route stands for.\<close>

definition host_pattern_matches :: "string \<Rightarrow> string \<Rightarrow> bool" where
  "host_pattern_matches p h =
     (case strip_prefix ''*.'' p of
        Some sfx \<Rightarrow> (\<exists>label. h = label @ ''.'' @ sfx \<and> label \<noteq> [] \<and> CHR ''.'' \<notin> set label)
      | None \<Rightarrow> h = p)"

lemma host_pattern_wild [simp]:
  "host_pattern_matches (CHR ''*'' # CHR ''.'' # sfx) h \<longleftrightarrow>
     (\<exists>label. h = label @ ''.'' @ sfx \<and> label \<noteq> [] \<and> CHR ''.'' \<notin> set label)"
  by (simp add: host_pattern_matches_def)

lemma host_pattern_exact: "\<not> starts_with p ''*.'' \<Longrightarrow> host_pattern_matches p h \<longleftrightarrow> h = p"
  by (simp add: host_pattern_matches_def starts_with_def)

lemma label_split_unique:
  assumes "l @ CHR ''.'' # s = l' @ CHR ''.'' # s'" "CHR ''.'' \<notin> set l" "CHR ''.'' \<notin> set l'"
  shows "l = l' \<and> s = s'"
proof -
  have "split_once CHR ''.'' (l @ CHR ''.'' # s) = split_once CHR ''.'' (l' @ CHR ''.'' # s')"
    using assms(1) by simp
  from this [unfolded split_once_append [OF assms(2)] split_once_append [OF assms(3)]] show ?thesis by simp
qed

lemma pattern_cases:
  obtains sfx where "p = ''*.'' @ sfx" | "\<not> starts_with p ''*.''"
  by (auto simp: starts_with_iff)

lemma strip_suffix_label:
  "(case strip_suffix sfx h of Some l \<Rightarrow> l \<noteq> [] \<and> CHR ''.'' \<notin> set l | None \<Rightarrow> False) \<longleftrightarrow>
     (\<exists>l. h = l @ sfx \<and> l \<noteq> [] \<and> CHR ''.'' \<notin> set l)"
  by (auto simp: strip_suffix_Some strip_suffix_None split: option.split)

lemma intersects_wild_exact:
  assumes "\<not> starts_with b ''*.''"
  shows "hostname_intersects (''*.'' @ sfx) b \<longleftrightarrow> host_pattern_matches (''*.'' @ sfx) b"
    and "hostname_intersects b (''*.'' @ sfx) \<longleftrightarrow> host_pattern_matches (''*.'' @ sfx) b"
proof -
  have ne: "b \<noteq> ''*.'' @ sfx" and none: "strip_prefix ''*.'' b = None"
    using assms by (auto simp: starts_with_def)
  show "hostname_intersects (''*.'' @ sfx) b \<longleftrightarrow> host_pattern_matches (''*.'' @ sfx) b"
    using ne none assms strip_suffix_label [of "CHR ''.'' # sfx" b]
    by (auto simp: hostname_intersects_def Let_def split: option.splits)
  show "hostname_intersects b (''*.'' @ sfx) \<longleftrightarrow> host_pattern_matches (''*.'' @ sfx) b"
    using ne none assms strip_suffix_label [of "CHR ''.'' # sfx" b]
    by (auto simp: hostname_intersects_def Let_def split: option.splits)
qed

lemma hostname_intersects_names:
  "hostname_intersects a b \<longleftrightarrow>
     (\<exists>h. \<not> starts_with h ''*.'' \<and> host_pattern_matches a h \<and> host_pattern_matches b h)"
proof (cases a rule: pattern_cases)
  case (1 sa)
  show ?thesis
  proof (cases b rule: pattern_cases)
    case (1 sb)
    have same: "host_pattern_matches a h \<Longrightarrow> host_pattern_matches b h \<Longrightarrow> sa = sb" for h
      using \<open>a = ''*.'' @ sa\<close> \<open>b = ''*.'' @ sb\<close> by (auto dest: label_split_unique)
    have "\<exists>h. \<not> starts_with h ''*.'' \<and> host_pattern_matches a h"
      using \<open>a = ''*.'' @ sa\<close> by (intro exI [of _ "''a.'' @ sa"]) (auto simp: starts_with_def intro: exI [of _ "''a''"])
    moreover have "hostname_intersects a b \<longleftrightarrow> sa = sb"
      using \<open>a = ''*.'' @ sa\<close> \<open>b = ''*.'' @ sb\<close> by (simp add: hostname_intersects_def starts_with_def)
    ultimately show ?thesis using same \<open>a = ''*.'' @ sa\<close> \<open>b = ''*.'' @ sb\<close> by blast
  next
    case 2
    then show ?thesis unfolding 1 intersects_wild_exact(1) [OF 2] host_pattern_exact [OF 2] by blast
  qed
next
  case 2
  note a = this
  show ?thesis
  proof (cases b rule: pattern_cases)
    case (1 sb)
    with a show ?thesis unfolding 1 intersects_wild_exact(2) [OF a] host_pattern_exact [OF a] by blast
  next
    case 2
    with a show ?thesis
      by (auto simp: hostname_intersects_def host_pattern_exact starts_with_def split: option.splits)
  qed
qed

lemma router_pattern_matches:
  "Pattern_matches (Pattern_parse p) h \<longleftrightarrow> host_pattern_matches (to_lowercase p) h"
  using strip_suffix_label
  by (auto simp: Pattern_parse_def host_pattern_matches_def Let_def split: option.split)


section \<open>One view of the three route kinds\<close>

record route_view =
  rv_kind :: RouteKind
  rv_namespace :: string
  rv_name :: string
  rv_hostnames :: "string list"
  rv_parent_refs :: "ParentReference list"
  rv_backend_refs :: "BackendRef list"

definition http_view :: "HTTPRoute \<Rightarrow> route_view" where
  "http_view r =
     \<lparr>rv_kind = KindHTTPRoute, rv_namespace = namespace_or_default (hr_metadata r),
      rv_name = name_or_empty (hr_metadata r), rv_hostnames = hrs_hostnames (hr_spec r),
      rv_parent_refs = hrs_parent_refs (hr_spec r), rv_backend_refs = HTTPRoute_backend_refs r\<rparr>"

definition tcp_view :: "TCPRoute \<Rightarrow> route_view" where
  "tcp_view r =
     \<lparr>rv_kind = KindTCPRoute, rv_namespace = namespace_or_default (tr_metadata r),
      rv_name = name_or_empty (tr_metadata r), rv_hostnames = [],
      rv_parent_refs = trs_parent_refs (tr_spec r), rv_backend_refs = TCPRoute_backend_refs r\<rparr>"

definition tls_view :: "TLSRoute \<Rightarrow> route_view" where
  "tls_view r =
     \<lparr>rv_kind = KindTLSRoute, rv_namespace = namespace_or_default (lr_metadata r),
      rv_name = name_or_empty (lr_metadata r), rv_hostnames = lrs_hostnames (lr_spec r),
      rv_parent_refs = lrs_parent_refs (lr_spec r), rv_backend_refs = TLSRoute_backend_refs r\<rparr>"

fun kind_compat :: "RouteKind \<Rightarrow> ProtocolType \<Rightarrow> bool" where
  "kind_compat KindHTTPRoute = is_protocol_compatible_http"
| "kind_compat KindTCPRoute = is_protocol_compatible_tcp"
| "kind_compat KindTLSRoute = is_protocol_compatible_tls"

definition view_context :: "AttachmentPlanInput \<Rightarrow> Gateway \<Rightarrow> route_view \<Rightarrow> ParentReference \<Rightarrow> RouteEvalContext" where
  "view_context input gateway v pr =
     \<lparr>rec_gateway = gateway, rec_route_namespace = rv_namespace v, rec_route_name = rv_name v,
      rec_route_kind = rv_kind v, rec_route_hostnames = rv_hostnames v,
      rec_section_name = pr_section_name pr, rec_parent_ref_port = pr_port pr,
      rec_snapshot = api_snapshot input, rec_backend_refs = rv_backend_refs v,
      rec_observed_generation = api_gateway_generation input,
      rec_protocol_compat = kind_compat (rv_kind v),
      rec_check_hostname_compat = (rv_kind v \<noteq> KindTCPRoute)\<rparr>"

definition plan_view ::
  "AttachmentPlanInput \<Rightarrow> Gateway \<Rightarrow> route_view \<Rightarrow> RouteAttachmentResult list \<times> attached_map \<Rightarrow>
   RouteAttachmentResult list \<times> attached_map" where
  "plan_view input gateway v acc =
     fold (\<lambda>pr (route_results, listener_attached).
       if \<not> parent_ref_targets_gateway (rv_namespace v) pr (api_gateway_namespace input) (api_gateway_name input)
       then (route_results, listener_attached)
       else
         let results = evaluate_route_attachment_inner (view_context input gateway v pr) in
         (route_results @ results,
          fold (count_result (kind_compat (rv_kind v)) (gw_listeners gateway)
            (state_key (rv_namespace v) (rv_name v))) results listener_attached))
       (rv_parent_refs v) acc"

lemma plan_route_views:
  "plan_http_route input gateway = (\<lambda>r. plan_view input gateway (http_view r))"
  "plan_tcp_route input gateway = (\<lambda>r. plan_view input gateway (tcp_view r))"
  "plan_tls_route input gateway = (\<lambda>r. plan_view input gateway (tls_view r))"
  unfolding fun_eq_iff plan_http_route_def plan_tcp_route_def plan_tls_route_def plan_view_def
    http_view_def tcp_view_def tls_view_def view_context_def evaluate_http_route_attachment_def
    evaluate_tcp_route_attachment_def evaluate_tls_route_attachment_def HTTPRoute_backend_refs_def
    TCPRoute_backend_refs_def TLSRoute_backend_refs_def state_key_def Let_def
  by (simp_all add: split_def cong: if_cong)

text \<open>The routes the planner visits, in its order, and all routes of a snapshot.\<close>

definition gateway_views :: "PlannerSnapshot \<Rightarrow> string \<Rightarrow> string \<Rightarrow> route_view list" where
  "gateway_views snap gns gname =
     map http_view (http_routes_for_gateway snap gns gname) @
     map tcp_view (tcp_routes_for_gateway snap gns gname) @
     map tls_view (tls_routes_for_gateway snap gns gname)"

definition snapshot_views :: "PlannerSnapshot \<Rightarrow> route_view set" where
  "snapshot_views snap =
     http_view ` set (hm_values (ps_http_routes snap)) \<union> tcp_view ` set (hm_values (ps_tcp_routes snap)) \<union>
     tls_view ` set (hm_values (ps_tls_routes snap))"

definition targeting_refs :: "string \<Rightarrow> string \<Rightarrow> route_view \<Rightarrow> ParentReference list" where
  "targeting_refs gns gname v = filter (\<lambda>pr. parent_ref_targets_gateway (rv_namespace v) pr gns gname) (rv_parent_refs v)"

lemma set_gateway_views:
  "set (gateway_views snap gns gname) = {v \<in> snapshot_views snap. targeting_refs gns gname v \<noteq> []}"
proof -
  have "route_references_gateway ns prs gns gname \<longleftrightarrow>
      filter (\<lambda>pr. parent_ref_targets_gateway ns pr gns gname) prs \<noteq> []" for ns prs
    by (auto simp: route_references_gateway_def parent_ref_targets_gateway_def list_ex_iff filter_empty_conv
        GATEWAY_API_GROUP_def Let_def)
  then show ?thesis
    by (auto simp: gateway_views_def snapshot_views_def http_routes_for_gateway_def tcp_routes_for_gateway_def
        tls_routes_for_gateway_def targeting_refs_def http_view_def tcp_view_def tls_view_def)
qed

lemma plan_routes_views:
  "plan_routes input gateway =
     fold (plan_view input gateway) (gateway_views (api_snapshot input) (api_gateway_namespace input) (api_gateway_name input))
       ([], fold (\<lambda>l m. hm_insert (ln_name l) {} m) (gw_listeners gateway) [])"
  by (simp add: plan_routes_def plan_route_views gateway_views_def fold_map comp_def Let_def)

text \<open>The results a route adds.\<close>

definition view_results :: "AttachmentPlanInput \<Rightarrow> Gateway \<Rightarrow> route_view \<Rightarrow> RouteAttachmentResult list" where
  "view_results input gateway v =
     concat (map (\<lambda>pr. evaluate_route_attachment_inner (view_context input gateway v pr))
       (targeting_refs (api_gateway_namespace input) (api_gateway_name input) v))"

lemma plan_view_step:
  "plan_view input gateway v (res, m) =
     (res @ view_results input gateway v,
      fold (count_result (kind_compat (rv_kind v)) (gw_listeners gateway) (state_key (rv_namespace v) (rv_name v)))
        (view_results input gateway v) m)"
proof -
  have "fold (\<lambda>pr (res, m). if \<not> P pr then (res, m) else let results = f pr in (res @ results, fold c results m)) prs (res, m) =
      (res @ concat (map f (filter P prs)), fold c (concat (map f (filter P prs))) m)"
    for P :: "ParentReference \<Rightarrow> bool" and f :: "ParentReference \<Rightarrow> RouteAttachmentResult list"
      and c :: "RouteAttachmentResult \<Rightarrow> attached_map \<Rightarrow> attached_map" and prs res m
    by (induction prs arbitrary: res m) (auto simp: Let_def)
  then show ?thesis by (simp add: plan_view_def view_results_def targeting_refs_def)
qed

lemma fst_plan_views:
  "fst (fold (plan_view input gateway) vs (res, m)) = res @ concat (map (view_results input gateway) vs)"
  by (induction vs arbitrary: res m) (simp_all add: plan_view_step)

section \<open>Counts\<close>

text \<open>The keys of the routes that attach to a listener, according to a list of results.\<close>

definition attached_keys :: "RouteAttachmentResult list \<Rightarrow> string \<Rightarrow> string set" where
  "attached_keys res ln =
     {state_key (rar_route_namespace r) (rar_route_name r) | r.
        r \<in> set res \<and> is_attached (rar_status r) \<and> rar_listener_name r = Some ln}"

definition map_tracks :: "string set \<Rightarrow> RouteAttachmentResult list \<Rightarrow> attached_map \<Rightarrow> bool" where
  "map_tracks names res m = (\<forall>ln. hm_get m ln = (if ln \<in> names then Some (attached_keys res ln) else None))"

lemma is_attached_simps [simp]:
  "is_attached Attached" "is_attached (RefNotPermitted a b c)" "is_attached (BackendNotFound a b c)"
  "\<not> is_attached NoMatchingParent" "\<not> is_attached NotAllowedByListenerProtocol"
  "\<not> is_attached NotAllowedByListenerNamespacePolicy" "\<not> is_attached NotAllowedByListenerKindPolicy"
  "\<not> is_attached NoMatchingListenerHostname"
  by (simp_all add: is_attached_def)

text \<open>The listeners a parent reference selects.\<close>

definition selected_listeners :: "RouteEvalContext \<Rightarrow> Listener list" where
  "selected_listeners ctx =
     filter (\<lambda>l. rec_parent_ref_port ctx = None \<or> rec_parent_ref_port ctx = Some (ln_port l))
       (case rec_section_name ctx of
          Some sn \<Rightarrow> (case find (\<lambda>l. ln_name l = sn) (gw_listeners (rec_gateway ctx)) of Some l \<Rightarrow> [l] | None \<Rightarrow> [])
        | None \<Rightarrow> gw_listeners (rec_gateway ctx))"

lemma evaluate_inner_results:
  "evaluate_route_attachment_inner ctx =
     (if selected_listeners ctx = [] then
        [route_result ctx (rec_section_name ctx) (rec_section_name ctx) NoMatchingParent]
      else map (\<lambda>l. route_result ctx (Some (ln_name l)) (rec_section_name ctx) (listener_status ctx l))
             (selected_listeners ctx))"
proof -
  have port: "filter (\<lambda>l. case p of None \<Rightarrow> True | Some q \<Rightarrow> ln_port l = q) ls =
      filter (\<lambda>l. p = None \<or> p = Some (ln_port l)) ls" for p and ls :: "Listener list"
    by (rule filter_cong) (auto split: option.split)
  show ?thesis
    by (cases "rec_section_name ctx"; cases "rec_parent_ref_port ctx")
       (auto simp: evaluate_route_attachment_inner_def selected_listeners_def Let_def port filter_empty_conv
         split: option.splits)
qed

lemma route_result_simps [simp]:
  "rar_route_namespace (route_result ctx ln sn st) = rec_route_namespace ctx"
  "rar_route_name (route_result ctx ln sn st) = rec_route_name ctx"
  "rar_route_kind (route_result ctx ln sn st) = rec_route_kind ctx"
  "rar_listener_name (route_result ctx ln sn st) = ln"
  "rar_parent_ref_section_name (route_result ctx ln sn st) = sn"
  "rar_parent_ref_port (route_result ctx ln sn st) = rec_parent_ref_port ctx"
  "rar_status (route_result ctx ln sn st) = st"
  by (simp_all add: route_result_def)

lemma evaluate_inner_route:
  assumes "r \<in> set (evaluate_route_attachment_inner ctx)"
  shows "rar_route_namespace r = rec_route_namespace ctx" "rar_route_name r = rec_route_name ctx"
    "rar_route_kind r = rec_route_kind ctx"
    "is_attached (rar_status r) \<Longrightarrow> \<exists>ln. rar_listener_name r = Some ln"
  using assms by (auto simp: evaluate_inner_results split: if_splits)

lemma attached_keys_append: "attached_keys (res @ res') ln = attached_keys res ln \<union> attached_keys res' ln"
  by (auto simp: attached_keys_def)

lemma count_result_tracks:
  assumes "map_tracks names res m" "key = state_key (rar_route_namespace r) (rar_route_name r)"
    and "is_attached (rar_status r) \<Longrightarrow> \<exists>ln. rar_listener_name r = Some ln"
  shows "map_tracks names (res @ [r]) (count_result c ls key r m)"
proof (cases "is_attached (rar_status r)")
  case False
  then show ?thesis using assms(1) by (simp add: count_result_def map_tracks_def attached_keys_append) (simp add: attached_keys_def)
next
  case True
  then obtain ln where ln: "rar_listener_name r = Some ln" using assms(3) by blast
  have keys: "attached_keys [r] ln' = (if ln' = ln then {key} else {})" for ln'
    using True ln assms(2) by (auto simp: attached_keys_def)
  show ?thesis
    using assms(1) True ln
    by (auto simp: count_result_def map_tracks_def attached_keys_append keys attach_to_def hm_simps
        split: option.splits)
qed

lemma fold_count_tracks:
  assumes "map_tracks names res m"
    and "\<And>r. r \<in> set rs \<Longrightarrow> key = state_key (rar_route_namespace r) (rar_route_name r) \<and>
           (is_attached (rar_status r) \<longrightarrow> (\<exists>ln. rar_listener_name r = Some ln))"
  shows "map_tracks names (res @ rs) (fold (count_result c ls key) rs m)"
  using assms
proof (induction rs arbitrary: res m)
  case (Cons r rs)
  have "map_tracks names (res @ [r]) (count_result c ls key r m)"
    using Cons.prems by (intro count_result_tracks) auto
  from Cons.IH [OF this] Cons.prems(2) show ?case by simp
qed simp

lemma view_results_route:
  assumes "r \<in> set (view_results input gateway v)"
  shows "rar_route_namespace r = rv_namespace v \<and> rar_route_name r = rv_name v \<and> rar_route_kind r = rv_kind v \<and>
    (is_attached (rar_status r) \<longrightarrow> (\<exists>ln. rar_listener_name r = Some ln))"
  using assms evaluate_inner_route by (fastforce simp: view_results_def view_context_def)

lemma plan_views_tracks:
  assumes "map_tracks names res m"
  shows "map_tracks names (fst (fold (plan_view input gateway) vs (res, m))) (snd (fold (plan_view input gateway) vs (res, m)))"
  using assms
proof (induction vs arbitrary: res m)
  case (Cons v vs)
  have "map_tracks names (res @ view_results input gateway v)
      (fold (count_result (kind_compat (rv_kind v)) (gw_listeners gateway) (state_key (rv_namespace v) (rv_name v)))
        (view_results input gateway v) m)"
    using Cons.prems by (rule fold_count_tracks) (auto dest: view_results_route)
  from Cons.IH [OF this] show ?case by (simp add: plan_view_step)
qed simp

lemma initial_tracks: "map_tracks (ln_name ` set ls) [] (fold (\<lambda>l m. hm_insert (ln_name l) {} m) ls [])"
proof -
  have "hm_get (fold (\<lambda>l m. hm_insert (ln_name l) {} m) ls m) ln =
      (if ln \<in> ln_name ` set ls then Some {} else hm_get m ln)" for m :: attached_map and ln
    by (induction ls arbitrary: m) (auto simp: hm_simps)
  then show ?thesis by (auto simp: map_tracks_def attached_keys_def)
qed

lemma plan_routes_tracks:
  "map_tracks (ln_name ` set (gw_listeners gateway)) (fst (plan_routes input gateway)) (snd (plan_routes input gateway))"
  unfolding plan_routes_views by (rule plan_views_tracks) (rule initial_tracks)

lemma sort_by_cmp_key: "sort_by (\<lambda>a b. cmp (key a) (key b)) xs = sort_key key xs"
  by (rule sort_by_sort_key) (auto simp: cmp_def)

text \<open>A successful plan, spelled out.\<close>

lemma plan_Ok_iff:
  "AttachmentPlanner_plan input = Ok p \<longleftrightarrow>
     (\<exists>gateway. snapshot_gateway (api_snapshot input) (api_gateway_namespace input) (api_gateway_name input) = Some gateway \<and>
        p = \<lparr>ap_gateway_namespace = api_gateway_namespace input, ap_gateway_name = api_gateway_name input,
             ap_gateway_generation = api_gateway_generation input,
             ap_route_results = sort_key result_sort_key (fst (plan_routes input gateway)),
             ap_listener_summaries = sort_key las_listener_name
               (map (listener_attachment_summary (snd (plan_routes input gateway))) (gw_listeners gateway))\<rparr>)"
  by (auto simp: AttachmentPlanner_plan_def Let_def sort_by_cmp_key split: option.splits prod.splits)

lemma attached_keys_sort [simp]: "attached_keys (sort_key f res) = attached_keys res"
  by (simp add: attached_keys_def fun_eq_iff)

text \<open>
  C28: The number of attached routes a plan reports for a listener is the number of different
  routes (by namespace and name) for which the plan has an attaching result on a listener of that
  name, truncated to 32 bits; a route with several parent references to the listener counts once.
\<close>

theorem attached_routes_count:
  assumes "AttachmentPlanner_plan input = Ok p" "s \<in> set (ap_listener_summaries p)"
  shows "las_attached_routes s = of_nat (card (attached_keys (ap_route_results p) (las_listener_name s)))"
proof -
  from assms(1) obtain gateway where p: "p = \<lparr>ap_gateway_namespace = api_gateway_namespace input,
      ap_gateway_name = api_gateway_name input, ap_gateway_generation = api_gateway_generation input,
      ap_route_results = sort_key result_sort_key (fst (plan_routes input gateway)),
      ap_listener_summaries = sort_key las_listener_name
        (map (listener_attachment_summary (snd (plan_routes input gateway))) (gw_listeners gateway))\<rparr>"
    unfolding plan_Ok_iff by blast
  with assms(2) obtain l where l: "l \<in> set (gw_listeners gateway)"
    "s = listener_attachment_summary (snd (plan_routes input gateway)) l" by auto
  have "hm_get (snd (plan_routes input gateway)) (ln_name l) =
      Some (attached_keys (fst (plan_routes input gateway)) (ln_name l))"
    using plan_routes_tracks [of gateway input] l(1) by (simp add: map_tracks_def)
  with l(2) p show ?thesis
    by (cases "ln_protocol l") (simp_all add: listener_attachment_summary_def)
qed

section \<open>When a route attaches\<close>

text \<open>A parent reference of a route selects a listener, and the listener admits the route.\<close>

definition selects :: "Gateway \<Rightarrow> ParentReference \<Rightarrow> Listener \<Rightarrow> bool" where
  "selects g pr l =
     ((case pr_section_name pr of
         Some sn \<Rightarrow> find (\<lambda>l. ln_name l = sn) (gw_listeners g) = Some l
       | None \<Rightarrow> l \<in> set (gw_listeners g)) \<and>
      (pr_port pr = None \<or> pr_port pr = Some (ln_port l)))"

definition admits :: "PlannerSnapshot \<Rightarrow> Gateway \<Rightarrow> Listener \<Rightarrow> route_view \<Rightarrow> bool" where
  "admits snap g l v =
     (kind_compat (rv_kind v) (ln_protocol l) \<and>
      namespace_allowed (ln_allowed_routes l) (namespace_or_default (gw_metadata g)) (rv_namespace v)
        (ps_namespace_labels snap) \<and>
      kind_allowed (ln_allowed_routes l) (rv_kind v) \<and>
      (rv_kind v = KindTCPRoute \<or> hostnames_compatible (ln_hostname l) (rv_hostnames v)))"

lemma selected_listeners_iff:
  "l \<in> set (selected_listeners (view_context input g v pr)) \<longleftrightarrow> selects g pr l"
  by (auto simp: selected_listeners_def selects_def view_context_def split: option.splits)

lemma first_unresolved_attached:
  "first_unresolved_backend_ref_for_kind ns k brs snap = Some st \<Longrightarrow> is_attached st"
  by (induction brs) (auto simp: Let_def split: if_splits option.splits)

lemma first_unresolved_Attached: "first_unresolved_backend_ref_for_kind ns k brs snap \<noteq> Some Attached"
  by (induction brs) (auto simp: Let_def split: option.splits)

lemma listener_status_attached:
  "is_attached (listener_status (view_context input g v pr) l) \<longleftrightarrow> admits (api_snapshot input) g l v"
  by (auto simp: listener_status_def admits_def view_context_def Let_def
      dest: first_unresolved_attached split: option.split)

lemma evaluate_attached:
  "(\<exists>r\<in>set (evaluate_route_attachment_inner (view_context input g v pr)).
      is_attached (rar_status r) \<and> rar_listener_name r = Some ln) \<longleftrightarrow>
     (\<exists>l. selects g pr l \<and> ln_name l = ln \<and> admits (api_snapshot input) g l v)"
proof (cases "selected_listeners (view_context input g v pr) = []")
  case True
  then show ?thesis by (simp add: evaluate_inner_results selected_listeners_iff [of _ input g v pr, symmetric])
next
  case False
  then show ?thesis
    by (auto simp: evaluate_inner_results listener_status_attached selected_listeners_iff [of _ input g v pr, symmetric])
qed

lemma view_results_attached:
  "(\<exists>r\<in>set (view_results input g v). is_attached (rar_status r) \<and> rar_listener_name r = Some ln) \<longleftrightarrow>
     (\<exists>pr\<in>set (targeting_refs (api_gateway_namespace input) (api_gateway_name input) v). \<exists>l.
        selects g pr l \<and> ln_name l = ln \<and> admits (api_snapshot input) g l v)"
  by (simp add: view_results_def bex_UN evaluate_attached)

lemma set_plan_results:
  "set (fst (plan_routes input g)) =
     (\<Union>v\<in>set (gateway_views (api_snapshot input) (api_gateway_namespace input) (api_gateway_name input)).
        set (view_results input g v))"
  by (simp add: plan_routes_views fst_plan_views)

lemma plan_attached_views:
  "(\<exists>r\<in>set (fst (plan_routes input g)). rar_route_kind r = k \<and> rar_route_namespace r = ns \<and>
      rar_route_name r = n \<and> rar_listener_name r = Some ln \<and> is_attached (rar_status r)) \<longleftrightarrow>
   (\<exists>v\<in>snapshot_views (api_snapshot input). rv_kind v = k \<and> rv_namespace v = ns \<and> rv_name v = n \<and>
      (\<exists>pr\<in>set (targeting_refs (api_gateway_namespace input) (api_gateway_name input) v). \<exists>l.
        selects g pr l \<and> ln_name l = ln \<and> admits (api_snapshot input) g l v))" (is "?L \<longleftrightarrow> ?R")
proof
  assume ?L
  then obtain v r where v: "v \<in> set (gateway_views (api_snapshot input) (api_gateway_namespace input) (api_gateway_name input))"
    and r: "r \<in> set (view_results input g v)" "rar_route_kind r = k" "rar_route_namespace r = ns"
      "rar_route_name r = n" "rar_listener_name r = Some ln" "is_attached (rar_status r)"
    by (auto simp: set_plan_results)
  moreover have "v \<in> snapshot_views (api_snapshot input)" using v by (simp add: set_gateway_views)
  moreover have "\<exists>pr\<in>set (targeting_refs (api_gateway_namespace input) (api_gateway_name input) v). \<exists>l.
      selects g pr l \<and> ln_name l = ln \<and> admits (api_snapshot input) g l v"
    unfolding view_results_attached [symmetric] using r by blast
  ultimately show ?R using view_results_route [OF r(1)] by (intro bexI [of _ v]) simp_all
next
  assume ?R
  then obtain v where v: "v \<in> snapshot_views (api_snapshot input)" "rv_kind v = k" "rv_namespace v = ns" "rv_name v = n"
    "\<exists>pr\<in>set (targeting_refs (api_gateway_namespace input) (api_gateway_name input) v). \<exists>l.
        selects g pr l \<and> ln_name l = ln \<and> admits (api_snapshot input) g l v" by blast
  then obtain r where r: "r \<in> set (view_results input g v)" "is_attached (rar_status r)" "rar_listener_name r = Some ln"
    using view_results_attached [of input g v ln] by blast
  moreover have "targeting_refs (api_gateway_namespace input) (api_gateway_name input) v \<noteq> []" using v(5) by auto
  ultimately show ?L using v view_results_route [OF r(1)] by (auto simp: set_plan_results set_gateway_views)
qed

text \<open>
  C29: A plan has an attaching result for a route on a listener exactly when the snapshot holds
  the route, one of its parent references targets the Gateway and selects the listener (by section
  name, by port, or by neither), and the listener admits the route: its protocol carries the kind of
  route, its namespace policy and its kind list allow it, and the host names intersect.
\<close>

theorem route_attaches_iff:
  assumes "AttachmentPlanner_plan input = Ok p"
    and "snapshot_gateway (api_snapshot input) (api_gateway_namespace input) (api_gateway_name input) = Some g"
  shows "(\<exists>r\<in>set (ap_route_results p). rar_route_kind r = k \<and> rar_route_namespace r = ns \<and> rar_route_name r = n \<and>
      rar_listener_name r = Some ln \<and> is_attached (rar_status r)) \<longleftrightarrow>
    (\<exists>v\<in>snapshot_views (api_snapshot input). rv_kind v = k \<and> rv_namespace v = ns \<and> rv_name v = n \<and>
      (\<exists>pr\<in>set (targeting_refs (api_gateway_namespace input) (api_gateway_name input) v). \<exists>l.
        selects g pr l \<and> ln_name l = ln \<and> admits (api_snapshot input) g l v))"
proof -
  have "set (ap_route_results p) = set (fst (plan_routes input g))"
    using assms by (auto simp: plan_Ok_iff)
  then show ?thesis using plan_attached_views [of input g k ns n ln] by simp
qed

section \<open>Backend references\<close>

definition backend_resolved :: "PlannerSnapshot \<Rightarrow> RouteKind \<Rightarrow> string \<Rightarrow> BackendRef \<Rightarrow> bool" where
  "backend_resolved snap k ns br =
     (case service_target ns br of
        None \<Rightarrow> True
      | Some (target_ns, target_name) \<Rightarrow>
          if target_ns = ns then state_key target_ns target_name \<in> ps_service_presence snap
          else (\<exists>g. g \<in> snd ` set (ps_reference_grants snap) \<and> namespace_or_default (rg_metadata g) = target_ns \<and>
                 allows_service_reference g GATEWAY_API_GROUP (RouteKind_as_str k) ns (Some target_name)))"

lemma set_reference_grants_in_namespace:
  "set (reference_grants_in_namespace snap ns) =
     {g \<in> snd ` set (ps_reference_grants snap). namespace_or_default (rg_metadata g) = ns}"
  by (force simp: reference_grants_in_namespace_def)

lemma first_unresolved_None_iff:
  "first_unresolved_backend_ref_for_kind ns (RouteKind_as_str k) brs snap = None \<longleftrightarrow>
     (\<forall>br\<in>set brs. backend_resolved snap k ns br)"
proof (induction brs)
  case (Cons br brs)
  then show ?case
    by (cases "br_namespace br")
       (auto simp: Let_def backend_resolved_def service_target_def is_core_service_ref_def list_ex_iff
         set_reference_grants_in_namespace)
qed simp


section \<open>Independence of iteration order\<close>

text \<open>Two enumerations of a snapshot whose entries are stored under their own keys.\<close>

definition keyed :: "('a \<Rightarrow> ObjectMeta) \<Rightarrow> (string, 'a) hashmap \<Rightarrow> bool" where
  "keyed meta m =
     list_all (\<lambda>(k, r). k = state_key (fst (route_sort_key (meta r))) (snd (route_sort_key (meta r)))) m"

definition same_snapshot :: "PlannerSnapshot \<Rightarrow> PlannerSnapshot \<Rightarrow> bool" where
  "same_snapshot s t =
     (same_map (ps_gateways s) (ps_gateways t) \<and> same_map (ps_gateway_classes s) (ps_gateway_classes t) \<and>
      same_map (ps_http_routes s) (ps_http_routes t) \<and> keyed hr_metadata (ps_http_routes s) \<and>
      same_map (ps_tcp_routes s) (ps_tcp_routes t) \<and> keyed tr_metadata (ps_tcp_routes s) \<and>
      same_map (ps_tls_routes s) (ps_tls_routes t) \<and> keyed lr_metadata (ps_tls_routes s) \<and>
      same_map (ps_service_endpoints s) (ps_service_endpoints t) \<and>
      ps_service_presence s = ps_service_presence t \<and>
      same_map (ps_tls_secrets s) (ps_tls_secrets t) \<and>
      same_map (ps_reference_grants s) (ps_reference_grants t) \<and>
      ps_service_ref_index s = ps_service_ref_index t \<and>
      same_map (ps_namespace_labels s) (ps_namespace_labels t))"

lemma sort_routes_perm:
  assumes "same_map m m'" "keyed meta m"
  shows "sort_key (\<lambda>r. route_sort_key (meta r)) (filter P (hm_values m)) =
    sort_key (\<lambda>r. route_sort_key (meta r)) (filter P (hm_values m'))"
proof (rule sort_key_perm)
  show "mset (filter P (hm_values m)) = mset (filter P (hm_values m'))"
    using same_map_mset [OF assms(1)] by (simp add: hm_values_def)
  have "r = r'" if "(k, r) \<in> set m" "(k', r') \<in> set m" "route_sort_key (meta r) = route_sort_key (meta r')" for k r k' r'
  proof -
    have key: "k = state_key (fst (route_sort_key (meta r))) (snd (route_sort_key (meta r)))" if "(k, r) \<in> set m" for k r
      using that assms(2) unfolding keyed_def list_all_iff by (drule_tac bspec) auto
    have "k = k'" using key [OF that(1)] key [OF that(2)] that(3) by simp
    with that(1,2) assms(1) show ?thesis by (simp add: same_map_def hm_get_Some_iff [symmetric])
  qed
  then show "inj_on (\<lambda>r. route_sort_key (meta r)) (set (filter P (hm_values m)))"
    by (auto simp: inj_on_def hm_values_def)
qed

lemma gateway_views_perm:
  assumes "same_snapshot s t"
  shows "gateway_views s gns gname = gateway_views t gns gname"
  unfolding gateway_views_def http_routes_for_gateway_def tcp_routes_for_gateway_def tls_routes_for_gateway_def
  using assms sort_routes_perm [of "ps_http_routes s" "ps_http_routes t" hr_metadata]
    sort_routes_perm [of "ps_tcp_routes s" "ps_tcp_routes t" tr_metadata]
    sort_routes_perm [of "ps_tls_routes s" "ps_tls_routes t" lr_metadata]
  by (simp add: same_snapshot_def)

lemma first_unresolved_perm:
  assumes "same_snapshot s t"
  shows "first_unresolved_backend_ref_for_kind ns k brs s = first_unresolved_backend_ref_for_kind ns k brs t"
proof -
  have "set (reference_grants_in_namespace s tns) = set (reference_grants_in_namespace t tns)" for tns
    using assms by (simp add: set_reference_grants_in_namespace same_snapshot_def same_map_def)
  then have "list_ex P (reference_grants_in_namespace s tns) = list_ex P (reference_grants_in_namespace t tns)" for P tns
    by (simp add: list_ex_iff)
  then show ?thesis using assms by (induction brs) (simp_all add: Let_def same_snapshot_def)
qed

lemma evaluate_other_snapshot:
  assumes "\<And>l. listener_status (c\<lparr>rec_snapshot := t\<rparr>) l = listener_status c l"
  shows "evaluate_route_attachment_inner (c\<lparr>rec_snapshot := t\<rparr>) = evaluate_route_attachment_inner c"
proof -
  have "selected_listeners (c\<lparr>rec_snapshot := t\<rparr>) = selected_listeners c"
    by (cases "rec_section_name c") (simp_all add: selected_listeners_def)
  then show ?thesis by (simp add: evaluate_inner_results route_result_def assms)
qed

lemma evaluate_perm:
  assumes "same_snapshot (api_snapshot i) t"
  shows "evaluate_route_attachment_inner (view_context (i\<lparr>api_snapshot := t\<rparr>) g v pr) =
    evaluate_route_attachment_inner (view_context i g v pr)"
proof -
  let ?c = "view_context i g v pr"
  have labels: "hm_get (ps_namespace_labels t) = hm_get (ps_namespace_labels (api_snapshot i))"
    using same_map_get [of "ps_namespace_labels (api_snapshot i)" "ps_namespace_labels t"] assms
    by (simp add: same_snapshot_def)
  have "namespace_allowed ar gns ns (ps_namespace_labels t) =
      namespace_allowed ar gns ns (ps_namespace_labels (api_snapshot i))" for ar gns ns
    unfolding namespace_allowed_def labels ..
  then have "listener_status (?c\<lparr>rec_snapshot := t\<rparr>) l = listener_status ?c l" for l
    by (simp add: listener_status_def view_context_def first_unresolved_perm [OF assms] Let_def cong: if_cong)
  then have "evaluate_route_attachment_inner (?c\<lparr>rec_snapshot := t\<rparr>) = evaluate_route_attachment_inner ?c"
    by (rule evaluate_other_snapshot)
  then show ?thesis by (simp add: view_context_def)
qed

definition same_attachment_input :: "AttachmentPlanInput \<Rightarrow> AttachmentPlanInput \<Rightarrow> bool" where
  "same_attachment_input i j =
     (same_snapshot (api_snapshot i) (api_snapshot j) \<and> j = i\<lparr>api_snapshot := api_snapshot j\<rparr>)"

lemma plan_perm:
  assumes "same_snapshot (api_snapshot i) t"
  shows "AttachmentPlanner_plan (i\<lparr>api_snapshot := t\<rparr>) = AttachmentPlanner_plan i"
proof -
  have "view_results (i\<lparr>api_snapshot := t\<rparr>) = view_results i"
    by (simp add: fun_eq_iff view_results_def evaluate_perm [OF assms])
  then have "plan_view (i\<lparr>api_snapshot := t\<rparr>) = plan_view i"
    by (auto simp: fun_eq_iff plan_view_step)
  then have "plan_routes (i\<lparr>api_snapshot := t\<rparr>) g = plan_routes i g" for g
    by (simp add: plan_routes_views gateway_views_perm [OF assms])
  moreover have "snapshot_gateway t ns n = snapshot_gateway (api_snapshot i) ns n" for ns n
    using assms same_map_get by (fastforce simp: snapshot_gateway_def same_snapshot_def)
  ultimately show ?thesis
    by (cases "snapshot_gateway (api_snapshot i) (api_gateway_namespace i) (api_gateway_name i)")
       (simp_all add: AttachmentPlanner_plan_def)
qed

interpretation attachment: planner_contract AttachmentPlanner_plan same_attachment_input
proof
  show "AttachmentPlanner_plan i = AttachmentPlanner_plan j" if "same_attachment_input i j" for i j
  proof -
    from that have j: "j = i\<lparr>api_snapshot := api_snapshot j\<rparr>"
      and s: "same_snapshot (api_snapshot i) (api_snapshot j)" by (simp_all add: same_attachment_input_def)
    show ?thesis by (subst j) (simp add: plan_perm [OF s])
  qed
qed

text \<open>
  The plan does not depend on the order in which the hash maps of the snapshot enumerate
  their entries: two inputs with the same contents, stored under their own keys, give the same plan,
  or the same error.
\<close>

theorem attachment_plan_deterministic:
  assumes "same_attachment_input i j"
  shows "AttachmentPlanner_plan i = AttachmentPlanner_plan j"
  using assms by (rule attachment.deterministic)

section \<open>Examples\<close>

definition ex_meta :: "string \<Rightarrow> string \<Rightarrow> ObjectMeta" where
  "ex_meta ns n = ObjectMeta_default\<lparr>meta_namespace := Some ns, meta_name := Some n,
     meta_uid := Some ''u1'', meta_generation := Some 1\<rparr>"

definition ex_listener :: Listener where
  "ex_listener = \<lparr>ln_name = ''web'', ln_hostname = Some ''*.example.com'', ln_port = 80, ln_protocol = HTTP,
     ln_tls = None,
     ln_allowed_routes = Some \<lparr>ar_namespaces = Some \<lparr>rn_from = All, rn_selector = None\<rparr>, ar_kinds = []\<rparr>\<rparr>"

definition ex_gateway :: Gateway where
  "ex_gateway = \<lparr>gw_metadata = ex_meta ''infra'' ''gw'',
     gw_spec = \<lparr>gs_gateway_class_name = ''wicket'', gs_listeners = [ex_listener], gs_addresses = [],
       gs_infrastructure = None\<rparr>, gw_status = None\<rparr>"

definition ex_backend :: "string option \<Rightarrow> string \<Rightarrow> BackendRef" where
  "ex_backend ns n = \<lparr>br_group = [], br_kind = ''Service'', br_name = n, br_namespace = ns, br_port = Some 80, br_weight = 1\<rparr>"

definition ex_parent :: "string option \<Rightarrow> ParentReference" where
  "ex_parent sn = \<lparr>pr_group = GATEWAY_API_GROUP, pr_kind = ''Gateway'', pr_namespace = Some ''infra'', pr_name = ''gw'',
     pr_section_name = sn, pr_port = None\<rparr>"

definition ex_http_route :: "string \<Rightarrow> BackendRef \<Rightarrow> HTTPRoute" where
  "ex_http_route n br = \<lparr>hr_metadata = ex_meta ''app'' n,
     hr_spec = \<lparr>hrs_parent_refs = [ex_parent (Some ''web''), ex_parent None], hrs_hostnames = [''www.example.com''],
       hrs_rules = [\<lparr>hrr_name = None, hrr_matches = [], hrr_filters = [],
         hrr_backend_refs = [\<lparr>hbr_backend_ref = br, hbr_filters = []\<rparr>], hrr_timeouts = None\<rparr>]\<rparr>,
     hr_status = None\<rparr>"

definition ex_snapshot :: "(string, HTTPRoute) hashmap \<Rightarrow> (string, ReferenceGrant) hashmap \<Rightarrow> PlannerSnapshot" where
  "ex_snapshot rs gs = \<lparr>ps_gateways = [(''infra/gw'', ex_gateway)], ps_gateway_classes = [],
     ps_http_routes = rs, ps_tcp_routes = [], ps_tls_routes = [], ps_service_endpoints = [],
     ps_service_presence = {''app/api''}, ps_tls_secrets = [], ps_reference_grants = gs,
     ps_service_ref_index = {}, ps_namespace_labels = []\<rparr>"

definition ex_input :: "PlannerSnapshot \<Rightarrow> AttachmentPlanInput" where
  "ex_input snap = \<lparr>api_gateway_namespace = ''infra'', api_gateway_name = ''gw'', api_gateway_generation = 1, api_snapshot = snap\<rparr>"

definition ex_routes :: "(string, HTTPRoute) hashmap" where
  "ex_routes = [(''app/a'', ex_http_route ''a'' (ex_backend None ''api'')), (''app/b'', ex_http_route ''b'' (ex_backend None ''api''))]"

lemma ex_plan_ok: "is_ok (AttachmentPlanner_plan (ex_input (ex_snapshot ex_routes [])))"
  by code_simp

lemma ex_snapshot_gateway [simp]:
  "snapshot_gateway (api_snapshot (ex_input (ex_snapshot rs gs))) (api_gateway_namespace (ex_input (ex_snapshot rs gs)))
     (api_gateway_name (ex_input (ex_snapshot rs gs))) = Some ex_gateway"
  by (simp add: snapshot_gateway_def ex_input_def ex_snapshot_def state_key_def hm_get_def)

theorem attached_routes_count_witness:
  "\<exists>p s. AttachmentPlanner_plan (ex_input (ex_snapshot ex_routes [])) = Ok p \<and> s \<in> set (ap_listener_summaries p) \<and>
     las_attached_routes s = of_nat (card (attached_keys (ap_route_results p) (las_listener_name s)))"
proof -
  obtain p where p: "AttachmentPlanner_plan (ex_input (ex_snapshot ex_routes [])) = Ok p"
    using ex_plan_ok unfolding is_ok_iff ..
  then obtain s where s: "s \<in> set (ap_listener_summaries p)"
    by (auto simp: plan_Ok_iff ex_gateway_def)
  from attached_routes_count [OF p s] p s show ?thesis by blast
qed

lemma ex_plan_attached:
  "case AttachmentPlanner_plan (ex_input (ex_snapshot ex_routes [])) of
     Inl _ \<Rightarrow> False
   | Inr p \<Rightarrow> list_ex (\<lambda>r. rar_route_kind r = KindHTTPRoute \<and> rar_route_namespace r = ''app'' \<and> rar_route_name r = ''a'' \<and>
       rar_listener_name r = Some ''web'' \<and> rar_status r = Attached) (ap_route_results p)"
  by code_simp

theorem route_attaches_iff_witness:
  "\<exists>v\<in>snapshot_views (ex_snapshot ex_routes []). rv_kind v = KindHTTPRoute \<and> rv_namespace v = ''app'' \<and> rv_name v = ''a'' \<and>
     (\<exists>pr\<in>set (targeting_refs ''infra'' ''gw'' v). \<exists>l. selects ex_gateway pr l \<and> ln_name l = ''web'' \<and>
        admits (ex_snapshot ex_routes []) ex_gateway l v)"
proof -
  obtain p where p: "AttachmentPlanner_plan (ex_input (ex_snapshot ex_routes [])) = Ok p"
    using ex_plan_ok unfolding is_ok_iff ..
  have "\<exists>r\<in>set (ap_route_results p). rar_route_kind r = KindHTTPRoute \<and> rar_route_namespace r = ''app'' \<and>
      rar_route_name r = ''a'' \<and> rar_listener_name r = Some ''web'' \<and> is_attached (rar_status r)"
    using ex_plan_attached unfolding p by (auto simp: list_ex_iff)
  from this [unfolded route_attaches_iff [OF p ex_snapshot_gateway]] show ?thesis by (simp add: ex_input_def)
qed


lemma ex_same_input:
  "same_attachment_input (ex_input (ex_snapshot ex_routes [])) (ex_input (ex_snapshot (rev ex_routes) []))"
  by (simp add: same_attachment_input_def same_snapshot_def same_map_def keyed_def route_sort_key_def ex_input_def
      ex_snapshot_def ex_routes_def ex_http_route_def ex_meta_def state_key_def hm_ok_def insert_commute)

theorem attachment_plan_deterministic_witness:
  "AttachmentPlanner_plan (ex_input (ex_snapshot ex_routes [])) =
     AttachmentPlanner_plan (ex_input (ex_snapshot (rev ex_routes) []))"
  using attachment_plan_deterministic [OF ex_same_input] .

text \<open>
  A ReferenceGrant that permits a route's reference changes the plan of the Gateway, but its watch
  event is mapped to no Gateway, because the grant is not called like the service.
\<close>

definition ex_grant :: ReferenceGrant where
  "ex_grant = \<lparr>rg_metadata = ex_meta ''db'' ''allow-app'',
     rg_spec = \<lparr>rgs_from = [\<lparr>rgf_group = GATEWAY_API_GROUP, rgf_kind = ''HTTPRoute'', rgf_namespace = ''app''\<rparr>],
       rgs_to = [\<lparr>rgt_group = [], rgt_kind = ''Service'', rgt_name = None\<rparr>]\<rparr>\<rparr>"

definition ex_store :: SharedStore where
  "ex_store = foldl store_step SharedStore_new
     (map MarkListed ResourceClass_ALL @
      [UpsertGateway ''infra/gw'' ex_gateway,
       UpsertHttpRoute ''app/a'' (ex_http_route ''a'' (ex_backend (Some ''db'') ''mysql''))])"

definition planned_statuses :: "SharedStore \<Rightarrow> AttachmentStatus list" where
  "planned_statuses s =
     (case planner_snapshot s of
        NotReady \<Rightarrow> []
      | SnapshotReady snap \<Rightarrow>
          (case AttachmentPlanner_plan (ex_input snap) of
             Inl _ \<Rightarrow> []
           | Inr p \<Rightarrow> remdups (map rar_status (ap_route_results p))))"

theorem grant_change_unnoticed:
  "planned_statuses ex_store = [RefNotPermitted ''app'' ''db'' ''mysql''] \<and>
   planned_statuses (store_step ex_store (UpsertReferenceGrant ''db/allow-app'' ex_grant)) = [Attached] \<and>
   gateways_for_reference_grant (ss_reverse_index (store_step ex_store (UpsertReferenceGrant ''db/allow-app'' ex_grant)))
     ''db'' ''allow-app'' = []"
  by code_simp

end
