(* ===== verification/Config_Generator.thy ===== *)
theory Config_Generator
  imports Controller_Store Wicket_Config Sni_Router
begin

text \<open>
  The configuration generator of the controller
  (\<^verbatim>\<open>crates/wicket-controller/src/reconcilers/config_generator.rs\<close>): from the collected Gateways,
  routes, endpoints and certificates to one proxy configuration. The local variables that a loop
  updates are threaded through its body; \<^verbatim>\<open>continue\<close> returns them unchanged. The one place where the
  code can panic, \<^verbatim>\<open>split_at\<close> inside a character of a timeout, makes the generator a result whose
  error is that panic (a string index that is out of range or not at a character boundary). Lemmas: what is rendered, when the configuration passes
  validation, which upstream a server name gets, and independence of the iteration order of the maps.
\<close>

section \<open>Accepted routes\<close>

definition parents_accepted_by_wicket :: "RouteParentStatus list \<Rightarrow> bool" where
  "parents_accepted_by_wicket parents =
     list_ex (\<lambda>p. rps_controller_name p = WICKET_CONTROLLER_NAME \<and>
       list_ex (\<lambda>c. cond_type c = ''Accepted'' \<and> cond_status c = ''True'') (rps_conditions p)) parents"

definition http_route_is_accepted :: "HTTPRoute \<Rightarrow> bool" where
  "http_route_is_accepted route =
     (case hr_status route of Some s \<Rightarrow> parents_accepted_by_wicket (hrst_parents s) | None \<Rightarrow> False)"

definition tcp_route_is_accepted :: "TCPRoute \<Rightarrow> bool" where
  "tcp_route_is_accepted route =
     (case tr_status route of Some s \<Rightarrow> parents_accepted_by_wicket (trst_parents s) | None \<Rightarrow> False)"

definition tls_route_is_accepted :: "TLSRoute \<Rightarrow> bool" where
  "tls_route_is_accepted route =
     (case lr_status route of Some s \<Rightarrow> parents_accepted_by_wicket (lrst_parents s) | None \<Rightarrow> False)"

section \<open>Durations\<close>

datatype panic = BadStringIndex

text \<open>
  A byte of the form \<^verbatim>\<open>10xxxxxx\<close> does not start a character. The multiplications are those of the
  release build, which wraps.
\<close>

definition is_char_boundary_byte :: "char \<Rightarrow> bool" where
  "is_char_boundary_byte c = (\<not> (128 \<le> (of_char c :: nat) \<and> (of_char c :: nat) < 192))"

definition parse_duration_to_secs :: "string \<Rightarrow> panic + u64 option" where
  "parse_duration_to_secs s =
     (let duration = trim s in
      if duration = [] then Ok None
      else if \<not> is_char_boundary_byte (last duration) then Err BadStringIndex
      else
        (let num = butlast duration; unit = [last duration] in
         case parse_u64 num of
           None \<Rightarrow> Ok None
         | Some n \<Rightarrow>
             Ok (if unit = ''s'' then Some n
                 else if unit = ''m'' then Some (n * 60)
                 else if unit = ''h'' then Some (n * 3600)
                 else None)))"

section \<open>Listeners\<close>

text \<open>The three buckets of \<^verbatim>\<open>(gateway key, listener)\<close>: HTTP, HTTPS, and TCP or TLS.\<close>

type_synonym listener_entry = "string \<times> Listener"

type_synonym listener_buckets = "listener_entry list \<times> listener_entry list \<times> listener_entry list"

definition bucket_listener :: "string \<Rightarrow> Listener \<Rightarrow> listener_buckets \<Rightarrow> listener_buckets" where
  "bucket_listener gw_key listener = (\<lambda>(http, https, tcp).
     case ln_protocol listener of
       HTTP \<Rightarrow> (http @ [(gw_key, listener)], https, tcp)
     | HTTPS \<Rightarrow> (http, https @ [(gw_key, listener)], tcp)
     | TCP \<Rightarrow> (http, https, tcp @ [(gw_key, listener)])
     | TLS \<Rightarrow> (http, https, tcp @ [(gw_key, listener)])
     | UDP \<Rightarrow> (http, https, tcp))"

definition bucket_listeners :: "(string \<times> Gateway) list \<Rightarrow> listener_buckets" where
  "bucket_listeners gw_entries =
     fold (\<lambda>(gw_key, gateway). fold (bucket_listener gw_key) (gw_listeners gateway)) gw_entries ([], [], [])"

definition any_addr :: "u16 \<Rightarrow> SocketAddr" where
  "any_addr port = SocketAddrV4 (Ipv4 0 0 0 0) port"

definition additional_http_listens :: "listener_entry list \<Rightarrow> SocketAddr list" where
  "additional_http_listens http_ls =
     fst (fold (\<lambda>(_, listener) (addrs, seen).
       let addr = any_addr (ln_port listener) in
       if addr \<notin> seen then (addrs @ [addr], insert addr seen) else (addrs, seen))
       (drop 1 http_ls) ([], {}))"

definition set_listens :: "listener_entry list \<Rightarrow> listener_entry list \<Rightarrow> ServerConfig \<Rightarrow> ServerConfig" where
  "set_listens http_ls https_ls server =
     (case (http_ls, https_ls) of
        ((_, http_l) # _, (_, https_l) # _) \<Rightarrow>
          server\<lparr>srv_listen := any_addr (ln_port http_l),
            srv_http_listens := additional_http_listens http_ls,
            srv_https_listen := Some (any_addr (ln_port https_l)), srv_disable_http := False\<rparr>
      | ((_, http_l) # _, []) \<Rightarrow>
          server\<lparr>srv_listen := any_addr (ln_port http_l),
            srv_http_listens := additional_http_listens http_ls\<rparr>
      | ([], (_, https_l) # _) \<Rightarrow>
          (let addr = any_addr (ln_port https_l) in
           server\<lparr>srv_listen := addr, srv_https_listen := Some addr, srv_disable_http := True\<rparr>)
      | ([], []) \<Rightarrow> server)"

section \<open>HTTP routes\<close>

text \<open>
  The addresses of one backend reference: the sorted endpoints of the service when they are known,
  and otherwise its cluster-local name with the given default port. The three route kinds repeat this
  code with the defaults 80, 443 and 9000.
\<close>

definition backend_servers :: "GatewayState \<Rightarrow> string \<Rightarrow> u16 \<Rightarrow> BackendRef \<Rightarrow> string list" where
  "backend_servers self route_ns default_port backend_ref =
     (let backend_ns = unwrap_or (br_namespace backend_ref) route_ns;
          backend_key = state_key backend_ns (br_name backend_ref) in
      case hm_get (gss_service_endpoints self) backend_key of
        Some endpoints \<Rightarrow> sort (se_endpoints endpoints)
      | None \<Rightarrow>
          [br_name backend_ref @ ''.'' @ backend_ns @ ''.svc.cluster.local:'' @
           show_nat (unat (unwrap_or (br_port backend_ref) default_port))])"

definition rule_backend_addrs :: "GatewayState \<Rightarrow> string \<Rightarrow> HTTPRouteRule \<Rightarrow> string list" where
  "rule_backend_addrs self route_ns rule =
     concat (map (\<lambda>backend_ref. backend_servers self route_ns 80 (hbr_backend_ref backend_ref))
       (hrr_backend_refs rule))"

definition rule_timeout :: "HTTPRouteRule \<Rightarrow> panic + u64 option" where
  "rule_timeout rule =
     (case hrr_timeouts rule of
        None \<Rightarrow> Ok None
      | Some t \<Rightarrow> (case hrt_request t of None \<Rightarrow> Ok None | Some d \<Rightarrow> parse_duration_to_secs d))"

fun HTTPMethod_debug :: "HTTPMethod \<Rightarrow> string" where
  "HTTPMethod_debug GET = ''GET''"
| "HTTPMethod_debug HEAD = ''HEAD''"
| "HTTPMethod_debug POST = ''POST''"
| "HTTPMethod_debug PUT = ''PUT''"
| "HTTPMethod_debug DELETE = ''DELETE''"
| "HTTPMethod_debug CONNECT = ''CONNECT''"
| "HTTPMethod_debug OPTIONS = ''OPTIONS''"
| "HTTPMethod_debug TRACE = ''TRACE''"
| "HTTPMethod_debug PATCH = ''PATCH''"

definition first_of :: "'a list \<Rightarrow> 'a option" where
  "first_of xs = (case xs of [] \<Rightarrow> None | x # _ \<Rightarrow> Some x)"

definition rule_upstream_name :: "string \<Rightarrow> string \<Rightarrow> nat \<Rightarrow> string" where
  "rule_upstream_name route_ns rname rule_idx =
     route_ns @ ''-'' @ rname @ ''-rule'' @ show_nat rule_idx"

text \<open>\<^verbatim>\<open>None\<close> is the \<^verbatim>\<open>continue\<close> for a regular expression.\<close>

definition match_paths :: "HTTPRouteMatch \<Rightarrow> (string option \<times> string option) option" where
  "match_paths route_match =
     (case hrm_path route_match of
        Some path_match \<Rightarrow>
          (case pm_type path_match of
             PathMatchExact \<Rightarrow> Some (Some (pm_value path_match), None)
           | PathMatchPrefix \<Rightarrow> Some (None, Some (pm_value path_match))
           | PathMatchRegularExpression \<Rightarrow> None)
      | None \<Rightarrow> Some (None, Some ''/''))"

definition match_route_config ::
  "HTTPRoute \<Rightarrow> string \<Rightarrow> u64 option \<Rightarrow> nat \<times> HTTPRouteMatch \<Rightarrow> RouteConfig list" where
  "match_route_config route upstream_name timeout = (\<lambda>(match_idx, route_match).
     case match_paths route_match of
       None \<Rightarrow> []
     | Some (path, path_prefix) \<Rightarrow>
         let methods = (case hrm_method route_match of None \<Rightarrow> [] | Some m \<Rightarrow> [HTTPMethod_debug m]);
             headers = bt_collect (map (\<lambda>h. (hdm_name h, hdm_value h)) (hrm_headers route_match)) in
         [\<lparr>rc_name = Some (upstream_name @ ''-match'' @ show_nat match_idx),
           rc_match_rules =
             \<lparr>rm_host = first_of (hrs_hostnames (hr_spec route)), rm_path_prefix = path_prefix, rm_path = path,
              rm_methods = methods, rm_headers = headers\<rparr>,
           rc_upstream = upstream_name, rc_tls = None, rc_filters = None, rc_timeout = timeout\<rparr>])"

definition rule_route_configs :: "HTTPRoute \<Rightarrow> string \<Rightarrow> u64 option \<Rightarrow> HTTPRouteRule \<Rightarrow> RouteConfig list" where
  "rule_route_configs route upstream_name timeout rule =
     (if hrr_matches rule = [] then
        [\<lparr>rc_name = Some upstream_name,
          rc_match_rules =
            \<lparr>rm_host = first_of (hrs_hostnames (hr_spec route)), rm_path_prefix = Some ''/'', rm_path = None,
             rm_methods = [], rm_headers = []\<rparr>,
          rc_upstream = upstream_name, rc_tls = None, rc_filters = None, rc_timeout = timeout\<rparr>]
      else concat (map (match_route_config route upstream_name timeout) (enumerate 0 (hrr_matches rule))))"

type_synonym http_acc = "(string, UpstreamConfig) hashmap \<times> RouteConfig list"

definition http_route_name :: "HTTPRoute \<Rightarrow> string" where
  "http_route_name route = unwrap_or (meta_name (hr_metadata route)) ''unknown''"

definition render_http_rule ::
  "GatewayState \<Rightarrow> HTTPRoute \<Rightarrow> nat \<times> HTTPRouteRule \<Rightarrow> http_acc \<Rightarrow> panic + http_acc" where
  "render_http_rule self route = (\<lambda>(rule_idx, rule) (upstreams, rs).
     let route_ns = namespace_or_default (hr_metadata route);
         upstream_name = rule_upstream_name route_ns (http_route_name route) rule_idx;
         backend_addrs = rule_backend_addrs self route_ns rule in
     if backend_addrs \<noteq> [] then
       and_then (rule_timeout rule) (\<lambda>timeout.
         Ok (bt_insert upstream_name
               \<lparr>uc_backends = backend_addrs, uc_strategy = RoundRobin, uc_health_check = None\<rparr> upstreams,
             rs @ rule_route_configs route upstream_name timeout rule))
     else Ok (upstreams, rs))"

definition render_http_route :: "GatewayState \<Rightarrow> string \<times> HTTPRoute \<Rightarrow> http_acc \<Rightarrow> panic + http_acc" where
  "render_http_route self = (\<lambda>(_, route) acc.
     if \<not> http_route_is_accepted route then Ok acc
     else try_fold (render_http_rule self route) (enumerate 0 (hrs_rules (hr_spec route))) acc)"

definition render_http_routes :: "GatewayState \<Rightarrow> panic + http_acc" where
  "render_http_routes self = try_fold (render_http_route self) (sorted_entries (gss_http_routes self)) ([], [])"

section \<open>Certificates\<close>

definition add_domain :: "string \<Rightarrow> FileCertConfig \<Rightarrow> FileCertConfig" where
  "add_domain hostname entry =
     (if hostname \<in> set (fcc_domains entry) then entry
      else entry\<lparr>fcc_domains := fcc_domains entry @ [hostname]\<rparr>)"

type_synonym cert_map = "(string, FileCertConfig) hashmap"

definition cert_of_ref :: "GatewayState \<Rightarrow> string \<Rightarrow> Listener \<Rightarrow> SecretObjectReference \<Rightarrow> cert_map \<Rightarrow> cert_map" where
  "cert_of_ref self gw_ns listener cert_ref certs =
     (let cert_ns = unwrap_or (sr_namespace cert_ref) gw_ns;
          cert_key = state_key cert_ns (sr_name cert_ref) in
      case ln_hostname listener of
        None \<Rightarrow> certs
      | Some hostname \<Rightarrow>
          (case hm_get (gss_tls_secrets self) cert_key of
             None \<Rightarrow> certs
           | Some (cert_path, key_path) \<Rightarrow>
               bt_entry cert_key
                 \<lparr>fcc_name = sr_name cert_ref, fcc_cert = cert_path, fcc_key = key_path, fcc_domains = []\<rparr>
                 (add_domain hostname) certs))"

definition certs_of_gateway :: "GatewayState \<Rightarrow> string \<times> Gateway \<Rightarrow> cert_map \<Rightarrow> cert_map" where
  "certs_of_gateway self = (\<lambda>(_, gateway).
     let gw_ns = namespace_or_default (gw_metadata gateway) in
     fold (\<lambda>listener certs.
       case ln_tls listener of
         None \<Rightarrow> certs
       | Some tls_config \<Rightarrow> fold (cert_of_ref self gw_ns listener) (gt_certificate_refs tls_config) certs)
     (gw_listeners gateway))"

definition tls_certs :: "GatewayState \<Rightarrow> FileCertConfig list" where
  "tls_certs self = map snd (fold (certs_of_gateway self) (sorted_entries (gss_gateways self)) [])"

section \<open>Streams\<close>

record stream_acc =
  sa_sni_routes_ordered :: "(string \<times> string) list"
  sa_stream_upstreams :: "StreamUpstreamConfig list"
  sa_sni_owner :: "(string, string) hashmap"
  sa_catch_all_upstream :: "string option"

definition stream_upstream_name :: "string \<Rightarrow> BackendRef \<Rightarrow> string" where
  "stream_upstream_name route_ns backend_ref = route_ns @ ''-'' @ br_name backend_ref"

definition claim_hostname :: "string \<Rightarrow> string \<Rightarrow> stream_acc \<Rightarrow> stream_acc" where
  "claim_hostname upstream_name hostname acc =
     (case hm_get (sa_sni_owner acc) hostname of
        Some _ \<Rightarrow> acc
      | None \<Rightarrow>
          acc\<lparr>sa_sni_owner := bt_insert hostname upstream_name (sa_sni_owner acc),
              sa_sni_routes_ordered := sa_sni_routes_ordered acc @ [(hostname, upstream_name)]\<rparr>)"

definition render_tls_backend :: "GatewayState \<Rightarrow> TLSRoute \<Rightarrow> BackendRef \<Rightarrow> stream_acc \<Rightarrow> stream_acc" where
  "render_tls_backend self route backend_ref acc =
     (let route_ns = namespace_or_default (lr_metadata route);
          upstream_name = stream_upstream_name route_ns backend_ref;
          servers = backend_servers self route_ns 443 backend_ref;
          acc = acc\<lparr>sa_stream_upstreams :=
                  sa_stream_upstreams acc @ [\<lparr>su_name = upstream_name, su_servers = servers\<rparr>]\<rparr> in
      if lrs_hostnames (lr_spec route) = [] then
        (if sa_catch_all_upstream acc = None then acc\<lparr>sa_catch_all_upstream := Some upstream_name\<rparr> else acc)
      else fold (claim_hostname upstream_name) (lrs_hostnames (lr_spec route)) acc)"

definition render_tls_route :: "GatewayState \<Rightarrow> string \<times> TLSRoute \<Rightarrow> stream_acc \<Rightarrow> stream_acc" where
  "render_tls_route self = (\<lambda>(_, route) acc.
     if \<not> tls_route_is_accepted route then acc
     else fold (\<lambda>rule. fold (render_tls_backend self route) (lrr_backend_refs rule)) (lrs_rules (lr_spec route)) acc)"

definition render_tcp_backend :: "GatewayState \<Rightarrow> TCPRoute \<Rightarrow> BackendRef \<Rightarrow> stream_acc \<Rightarrow> stream_acc" where
  "render_tcp_backend self route backend_ref acc =
     (let route_ns = namespace_or_default (tr_metadata route);
          upstream_name = stream_upstream_name route_ns backend_ref;
          servers = backend_servers self route_ns 9000 backend_ref in
      acc\<lparr>sa_stream_upstreams :=
        sa_stream_upstreams acc @ [\<lparr>su_name = upstream_name, su_servers = servers\<rparr>]\<rparr>)"

definition render_tcp_route :: "GatewayState \<Rightarrow> string \<times> TCPRoute \<Rightarrow> stream_acc \<Rightarrow> stream_acc" where
  "render_tcp_route self = (\<lambda>(_, route) acc.
     if \<not> tcp_route_is_accepted route then acc
     else fold (\<lambda>rule. fold (render_tcp_backend self route) (trr_backend_refs rule)) (trs_rules (tr_spec route)) acc)"

definition stream_routes :: "GatewayState \<Rightarrow> stream_acc" where
  "stream_routes self =
     fold (render_tcp_route self) (sorted_entries (gss_tcp_routes self))
       (fold (render_tls_route self) (sorted_entries (gss_tls_routes self))
         \<lparr>sa_sni_routes_ordered = [], sa_stream_upstreams = [], sa_sni_owner = [], sa_catch_all_upstream = None\<rparr>)"

definition stream_config :: "GatewayState \<Rightarrow> listener_entry list \<Rightarrow> StreamConfig option" where
  "stream_config self tcp_ls =
     (if gss_tcp_routes self \<noteq> [] \<or> gss_tls_routes self \<noteq> [] then
        (let acc = stream_routes self;
             sni_routes_map = bt_collect (sort_key fst (sa_sni_routes_ordered acc)) in
         case tcp_ls of
           (_, listener) # _ \<Rightarrow>
             Some \<lparr>st_name = ''stream-'' @ show_nat (unat (ln_port listener)),
                   st_listen = ''0.0.0.0:'' @ show_nat (unat (ln_port listener)),
                   st_backlog = 8000, st_reuseport = True, st_proxy_protocol = PPNone, st_source_ips = [],
                   st_default_upstream = sa_catch_all_upstream acc, st_sni_routes = sni_routes_map,
                   st_upstreams = sa_stream_upstreams acc, st_health_cooldown_secs = 30,
                   st_connect_timeout_ms = 5000, st_max_connections = 10000, st_drain_timeout_secs = 30\<rparr>
         | [] \<Rightarrow> None)
      else None)"

section \<open>The configuration\<close>

definition generate_config :: "GatewayState \<Rightarrow> panic + Config" where
  "generate_config self =
     (let gw_entries = sorted_entries (gss_gateways self);
          (http_ls, https_ls, tcp_ls) = bucket_listeners gw_entries;
          config = Config_default\<lparr>cfg_server := set_listens http_ls https_ls (cfg_server Config_default)\<rparr> in
      and_then (render_http_routes self) (\<lambda>(upstreams, rs).
        let certs = tls_certs self;
            stream = stream_config self tcp_ls;
            config =
              (if certs \<noteq> [] then
                 config\<lparr>cfg_tls := Some \<lparr>tls_mode = File, tls_acme = None,
                   tls_file = Some \<lparr>fc_watch = True, fc_poll_interval_secs = 30, fc_certs = certs\<rparr>\<rparr>\<rparr>
               else config) in
        Ok (config\<lparr>cfg_upstreams := upstreams, cfg_routes := rs,
              cfg_streams := (case stream of Some s \<Rightarrow> [s] | None \<Rightarrow> [])\<rparr>)))"

section \<open>What is rendered\<close>

text \<open>The rules of accepted routes that have an address, in the order of rendering.\<close>

type_synonym rendered_rule = "HTTPRoute \<times> nat \<times> HTTPRouteRule"

definition rule_has_addrs :: "GatewayState \<Rightarrow> rendered_rule \<Rightarrow> bool" where
  "rule_has_addrs self = (\<lambda>(route, _, rule).
     rule_backend_addrs self (namespace_or_default (hr_metadata route)) rule \<noteq> [])"

definition accepted_rules :: "GatewayState \<Rightarrow> rendered_rule list" where
  "accepted_rules self =
     concat (map (\<lambda>(_, route).
       if http_route_is_accepted route then map (Pair route) (enumerate 0 (hrs_rules (hr_spec route))) else [])
       (sorted_entries (gss_http_routes self)))"

definition rendered_rules :: "GatewayState \<Rightarrow> rendered_rule list" where
  "rendered_rules self = filter (rule_has_addrs self) (accepted_rules self)"

definition rule_name :: "rendered_rule \<Rightarrow> string" where
  "rule_name = (\<lambda>(route, i, _).
     rule_upstream_name (namespace_or_default (hr_metadata route)) (http_route_name route) i)"

definition timeout_of :: "rendered_rule \<Rightarrow> u64 option" where
  "timeout_of = (\<lambda>(_, _, rule). case rule_timeout rule of Inr t \<Rightarrow> t | Inl _ \<Rightarrow> None)"

definition rule_configs :: "rendered_rule \<Rightarrow> RouteConfig list" where
  "rule_configs x = rule_route_configs (fst x) (rule_name x) (timeout_of x) (snd (snd x))"

definition rule_upstream :: "GatewayState \<Rightarrow> rendered_rule \<Rightarrow> UpstreamConfig" where
  "rule_upstream self = (\<lambda>(route, _, rule).
     \<lparr>uc_backends = rule_backend_addrs self (namespace_or_default (hr_metadata route)) rule,
      uc_strategy = RoundRobin, uc_health_check = None\<rparr>)"

definition rule_timeout_ok :: "rendered_rule \<Rightarrow> bool" where
  "rule_timeout_ok = (\<lambda>(_, _, rule). is_ok (rule_timeout rule))"

lemma render_http_rule_eq:
  "render_http_rule self (fst x) (snd x) (us, rs) =
     (if rule_has_addrs self x then
        if rule_timeout_ok x then Ok (bt_insert (rule_name x) (rule_upstream self x) us, rs @ rule_configs x)
        else Err BadStringIndex
      else Ok (us, rs))"
proof -
  obtain route i rule where x: "x = (route, i, rule)" by (cases x)
  have e: "e = BadStringIndex" for e by (cases e) simp
  show ?thesis
    by (cases "rule_timeout rule")
       (auto simp: x render_http_rule_def Let_def rule_has_addrs_def rule_timeout_ok_def is_ok_def rule_name_def
         rule_upstream_def rule_configs_def timeout_of_def intro: e)
qed

lemma try_fold_render:
  "try_fold (\<lambda>x. render_http_rule self (fst x) (snd x)) xs (us, rs) =
     (if list_all rule_timeout_ok (filter (rule_has_addrs self) xs) then
        Ok (fold (\<lambda>x. bt_insert (rule_name x) (rule_upstream self x)) (filter (rule_has_addrs self) xs) us,
            rs @ concat (map rule_configs (filter (rule_has_addrs self) xs)))
      else Err BadStringIndex)"
  by (induction xs arbitrary: us rs) (auto simp: render_http_rule_eq simp del: split_paired_All)

lemma render_http_routes_eq:
  "render_http_routes self =
     (if list_all rule_timeout_ok (rendered_rules self) then
        Ok (fold (\<lambda>x. bt_insert (rule_name x) (rule_upstream self x)) (rendered_rules self) [],
            concat (map rule_configs (rendered_rules self)))
      else Err BadStringIndex)"
proof -
  let ?step = "\<lambda>x. render_http_rule self (fst x) (snd x)"
  let ?rules = "\<lambda>(_, route).
     if http_route_is_accepted route then map (Pair route) (enumerate 0 (hrs_rules (hr_spec route))) else []"
  have "render_http_route self = (\<lambda>e. try_fold ?step (?rules e))"
    by (auto simp: fun_eq_iff render_http_route_def try_fold_map)
  then have "render_http_routes self = try_fold ?step (accepted_rules self) ([], [])"
    by (simp add: render_http_routes_def accepted_rules_def try_fold_concat)
  then show ?thesis by (simp add: try_fold_render rendered_rules_def)
qed

lemma mem_rendered_rules:
  "(route, i, rule) \<in> set (rendered_rules self) \<longleftrightarrow>
     route \<in> snd ` set (gss_http_routes self) \<and> http_route_is_accepted route \<and>
     i < length (hrs_rules (hr_spec route)) \<and> rule = hrs_rules (hr_spec route) ! i \<and> rule_has_addrs self (route, i, rule)"
proof -
  have "(route, i, rule) \<in> set (accepted_rules self) \<longleftrightarrow>
      (\<exists>e\<in>set (gss_http_routes self). route = snd e \<and> http_route_is_accepted (snd e) \<and>
        (i, rule) \<in> set (enumerate 0 (hrs_rules (hr_spec (snd e)))))"
    unfolding accepted_rules_def set_concat set_map set_sorted_entries UN_iff image_image
    by (intro bex_cong refl) (auto simp: split_def)
  then show ?thesis by (auto simp: rendered_rules_def in_set_enumerate_eq)
qed

lemma fold_bt_insert_keys:
  "fst ` set (fold (\<lambda>x. bt_insert (k x) (v x)) xs m) = fst ` set m \<union> k ` set xs"
  by (induction xs arbitrary: m) (auto simp: set_fst_bt_insert)

lemma fold_bt_insert_ok: "bt_ok m \<Longrightarrow> bt_ok (fold (\<lambda>x. bt_insert (k x) (v x)) xs m)"
  by (induction xs arbitrary: m) auto

lemma fold_bt_insert_values:
  "bt_ok m \<Longrightarrow> snd ` set (fold (\<lambda>x. bt_insert (k x) (v x)) xs m) \<subseteq> snd ` set m \<union> v ` set xs"
proof (induction xs arbitrary: m)
  case (Cons x xs)
  then have "snd ` set (fold (\<lambda>x. bt_insert (k x) (v x)) xs (bt_insert (k x) (v x) m)) \<subseteq>
      snd ` set (bt_insert (k x) (v x) m) \<union> v ` set xs" by simp
  also have "\<dots> \<subseteq> snd ` set m \<union> v ` set (x # xs)"
    by (auto simp: bt_insert_set [OF Cons.prems])
  finally show ?case by simp
qed simp

lemma fold_bt_insert_get:
  assumes "distinct (map k xs)" "x \<in> set xs"
  shows "hm_get (fold (\<lambda>x. bt_insert (k x) (v x)) xs m) (k x) = Some (v x)"
proof -
  have other: "hm_get (fold (\<lambda>x. bt_insert (k x) (v x)) ys m) y = hm_get m y" if "y \<notin> k ` set ys" for ys m y
    using that by (induction ys arbitrary: m) (auto simp: hm_get_bt_insert)
  show ?thesis using assms
  proof (induction xs arbitrary: m)
    case (Cons y ys)
    then show ?case by (cases "x \<in> set ys") (simp_all add: other hm_get_bt_insert)
  qed simp
qed

lemma match_paths_some: "match_paths m = Some (path, pref) \<Longrightarrow> path \<noteq> None \<or> pref \<noteq> None"
  by (auto simp: match_paths_def split: option.splits PathMatchType.splits)

definition config_shape :: "string \<Rightarrow> u64 option \<Rightarrow> RouteConfig \<Rightarrow> bool" where
  "config_shape upstream timeout r =
     (rc_upstream r = upstream \<and> rc_timeout r = timeout \<and> rc_tls r = None \<and> rc_filters r = None \<and>
      has_match (rc_match_rules r))"

lemma match_config_shape: "list_all (config_shape upstream timeout) (match_route_config route upstream timeout im)"
proof -
  obtain i m where im: "im = (i, m)" by (cases im)
  show ?thesis
  proof (cases "match_paths m")
    case None
    then show ?thesis by (simp add: im match_route_config_def)
  next
    case (Some pp)
    obtain path pref where pp: "pp = (path, pref)" by (cases pp)
    from match_paths_some Some pp have "path \<noteq> None \<or> pref \<noteq> None" by blast
    with Some pp show ?thesis by (auto simp: im match_route_config_def Let_def config_shape_def has_match_def)
  qed
qed

lemma rule_configs_shape: "r \<in> set (rule_configs x) \<Longrightarrow> config_shape (rule_name x) (timeout_of x) r"
  using match_config_shape [of "rule_name x" "timeout_of x" "fst x"]
  by (auto simp: rule_configs_def rule_route_configs_def list_all_iff config_shape_def has_match_def split: if_splits)

section \<open>Certificates and streams\<close>

lemma fold_preserves: "P s \<Longrightarrow> (\<And>x s. P s \<Longrightarrow> P (f x s)) \<Longrightarrow> P (fold f xs s)"
  by (induction xs arbitrary: s) auto

definition certs_ok :: "cert_map \<Rightarrow> bool" where
  "certs_ok certs = (bt_ok certs \<and> list_all (\<lambda>(_, c). fcc_domains c \<noteq> []) certs)"

lemma cert_of_ref_ok:
  assumes "certs_ok certs"
  shows "certs_ok (cert_of_ref self ns l r certs)"
proof -
  have "certs_ok (bt_entry k d (add_domain h) certs)" for k d h
    using assms by (auto simp: certs_ok_def bt_entry_def list_all_iff bt_insert_set add_domain_def)
  with assms show ?thesis by (simp add: cert_of_ref_def Let_def split: option.split prod.split)
qed

lemma certs_of_gateway_ok: "certs_ok certs \<Longrightarrow> certs_ok (certs_of_gateway self e certs)"
  unfolding certs_of_gateway_def Let_def split_def
  by (erule fold_preserves) (auto simp: cert_of_ref_ok fold_preserves split: option.split)

lemma certs_have_domains: "c \<in> set (tls_certs self) \<Longrightarrow> fcc_domains c \<noteq> []"
proof -
  have "certs_ok (fold (certs_of_gateway self) es [])" for es
    by (rule fold_preserves) (simp_all add: certs_of_gateway_ok, simp add: certs_ok_def)
  from this [of "sorted_entries (gss_gateways self)"]
  show "c \<in> set (tls_certs self) \<Longrightarrow> fcc_domains c \<noteq> []"
    by (auto simp: tls_certs_def certs_ok_def list_all_iff)
qed

text \<open>The backends of accepted stream routes, and the claims of TLS routes on server names, in order.\<close>

definition tls_backends :: "GatewayState \<Rightarrow> (TLSRoute \<times> BackendRef) list" where
  "tls_backends self =
     concat (map (\<lambda>(_, route). if tls_route_is_accepted route then map (Pair route) (TLSRoute_backend_refs route) else [])
       (sorted_entries (gss_tls_routes self)))"

definition tcp_backends :: "GatewayState \<Rightarrow> (TCPRoute \<times> BackendRef) list" where
  "tcp_backends self =
     concat (map (\<lambda>(_, route). if tcp_route_is_accepted route then map (Pair route) (TCPRoute_backend_refs route) else [])
       (sorted_entries (gss_tcp_routes self)))"

definition tls_upstream_name :: "TLSRoute \<times> BackendRef \<Rightarrow> string" where
  "tls_upstream_name = (\<lambda>(route, b). stream_upstream_name (namespace_or_default (lr_metadata route)) b)"

definition backend_claims :: "TLSRoute \<times> BackendRef \<Rightarrow> (string \<times> string) list" where
  "backend_claims x = map (\<lambda>h. (h, tls_upstream_name x)) (lrs_hostnames (lr_spec (fst x)))"

definition tls_claims :: "GatewayState \<Rightarrow> (string \<times> string) list" where
  "tls_claims self = concat (map backend_claims (tls_backends self))"

definition catch_alls :: "GatewayState \<Rightarrow> string list" where
  "catch_alls self =
     map tls_upstream_name (filter (\<lambda>(route, _). lrs_hostnames (lr_spec route) = []) (tls_backends self))"

definition stream_servers :: "GatewayState \<Rightarrow> StreamUpstreamConfig list" where
  "stream_servers self =
     map (\<lambda>(route, b). \<lparr>su_name = tls_upstream_name (route, b),
         su_servers = backend_servers self (namespace_or_default (lr_metadata route)) 443 b\<rparr>) (tls_backends self) @
     map (\<lambda>(route, b). \<lparr>su_name = stream_upstream_name (namespace_or_default (tr_metadata route)) b,
         su_servers = backend_servers self (namespace_or_default (tr_metadata route)) 9000 b\<rparr>) (tcp_backends self)"

lemma fold_fold_concat: "fold (\<lambda>x. fold f (g x)) xs s = fold f (concat (map g xs)) s"
  by (induction xs arbitrary: s) auto

lemma fold_map_Pair: "fold (\<lambda>x. f (fst x) (snd x)) (map (Pair r) bs) s = fold (f r) bs s"
  by (induction bs arbitrary: s) auto

lemma stream_routes_flat:
  "stream_routes self =
     fold (\<lambda>x. render_tcp_backend self (fst x) (snd x)) (tcp_backends self)
       (fold (\<lambda>x. render_tls_backend self (fst x) (snd x)) (tls_backends self)
         \<lparr>sa_sni_routes_ordered = [], sa_stream_upstreams = [], sa_sni_owner = [], sa_catch_all_upstream = None\<rparr>)"
proof -
  have "render_tls_route self = (\<lambda>e. fold (\<lambda>x. render_tls_backend self (fst x) (snd x))
      (case e of (_, route) \<Rightarrow>
         if tls_route_is_accepted route then map (Pair route) (TLSRoute_backend_refs route) else []))"
    by (auto simp: fun_eq_iff render_tls_route_def TLSRoute_backend_refs_def fold_fold_concat fold_map_Pair)
  moreover have "render_tcp_route self = (\<lambda>e. fold (\<lambda>x. render_tcp_backend self (fst x) (snd x))
      (case e of (_, route) \<Rightarrow>
         if tcp_route_is_accepted route then map (Pair route) (TCPRoute_backend_refs route) else []))"
    by (auto simp: fun_eq_iff render_tcp_route_def TCPRoute_backend_refs_def fold_fold_concat fold_map_Pair)
  ultimately show ?thesis
    by (simp add: stream_routes_def tls_backends_def tcp_backends_def fold_fold_concat)
qed

text \<open>After the claims \<^verbatim>\<open>ps\<close> every name belongs to its first claimant.\<close>

definition owners_ok :: "(string \<times> string) list \<Rightarrow> stream_acc \<Rightarrow> bool" where
  "owners_ok ps acc \<longleftrightarrow>
     map_of (sa_sni_routes_ordered acc) = map_of ps \<and> distinct (map fst (sa_sni_routes_ordered acc)) \<and>
     hm_get (sa_sni_owner acc) = map_of ps \<and> set (sa_sni_routes_ordered acc) \<subseteq> set ps"

lemma claim_owners: "owners_ok ps acc \<Longrightarrow> owners_ok (ps @ [(h, u)]) (claim_hostname u h acc)"
proof (cases "map_of ps h")
  case None
  assume ok: "owners_ok ps acc"
  with None have "h \<notin> fst ` set (sa_sni_routes_ordered acc)" by (auto simp: owners_ok_def map_of_eq_None_iff [symmetric])
  with ok None show ?thesis
    by (auto simp: owners_ok_def claim_hostname_def hm_get_bt_insert fun_eq_iff map_add_def split: option.split)
next
  case (Some v)
  assume "owners_ok ps acc"
  with Some show ?thesis
    by (auto simp: owners_ok_def claim_hostname_def fun_eq_iff map_add_def split: option.split)
qed

lemma claims_owners:
  "owners_ok ps acc \<Longrightarrow> owners_ok (ps @ map (\<lambda>h. (h, u)) hs) (fold (claim_hostname u) hs acc)"
proof (induction hs arbitrary: ps acc)
  case (Cons h hs)
  from Cons.IH [OF claim_owners [OF Cons.prems]] show ?case by simp
qed simp

lemma claims_keep:
  "sa_stream_upstreams (fold (claim_hostname u) hs acc) = sa_stream_upstreams acc"
  "sa_catch_all_upstream (fold (claim_hostname u) hs acc) = sa_catch_all_upstream acc"
  by (induction hs arbitrary: acc) (simp_all add: claim_hostname_def split: option.split)

lemma tls_fold:
  fixes self :: GatewayState and bs :: "(TLSRoute \<times> BackendRef) list"
  defines "acc \<equiv> fold (\<lambda>x. render_tls_backend self (fst x) (snd x)) bs
    \<lparr>sa_sni_routes_ordered = [], sa_stream_upstreams = [], sa_sni_owner = [], sa_catch_all_upstream = None\<rparr>"
  shows "owners_ok (concat (map backend_claims bs)) acc"
    "sa_stream_upstreams acc = map (\<lambda>(route, b). \<lparr>su_name = tls_upstream_name (route, b),
       su_servers = backend_servers self (namespace_or_default (lr_metadata route)) 443 b\<rparr>) bs"
    "sa_catch_all_upstream acc =
       first_of (map tls_upstream_name (filter (\<lambda>(route, _). lrs_hostnames (lr_spec route) = []) bs))"
  unfolding acc_def
proof (induction bs rule: rev_induct)
  case Nil
  {
    case 1 then show ?case by (simp add: owners_ok_def hm_get_def fun_eq_iff)
  next
    case 2 then show ?case by simp
  next
    case 3 then show ?case by (simp add: first_of_def)
  }
next
  case (snoc x bs)
  obtain route b where x: "x = (route, b)" by (cases x)
  note [simp] = x render_tls_backend_def Let_def backend_claims_def tls_upstream_name_def claims_keep
  {
    case 1
    have "owners_ok ps (acc\<lparr>sa_stream_upstreams := us\<rparr>)" if "owners_ok ps acc" for ps acc us
      using that by (simp add: owners_ok_def)
    moreover have "owners_ok ps (acc\<lparr>sa_catch_all_upstream := ca\<rparr>)" if "owners_ok ps acc" for ps acc ca
      using that by (simp add: owners_ok_def)
    ultimately show ?case using snoc(1) by (simp add: claims_owners)
  next
    case 2
    show ?case using snoc(2) by simp
  next
    case 3
    show ?case using snoc(3) by (simp add: first_of_def split: list.splits)
  }
qed

lemma tcp_fold:
  "fold (\<lambda>x. render_tcp_backend self (fst x) (snd x)) bs acc =
     acc\<lparr>sa_stream_upstreams := sa_stream_upstreams acc @
       map (\<lambda>(route, b). \<lparr>su_name = stream_upstream_name (namespace_or_default (tr_metadata route)) b,
         su_servers = backend_servers self (namespace_or_default (tr_metadata route)) 9000 b\<rparr>) bs\<rparr>"
  by (induction bs arbitrary: acc) (auto simp: render_tcp_backend_def Let_def)

lemma stream_routes_facts:
  "owners_ok (tls_claims self) (stream_routes self)"
  "sa_stream_upstreams (stream_routes self) = stream_servers self"
  "sa_catch_all_upstream (stream_routes self) = first_of (catch_alls self)"
  unfolding stream_routes_flat tcp_fold
  using tls_fold [where self = self and bs = "tls_backends self"]
  by (simp_all add: tls_claims_def stream_servers_def catch_alls_def owners_ok_def)

lemma bt_collect_subset: "set (bt_collect kvs) \<subseteq> set kvs"
proof -
  have insert: "set (bt_insert k v m) \<subseteq> insert (k, v) (set m)" for k :: 'a and v :: 'b and m
    by (induction k v m rule: bt_insert.induct) auto
  have "set (fold (\<lambda>(k, v). bt_insert k v) kvs m) \<subseteq> set m \<union> set kvs" for m :: "('a, 'b) hashmap"
  proof (induction kvs arbitrary: m)
    case (Cons kv kvs)
    from Cons.IH [of "bt_insert (fst kv) (snd kv) m"] insert [of "fst kv" "snd kv" m] show ?case
      by (auto simp: split_def)
  qed simp
  from this [of "[]"] show ?thesis by (simp add: bt_collect_def)
qed

lemma bt_collect_sorted:
  assumes "distinct (map fst kvs)"
  shows "hm_get (bt_collect (sort_key fst kvs)) = map_of kvs"
proof -
  have "mset (map fst (rev (sort_key fst kvs))) = mset (map fst kvs)" by (metis mset_map mset_rev mset_sort)
  then have "distinct (map fst (rev (sort_key fst kvs)))" using assms mset_eq_imp_distinct_iff by blast
  then show ?thesis unfolding hm_get_bt_collect using assms by (subst map_of_inject_set) simp_all
qed

lemma show_nat_0: "show_nat 0 = ''0''"
  by code_simp

lemma stream_config_facts:
  assumes "stream_config self ls = Some s"
  shows "st_upstreams s = stream_servers self" "st_default_upstream s = first_of (catch_alls self)"
    "hm_get (st_sni_routes s) = map_of (tls_claims self)" "set (st_sni_routes s) \<subseteq> set (tls_claims self)"
    "parse_socket_addr (st_listen s) \<noteq> None" "trim (st_name s) \<noteq> []"
proof -
  let ?acc = "stream_routes self"
  obtain k l rest where l: "ls = (k, l) # rest" using assms by (auto simp: stream_config_def Let_def split: if_splits list.splits)
  have s: "st_upstreams s = sa_stream_upstreams ?acc" "st_default_upstream s = sa_catch_all_upstream ?acc"
    "st_sni_routes s = bt_collect (sort_key fst (sa_sni_routes_ordered ?acc))"
    "st_name s = ''stream-'' @ show_nat (unat (ln_port l))" "st_listen s = show_socket_addr (any_addr (ln_port l))"
    using assms by (auto simp: l stream_config_def Let_def any_addr_def show_nat_0 split: if_splits)
  from stream_routes_facts [of self] s(1,2) show "st_upstreams s = stream_servers self"
    "st_default_upstream s = first_of (catch_alls self)" by simp_all
  from stream_routes_facts(1) [of self] show "hm_get (st_sni_routes s) = map_of (tls_claims self)"
    by (simp add: s(3) owners_ok_def bt_collect_sorted)
  show "set (st_sni_routes s) \<subseteq> set (tls_claims self)"
    using stream_routes_facts(1) [of self] bt_collect_subset [of "sort_key fst (sa_sni_routes_ordered ?acc)"]
    by (auto simp: s(3) owners_ok_def)
  show "parse_socket_addr (st_listen s) \<noteq> None" by (simp add: s(5) parse_show_socket_addr)
  show "trim (st_name s) \<noteq> []" by (simp add: s(4) trim_empty_iff trim_start_no_ws strip_ws_def)
qed

lemma stream_names:
  "snd ` set (tls_claims self) \<subseteq> su_name ` set (stream_servers self)"
  "set (catch_alls self) \<subseteq> su_name ` set (stream_servers self)"
proof -
  have names: "tls_upstream_name ` set (tls_backends self) \<subseteq> su_name ` set (stream_servers self)"
    by (simp add: stream_servers_def image_Un image_image split_def)
  have "snd ` set (tls_claims self) \<subseteq> tls_upstream_name ` set (tls_backends self)"
    by (auto simp: tls_claims_def backend_claims_def)
  from subset_trans [OF this names] show "snd ` set (tls_claims self) \<subseteq> su_name ` set (stream_servers self)" .
  have "set (catch_alls self) \<subseteq> tls_upstream_name ` set (tls_backends self)"
    by (auto simp: catch_alls_def)
  from subset_trans [OF this names] show "set (catch_alls self) \<subseteq> su_name ` set (stream_servers self)" .
qed

lemma stream_config_wf:
  assumes "stream_config self ls = Some s"
  shows "stream_wf s \<longleftrightarrow> stream_servers self \<noteq> [] \<and> (\<forall>u\<in>set (stream_servers self). su_servers u \<noteq> [])"
proof -
  have "first_of xs = Some d \<Longrightarrow> d \<in> set xs" for xs :: "string list" and d by (auto simp: first_of_def split: list.splits)
  then have "d \<in> su_name ` set (st_upstreams s)" if "st_default_upstream s = Some d" for d
    using that stream_names(2) [of self] unfolding stream_config_facts(1,2) [OF assms] by blast
  moreover have "snd ` set (st_sni_routes s) \<subseteq> su_name ` set (st_upstreams s)"
    using image_mono [OF stream_config_facts(4) [OF assms], of snd] stream_names(1) [of self]
    unfolding stream_config_facts(1) [OF assms] by (rule subset_trans)
  ultimately show ?thesis unfolding stream_wf_def stream_config_facts(1) [OF assms] by blast
qed

section \<open>The generated configuration\<close>

definition stream_listeners :: "GatewayState \<Rightarrow> listener_entry list" where
  "stream_listeners self = snd (snd (bucket_listeners (sorted_entries (gss_gateways self))))"

lemma generate_config_eq:
  "is_ok (generate_config self) \<longleftrightarrow> list_all rule_timeout_ok (rendered_rules self)"
  by (simp add: generate_config_def Let_def render_http_routes_eq split_def is_ok_def)

lemma generate_config_Ok:
  assumes "generate_config self = Ok c"
  shows "cfg_logging c = LoggingConfig_default" "cfg_routes c = concat (map rule_configs (rendered_rules self))"
    "cfg_upstreams c = fold (\<lambda>x. bt_insert (rule_name x) (rule_upstream self x)) (rendered_rules self) []"
    "cfg_tls c = (if tls_certs self = [] then None else
       Some \<lparr>tls_mode = File, tls_acme = None,
         tls_file = Some \<lparr>fc_watch = True, fc_poll_interval_secs = 30, fc_certs = tls_certs self\<rparr>\<rparr>)"
    "cfg_streams c = (case stream_config self (stream_listeners self) of Some s \<Rightarrow> [s] | None \<Rightarrow> [])"
  using assms
  by (auto simp: generate_config_def Let_def render_http_routes_eq split_def stream_listeners_def Config_default_def
      split: if_splits)

lemma rendered_route_wf:
  assumes "generate_config self = Ok c" "x \<in> set (rendered_rules self)" "r \<in> set (rule_configs x)"
  shows "route_wf c r \<longleftrightarrow> timeout_of x = None"
proof -
  have "rule_name x \<in> fst ` set (cfg_upstreams c)"
    using assms(2) by (simp add: generate_config_Ok [OF assms(1)] fold_bt_insert_keys)
  with rule_configs_shape [OF assms(3)] show ?thesis by (simp add: route_wf_def config_shape_def)
qed

lemma generated_upstreams_nonempty:
  assumes "generate_config self = Ok c" "u \<in> snd ` set (cfg_upstreams c)"
  shows "uc_backends u \<noteq> []"
proof -
  from assms(2) have "u \<in> rule_upstream self ` set (rendered_rules self)"
    using fold_bt_insert_values [of "[]" rule_name "rule_upstream self" "rendered_rules self"]
    by (auto simp: generate_config_Ok [OF assms(1)])
  then show ?thesis by (auto simp: rendered_rules_def rule_has_addrs_def rule_upstream_def)
qed

lemma generated_tls_wf:
  assumes "generate_config self = Ok c" "cfg_tls c = Some t"
  shows "tls_wf t"
proof -
  have "filter (\<lambda>c. fcc_domains c = []) (tls_certs self) = []"
    using certs_have_domains by (auto simp: filter_empty_conv)
  with assms show ?thesis
    by (auto simp: generate_config_Ok(4) [OF assms(1)] tls_wf_def split: if_splits)
qed

lemma generated_streams_wf:
  assumes "generate_config self = Ok c"
  shows "streams_wf (cfg_streams c) \<longleftrightarrow>
    (cfg_streams c \<noteq> [] \<longrightarrow> stream_servers self \<noteq> [] \<and> (\<forall>u\<in>set (stream_servers self). su_servers u \<noteq> []))"
proof (cases "stream_config self (stream_listeners self)")
  case (Some s)
  with stream_config_facts [OF Some] stream_config_wf [OF Some] show ?thesis
    by (simp add: generate_config_Ok [OF assms] streams_wf_def)
qed (simp add: generate_config_Ok [OF assms] streams_wf_def)

text \<open>
  C31: Validation of a generated configuration. The proxy's own validation accepts what the generator
  emits exactly when no rendered rule carries a request timeout and, if a stream listener is
  emitted, some accepted TLS or TCP route has a backend and no such backend is a service whose
  endpoints are known and empty. Every other condition of the validation always holds: upstreams are
  defined and not empty, every route has a match, certificates have domains, the stream's name and
  address are well formed, and its server names and default refer to upstreams it defines.
\<close>

theorem generated_config_valid_iff:
  assumes "generate_config self = Ok c"
  shows "validate c = Ok () \<longleftrightarrow>
    (\<forall>x\<in>set (rendered_rules self). rule_configs x \<noteq> [] \<longrightarrow> timeout_of x = None) \<and>
    (cfg_streams c \<noteq> [] \<longrightarrow>
       stream_servers self \<noteq> [] \<and> (\<forall>u\<in>set (stream_servers self). su_servers u \<noteq> []))"
proof -
  have "(\<forall>r\<in>set (cfg_routes c). route_wf c r) \<longleftrightarrow>
      (\<forall>x\<in>set (rendered_rules self). \<forall>r\<in>set (rule_configs x). route_wf c r)"
    by (auto simp: generate_config_Ok [OF assms])
  also have "\<dots> \<longleftrightarrow> (\<forall>x\<in>set (rendered_rules self). rule_configs x \<noteq> [] \<longrightarrow> timeout_of x = None)"
  proof (intro ball_cong refl)
    fix x assume "x \<in> set (rendered_rules self)"
    from rendered_route_wf [OF assms this]
    show "(\<forall>r\<in>set (rule_configs x). route_wf c r) \<longleftrightarrow> (rule_configs x \<noteq> [] \<longrightarrow> timeout_of x = None)"
      by (cases "rule_configs x") auto
  qed
  finally have rs: "(\<forall>r\<in>set (cfg_routes c). route_wf c r) \<longleftrightarrow>
    (\<forall>x\<in>set (rendered_rules self). rule_configs x \<noteq> [] \<longrightarrow> timeout_of x = None)" .
  have "rc_tls r = None" if "r \<in> set (cfg_routes c)" for r
    using that rule_configs_shape by (fastforce simp: generate_config_Ok [OF assms] config_shape_def)
  then show ?thesis
    unfolding validate_iff config_wf_def rs generated_streams_wf [OF assms]
    using generated_upstreams_nonempty [OF assms] generated_tls_wf [OF assms]
    by (auto simp: generate_config_Ok(1) [OF assms] logging_wf_def LoggingConfig_default_def AccessLogConfig_default_def
        LogFilesConfig_default_def)
qed


text \<open>
  When the rendered rules have different upstream names, every rendered route leads to the
  backends of its own rule.
\<close>

theorem rendered_rule_backends:
  assumes "generate_config self = Ok c" "distinct (map rule_name (rendered_rules self))"
    "x \<in> set (rendered_rules self)" "r \<in> set (rule_configs x)"
  shows "hm_get (cfg_upstreams c) (rc_upstream r) = Some (rule_upstream self x)"
  using rule_configs_shape [OF assms(4)] assms(2,3)
  by (simp add: generate_config_Ok [OF assms(1)] config_shape_def fold_bt_insert_get)

text \<open>
  C33: The server names of the generated stream listener. A name leads to the first upstream that
  claims it, in the order of route keys, rules and backends of the accepted TLSRoutes, and the default is
  the first backend of an accepted TLSRoute without hostnames.
\<close>

theorem stream_names_first_claim:
  assumes "generate_config self = Ok c" "s \<in> set (cfg_streams c)"
  shows "hm_get (st_sni_routes s) h = map_of (tls_claims self) h \<and>
    st_default_upstream s = first_of (catch_alls self)"
proof -
  from assms(2) have "stream_config self (stream_listeners self) = Some s"
    by (auto simp: generate_config_Ok [OF assms(1)] split: option.splits)
  from stream_config_facts [OF this] show ?thesis by simp
qed

text \<open>
  C34: A stream listener generated for TCPRoutes alone serves nobody: without an accepted TLSRoute the
  router of the generated stream selects no upstream, whatever the client sends, although the
  backends of the TCPRoutes are among its upstreams.
\<close>

theorem tcp_routes_alone_unserved:
  assumes "generate_config self = Ok c" "s \<in> set (cfg_streams c)"
    "\<forall>route\<in>snd ` set (gss_tls_routes self). \<not> tls_route_is_accepted route"
  shows "match_sni (SniRouter_new (st_sni_routes s) (st_default_upstream s)) sni = None \<and>
    st_upstreams s = stream_servers self"
proof -
  from assms(2) have s: "stream_config self (stream_listeners self) = Some s"
    by (auto simp: generate_config_Ok [OF assms(1)] split: option.splits)
  have none: "tls_backends self = []" using assms(3) by (auto simp: tls_backends_def)
  have "set (st_sni_routes s) = {}" "st_default_upstream s = None"
    using stream_config_facts(2,4) [OF s] none by (simp_all add: tls_claims_def catch_alls_def first_of_def)
  then show ?thesis using stream_config_facts(1) [OF s]
    by (simp add: match_sni_spec sni_spec_def exact_entry_def wildcard_entry_def pattern_entry_def split: option.split)
qed

section \<open>Independence of iteration order\<close>

definition same_state :: "GatewayState \<Rightarrow> GatewayState \<Rightarrow> bool" where
  "same_state s t =
     (same_map (gss_gateways s) (gss_gateways t) \<and> same_map (gss_http_routes s) (gss_http_routes t) \<and>
      same_map (gss_tcp_routes s) (gss_tcp_routes t) \<and> same_map (gss_tls_routes s) (gss_tls_routes t) \<and>
      same_map (gss_service_endpoints s) (gss_service_endpoints t) \<and>
      same_map (gss_tls_secrets s) (gss_tls_secrets t))"

lemma same_map_empty: "same_map m m' \<Longrightarrow> m = [] \<longleftrightarrow> m' = []"
  unfolding same_map_def by (metis set_empty)

lemma same_state_parts:
  assumes "same_state s t"
  shows "backend_servers s = backend_servers t" "cert_of_ref s = cert_of_ref t"
proof -
  from assms have eqs: "hm_get (gss_service_endpoints s) = hm_get (gss_service_endpoints t)"
    "hm_get (gss_tls_secrets s) = hm_get (gss_tls_secrets t)"
    by (simp_all add: same_state_def same_map_get)
  show "backend_servers s = backend_servers t" "cert_of_ref s = cert_of_ref t"
    unfolding backend_servers_def [abs_def] cert_of_ref_def [abs_def] eqs by (rule refl)+
qed

lemma same_state_config:
  assumes "same_state s t"
  shows "generate_config s = generate_config t"
proof -
  note parts = same_state_parts [OF assms]
  have sorted: "sorted_entries (gss_gateways s) = sorted_entries (gss_gateways t)"
    "sorted_entries (gss_http_routes s) = sorted_entries (gss_http_routes t)"
    "sorted_entries (gss_tcp_routes s) = sorted_entries (gss_tcp_routes t)"
    "sorted_entries (gss_tls_routes s) = sorted_entries (gss_tls_routes t)"
    using assms by (simp_all add: same_state_def sorted_entries_perm)
  have empty: "gss_tcp_routes s = [] \<longleftrightarrow> gss_tcp_routes t = []" "gss_tls_routes s = [] \<longleftrightarrow> gss_tls_routes t = []"
    using assms by (simp_all add: same_state_def same_map_empty)
  have "render_http_route s = render_http_route t"
    unfolding render_http_route_def render_http_rule_def [abs_def] rule_backend_addrs_def parts by (rule refl)
  moreover have "certs_of_gateway s = certs_of_gateway t" unfolding certs_of_gateway_def parts by (rule refl)
  moreover have "render_tls_route s = render_tls_route t" "render_tcp_route s = render_tcp_route t"
    unfolding render_tls_route_def render_tls_backend_def [abs_def] render_tcp_route_def render_tcp_backend_def [abs_def]
      parts by (rule refl)+
  ultimately have "render_http_routes s = render_http_routes t" "tls_certs s = tls_certs t"
    "stream_config s = stream_config t"
    unfolding render_http_routes_def tls_certs_def stream_config_def [abs_def] stream_routes_def
    by (simp_all only: sorted empty)
  then show ?thesis unfolding generate_config_def sorted by (simp only:)
qed

text \<open>
  The generated configuration does not depend on the order in which the hash maps of the state
  enumerate their entries.
\<close>

theorem generate_config_deterministic:
  assumes "same_state s t"
  shows "generate_config s = generate_config t"
  using assms by (rule same_state_config)

section \<open>Examples\<close>

definition gen_meta :: "string \<Rightarrow> string \<Rightarrow> ObjectMeta" where
  "gen_meta ns n = ObjectMeta_default\<lparr>meta_namespace := Some ns, meta_name := Some n\<rparr>"

definition gen_parents :: "RouteParentStatus list" where
  "gen_parents =
     [\<lparr>rps_parent_ref = \<lparr>pr_group = GATEWAY_API_GROUP, pr_kind = ''Gateway'', pr_namespace = None, pr_name = ''gw'',
         pr_section_name = None, pr_port = None\<rparr>,
       rps_controller_name = WICKET_CONTROLLER_NAME,
       rps_conditions = [Condition_new ''now'' ''Accepted'' True ''Accepted'' []]\<rparr>]"

definition gen_backend :: "string \<Rightarrow> BackendRef" where
  "gen_backend n = \<lparr>br_group = [], br_kind = ''Service'', br_name = n, br_namespace = None, br_port = Some 80, br_weight = 1\<rparr>"

definition gen_http_route :: "string \<Rightarrow> string \<Rightarrow> string option \<Rightarrow> HTTPRoute" where
  "gen_http_route ns n timeout =
     \<lparr>hr_metadata = gen_meta ns n,
      hr_spec = \<lparr>hrs_parent_refs = [], hrs_hostnames = [],
        hrs_rules = [\<lparr>hrr_name = None, hrr_matches = [], hrr_filters = [],
          hrr_backend_refs = [\<lparr>hbr_backend_ref = gen_backend ''web'', hbr_filters = []\<rparr>],
          hrr_timeouts = Some \<lparr>hrt_request = timeout, hrt_backend_request = None\<rparr>\<rparr>]\<rparr>,
      hr_status = Some \<lparr>hrst_parents = gen_parents\<rparr>\<rparr>"

definition gen_listener :: "ProtocolType \<Rightarrow> u16 \<Rightarrow> Listener" where
  "gen_listener protocol port = \<lparr>ln_name = ''l'', ln_hostname = None, ln_port = port, ln_protocol = protocol,
     ln_tls = None, ln_allowed_routes = None\<rparr>"

definition gen_gateway :: Gateway where
  "gen_gateway = \<lparr>gw_metadata = gen_meta ''a'' ''gw'',
     gw_spec = \<lparr>gs_gateway_class_name = ''wicket'', gs_listeners = [gen_listener HTTP 80, gen_listener TCP 90], gs_addresses = [],
       gs_infrastructure = None\<rparr>, gw_status = None\<rparr>"

definition gen_tls_route :: "string \<Rightarrow> string list \<Rightarrow> TLSRoute" where
  "gen_tls_route n hosts = \<lparr>lr_metadata = gen_meta ''a'' n,
     lr_spec = \<lparr>lrs_parent_refs = [], lrs_hostnames = hosts,
       lrs_rules = [\<lparr>lrr_name = None, lrr_backend_refs = [gen_backend (''svc-'' @ n)]\<rparr>]\<rparr>,
     lr_status = Some \<lparr>lrst_parents = gen_parents\<rparr>\<rparr>"

definition gen_tcp_route :: TCPRoute where
  "gen_tcp_route = \<lparr>tr_metadata = gen_meta ''a'' ''t'',
     tr_spec = \<lparr>trs_parent_refs = [], trs_rules = [\<lparr>trr_name = None, trr_backend_refs = [gen_backend ''db'']\<rparr>]\<rparr>,
     tr_status = Some \<lparr>trst_parents = gen_parents\<rparr>\<rparr>"

definition gen_state :: "(string, HTTPRoute) hashmap \<Rightarrow> (string, TLSRoute) hashmap \<Rightarrow> GatewayState" where
  "gen_state https tlss =
     \<lparr>gss_gateways = [(''a/gw'', gen_gateway)], gss_http_routes = https, gss_tcp_routes = [(''a/t'', gen_tcp_route)],
      gss_tls_routes = tlss, gss_service_endpoints = [], gss_tls_secrets = []\<rparr>"

definition gen_two_routes :: GatewayState where
  "gen_two_routes =
     gen_state [(''a/b-c'', gen_http_route ''a'' ''b-c'' None), (''a/d'', gen_http_route ''a'' ''d'' None)]
       [(''a/x'', gen_tls_route ''x'' [''one.example'']), (''a/w'', gen_tls_route ''w'' [''one.example''])]"

lemma gen_two_routes_ok: "is_ok (generate_config gen_two_routes)"
  by code_simp

theorem generated_config_valid_iff_witness:
  "\<exists>c. generate_config gen_two_routes = Ok c \<and> cfg_routes c \<noteq> [] \<and> validate c = Ok ()"
proof -
  obtain c where c: "generate_config gen_two_routes = Ok c" using gen_two_routes_ok unfolding is_ok_iff ..
  have "list_all (\<lambda>x. timeout_of x = None) (rendered_rules gen_two_routes)" by code_simp
  moreover have "stream_servers gen_two_routes \<noteq> []" by code_simp
  moreover have "list_all (\<lambda>u. su_servers u \<noteq> []) (stream_servers gen_two_routes)" by code_simp
  ultimately have "validate c = Ok ()" unfolding generated_config_valid_iff [OF c] list_all_iff by simp
  moreover have "list_ex (\<lambda>x. rule_configs x \<noteq> []) (rendered_rules gen_two_routes)" by code_simp
  ultimately show ?thesis using c by (auto simp: generate_config_Ok [OF c] list_ex_iff)
qed

theorem rendered_rule_backends_witness:
  "\<exists>c. generate_config gen_two_routes = Ok c \<and>
     hm_get (cfg_upstreams c) ''a-d-rule0'' = Some (rule_upstream gen_two_routes (rendered_rules gen_two_routes ! 1))"
proof -
  obtain c where c: "generate_config gen_two_routes = Ok c" using gen_two_routes_ok unfolding is_ok_iff ..
  have d: "distinct (map rule_name (rendered_rules gen_two_routes))" by code_simp
  have n: "1 < length (rendered_rules gen_two_routes)" by code_simp
  have r: "rule_configs (rendered_rules gen_two_routes ! 1) \<noteq> []" by code_simp
  have u: "rc_upstream (hd (rule_configs (rendered_rules gen_two_routes ! 1))) = ''a-d-rule0''" by code_simp
  from rendered_rule_backends [OF c d nth_mem [OF n] hd_in_set [OF r]] c u show ?thesis by auto
qed

definition generated_streams :: "GatewayState \<Rightarrow> StreamConfig list" where
  "generated_streams self = (case generate_config self of Inl _ \<Rightarrow> [] | Inr c \<Rightarrow> cfg_streams c)"

theorem stream_names_first_claim_witness:
  "\<exists>c s. generate_config gen_two_routes = Ok c \<and> s \<in> set (cfg_streams c) \<and>
     hm_get (st_sni_routes s) ''one.example'' = Some ''a-svc-w''"
proof -
  obtain c where c: "generate_config gen_two_routes = Ok c" using gen_two_routes_ok unfolding is_ok_iff ..
  have "generated_streams gen_two_routes \<noteq> []" by code_simp
  then obtain s where s: "s \<in> set (cfg_streams c)" by (cases "cfg_streams c") (auto simp: generated_streams_def c)
  have "map_of (tls_claims gen_two_routes) ''one.example'' = Some ''a-svc-w''" by code_simp
  with stream_names_first_claim [OF c s, of "''one.example''"] c s show ?thesis by auto
qed

definition gen_tcp_only :: GatewayState where
  "gen_tcp_only = gen_state [] []"

lemma gen_tcp_only_ok: "is_ok (generate_config gen_tcp_only)"
  by code_simp

theorem tcp_routes_alone_unserved_witness:
  "\<exists>c s. generate_config gen_tcp_only = Ok c \<and> s \<in> set (cfg_streams c) \<and> st_upstreams s \<noteq> [] \<and>
     match_sni (SniRouter_new (st_sni_routes s) (st_default_upstream s)) (Some ''db.example'') = None"
proof -
  obtain c where c: "generate_config gen_tcp_only = Ok c" using gen_tcp_only_ok unfolding is_ok_iff ..
  have "generated_streams gen_tcp_only \<noteq> []" by code_simp
  then obtain s where s: "s \<in> set (cfg_streams c)" by (cases "cfg_streams c") (auto simp: generated_streams_def c)
  have "stream_servers gen_tcp_only \<noteq> []" by code_simp
  moreover have "\<forall>route\<in>snd ` set (gss_tls_routes gen_tcp_only). \<not> tls_route_is_accepted route"
    by (simp add: gen_tcp_only_def gen_state_def)
  ultimately show ?thesis using tcp_routes_alone_unserved [OF c s] c s by auto
qed

definition reverse_state :: "GatewayState \<Rightarrow> GatewayState" where
  "reverse_state s = s\<lparr>gss_http_routes := rev (gss_http_routes s), gss_tls_routes := rev (gss_tls_routes s)\<rparr>"

theorem generate_config_deterministic_witness:
  "generate_config gen_two_routes = generate_config (reverse_state gen_two_routes)"
proof (rule generate_config_deterministic)
  show "same_state gen_two_routes (reverse_state gen_two_routes)"
    by (simp add: same_state_def same_map_def gen_two_routes_def gen_state_def reverse_state_def hm_ok_def insert_commute)
qed

text \<open>
  Upstream names join namespace and route name with a hyphen, which both may contain: the routes of
  two namespaces can name one upstream, and then both lead to the backends of the later one.
\<close>

definition gen_collision :: GatewayState where
  "gen_collision =
     gen_state [(''a/b-c'', gen_http_route ''a'' ''b-c'' None), (''a-b/c'', gen_http_route ''a-b'' ''c'' None)] []"

theorem upstream_names_collide:
  "case generate_config gen_collision of
     Inl _ \<Rightarrow> False
   | Inr c \<Rightarrow>
       map rc_upstream (cfg_routes c) = [''a-b-c-rule0'', ''a-b-c-rule0''] \<and>
       map_option uc_backends (hm_get (cfg_upstreams c) ''a-b-c-rule0'') = Some [''web.a.svc.cluster.local:80'']"
  by code_simp

text \<open>Durations: the unit multiplies modulo \<open>2 ^ 64\<close>, and a unit that is not ASCII is a panic.\<close>

theorem duration_wraps:
  "parse_duration_to_secs ''5124095576030432h'' = Ok (Some 3584) \<and>
   parse_duration_to_secs [CHR ''5'', CHR 0xC2, CHR 0xB5] = Err BadStringIndex"
proof -
  have "trim ''5124095576030432h'' = ''5124095576030432h''"
    "trim [CHR ''5'', CHR 0xC2, CHR 0xB5] = [CHR ''5'', CHR 0xC2, CHR 0xB5]" by code_simp+
  moreover have "parse_u64 ''5124095576030432'' = Some 5124095576030432"
    by (simp add: parse_u64_def parse_unsigned_def to_digit_def)
  ultimately show ?thesis by (simp add: parse_duration_to_secs_def is_char_boundary_byte_def Let_def)
qed

end
