(* ===== verification/Runtime_Plan.thy ===== *)
theory Runtime_Plan
  imports Attachment_Planner Config_Generator
begin

text \<open>
  The planner for managed Gateways (\<^verbatim>\<open>crates/wicket-controller/src/reconcilers/runtime_plan.rs\<close>):
  names of owned objects, service ports, listener status intents, the configuration scoped to one
  Gateway, revision hashes, and the plan with its change signals. SHA-256 (\<^verbatim>\<open>sha2\<close>), the TOML printer
  (\<^verbatim>\<open>toml\<close>) and the JSON printer (\<^verbatim>\<open>serde_json\<close>) are arguments, collected in a record. Lemmas: lengths and
  injectivity of names, the ports of a Service, which shapes a revision tells apart, replanning
  after an apply, independence of iteration order, and convergence of a rollout.
\<close>

section \<open>Libraries\<close>

datatype json =
  JString string
| JNumber int
| JArray "json list"
| JObject "(string \<times> json) list"

record libs =
  lib_sha256 :: "u8 list \<Rightarrow> u8 list"
  lib_toml_to_string_pretty :: "Config \<Rightarrow> string + string"
  lib_json_to_string :: "json \<Rightarrow> string + string"

datatype plan_failure = Panicked panic | Failed PlanError

text \<open>\<^verbatim>\<open>&s[..n]\<close>.\<close>

definition str_prefix :: "nat \<Rightarrow> string \<Rightarrow> panic + string" where
  "str_prefix n s =
     (if n = length s \<or> n < length s \<and> is_char_boundary_byte (s ! n) then Ok (take n s) else Err BadStringIndex)"

definition as_bytes :: "string \<Rightarrow> u8 list" where
  "as_bytes s = map (\<lambda>c. of_nat (of_char c)) s"

definition hex2 :: "u8 \<Rightarrow> string" where
  "hex2 b = (let s = show_radix 16 (unat b) in if length s < 2 then ''0'' @ s else s)"

section \<open>Names\<close>

definition OBJECT_NAME_PREFIX :: string where
  "OBJECT_NAME_PREFIX = ''wicket-gw-''"

definition MAX_BASE_NAME_LEN :: nat where
  "MAX_BASE_NAME_LEN = 52"

definition sha256_hex :: "libs \<Rightarrow> string \<Rightarrow> string" where
  "sha256_hex L d = concat (map hex2 (lib_sha256 L (as_bytes d)))"

definition hex6 :: "libs \<Rightarrow> string \<Rightarrow> panic + string" where
  "hex6 L d = str_prefix 6 (sha256_hex L d)"

definition owned_object_base_name :: "libs \<Rightarrow> string \<Rightarrow> panic + string" where
  "owned_object_base_name L gateway_name =
     (let full = OBJECT_NAME_PREFIX @ gateway_name in
      if length full \<le> MAX_BASE_NAME_LEN then Ok full
      else
        (let available = MAX_BASE_NAME_LEN - 7;
             prefix_len = length OBJECT_NAME_PREFIX in
         and_then (str_prefix (available - prefix_len) gateway_name) (\<lambda>gw_truncated.
         and_then (hex6 L full) (\<lambda>hash6.
         Ok (OBJECT_NAME_PREFIX @ gw_truncated @ ''-'' @ hash6)))))"

definition config_map_name :: "string \<Rightarrow> string" where
  "config_map_name base = base @ ''-config''"

definition deployment_name :: "string \<Rightarrow> string" where
  "deployment_name base = base @ ''-deploy''"

definition service_name :: "string \<Rightarrow> string" where
  "service_name base = base @ ''-svc''"

definition service_account_name :: "string \<Rightarrow> string" where
  "service_account_name base = base @ ''-sa''"

section \<open>Configuration and observed state\<close>

record ControllerConfig =
  cc_proxy_image :: string
  cc_default_replicas :: u32
  cc_default_service_type :: ServiceType
  cc_default_resources :: labels
  cc_default_node_selector :: labels

definition ControllerConfig_default :: ControllerConfig where
  "ControllerConfig_default =
     \<lparr>cc_proxy_image = ''ghcr.io/geverding/wicket:latest'', cc_default_replicas = 1,
      cc_default_service_type = ClusterIP, cc_default_resources = [], cc_default_node_selector = []\<rparr>"

definition ControllerConfig_new :: "string \<Rightarrow> u32 \<Rightarrow> ServiceType \<Rightarrow> string + ControllerConfig" where
  "ControllerConfig_new proxy_image default_replicas default_service_type =
     (if default_replicas = 0 then Err ''default_replicas must be >= 1''
      else if default_replicas > 2147483647 then
        Err (''default_replicas '' @ show_nat (unat default_replicas) @ '' exceeds i32::MAX (2147483647)'')
      else Ok \<lparr>cc_proxy_image = proxy_image, cc_default_replicas = default_replicas,
        cc_default_service_type = default_service_type, cc_default_resources = [], cc_default_node_selector = []\<rparr>)"

record ObservedRuntimeState =
  ors_current_config_hash :: "string option"
  ors_current_spec_hash :: "string option"
  ors_ready_replicas :: "u32 option"
  ors_deploy_observed_generation :: "int option"
  ors_deploy_generation :: "int option"
  ors_updated_replicas :: "u32 option"
  ors_available_replicas :: "u32 option"
  ors_desired_replicas :: "u32 option"

definition ObservedRuntimeState_default :: ObservedRuntimeState where
  "ObservedRuntimeState_default =
     \<lparr>ors_current_config_hash = None, ors_current_spec_hash = None, ors_ready_replicas = None,
      ors_deploy_observed_generation = None, ors_deploy_generation = None, ors_updated_replicas = None,
      ors_available_replicas = None, ors_desired_replicas = None\<rparr>"

definition is_rollout_converged :: "ObservedRuntimeState \<Rightarrow> bool" where
  "is_rollout_converged obs =
     (case ors_deploy_observed_generation obs of None \<Rightarrow> False | Some deploy_obs_gen \<Rightarrow>
      case ors_deploy_generation obs of None \<Rightarrow> False | Some deploy_gen \<Rightarrow>
      case ors_updated_replicas obs of None \<Rightarrow> False | Some updated \<Rightarrow>
      case ors_available_replicas obs of None \<Rightarrow> False | Some available \<Rightarrow>
      case ors_desired_replicas obs of None \<Rightarrow> False | Some desired \<Rightarrow>
      case ors_ready_replicas obs of None \<Rightarrow> False | Some ready \<Rightarrow>
        if deploy_obs_gen < deploy_gen then False
        else if updated < desired then False
        else if desired = 0 then True
        else if available < 1 then False
        else if ready < 1 then False
        else True)"

record RuntimePlanInput =
  rpi_gateway_namespace :: string
  rpi_gateway_name :: string
  rpi_snapshot :: PlannerSnapshot
  rpi_controller_config :: ControllerConfig
  rpi_observed :: ObservedRuntimeState

section \<open>Plans\<close>

definition tls_mount_dir :: "string \<Rightarrow> string" where
  "tls_mount_dir secret_name = ''/etc/wicket/tls/'' @ secret_name"

record TlsSecretMount =
  tsm_secret_name :: string
  tsm_secret_namespace :: string
  tsm_mount_path :: string

record GatewayRuntimePlan =
  grp_gateway_namespace :: string
  grp_gateway_name :: string
  grp_gateway_uid :: string
  grp_gateway_generation :: int
  grp_owned_object_base_name :: string
  grp_config_map_name :: string
  grp_deployment_name :: string
  grp_service_name :: string
  grp_service_account_name :: string
  grp_config_hash :: string
  grp_spec_hash :: string
  grp_config_toml :: string
  grp_runtime_metadata :: RuntimeMetadata
  grp_service_type :: ServiceType
  grp_service_ports :: "ServicePortSpec list"
  grp_tls_secret_mounts :: "TlsSecretMount list"
  grp_listener_statuses :: "ListenerStatusIntent list"
  grp_config_changed :: bool
  grp_spec_changed :: bool

definition is_noop :: "GatewayRuntimePlan \<Rightarrow> bool" where
  "is_noop self = (\<not> grp_config_changed self \<and> \<not> grp_spec_changed self)"

section \<open>Revision of the applied shape\<close>

definition labels_json :: "labels \<Rightarrow> json" where
  "labels_json m = JObject (map (\<lambda>(k, v). (k, JString v)) m)"

definition port_json :: "ServicePortSpec \<Rightarrow> json" where
  "port_json p =
     JObject [(''name'', JString (sps_name p)), (''port'', JNumber (uint (sps_port p))),
       (''protocol'', JString (sps_protocol p)), (''target_port'', JNumber (uint (sps_target_port p)))]"

definition mount_json :: "TlsSecretMount \<Rightarrow> json" where
  "mount_json m =
     JObject [(''mount_path'', JString (tsm_mount_path m)), (''secret_name'', JString (tsm_secret_name m)),
       (''secret_namespace'', JString (tsm_secret_namespace m))]"

definition apply_shape ::
  "RuntimeMetadata \<Rightarrow> ServiceType \<Rightarrow> ServicePortSpec list \<Rightarrow> TlsSecretMount list \<Rightarrow> json" where
  "apply_shape metadata service_type service_ports tls_secret_mounts =
     (let svc_type_str = (case service_type of ClusterIP \<Rightarrow> ''ClusterIP'' | LoadBalancer \<Rightarrow> ''LoadBalancer''
            | NodePort \<Rightarrow> ''NodePort'');
          ports_repr = JArray (map port_json service_ports) in
      if tls_secret_mounts = [] then
        JObject [(''image'', JString (rmd_image metadata)), (''node_selector'', labels_json (rmd_node_selector metadata)),
          (''replicas'', JNumber (uint (rmd_replicas metadata))), (''resources'', labels_json (rmd_resources metadata)),
          (''service_ports'', ports_repr), (''service_type'', JString svc_type_str)]
      else
        JObject [(''image'', JString (rmd_image metadata)), (''node_selector'', labels_json (rmd_node_selector metadata)),
          (''replicas'', JNumber (uint (rmd_replicas metadata))), (''resources'', labels_json (rmd_resources metadata)),
          (''service_ports'', ports_repr), (''service_type'', JString svc_type_str),
          (''tls_secret_mounts'', JArray (map mount_json tls_secret_mounts))])"

definition spec_hash_of ::
  "libs \<Rightarrow> RuntimeMetadata \<Rightarrow> ServiceType \<Rightarrow> ServicePortSpec list \<Rightarrow> TlsSecretMount list \<Rightarrow> PlanError + string" where
  "spec_hash_of L metadata service_type service_ports tls_secret_mounts =
     (case lib_json_to_string L (apply_shape metadata service_type service_ports tls_secret_mounts) of
        Inl e \<Rightarrow> Err (InvalidInput (''failed to serialize apply shape for hashing: '' @ e))
      | Inr json \<Rightarrow> Ok (sha256_hex L json))"

section \<open>Service ports\<close>

datatype ServicePortError = DuplicateListenerName string | DuplicatePortProtocol u16 string

fun show_ServicePortError :: "ServicePortError \<Rightarrow> string" where
  "show_ServicePortError (DuplicateListenerName name) = ''duplicate listener name: '' @ name"
| "show_ServicePortError (DuplicatePortProtocol port protocol) =
     ''duplicate service port collision: '' @ protocol @ '':'' @ show_nat (unat port)"

fun check_names :: "string set \<Rightarrow> Listener list \<Rightarrow> ServicePortError + unit" where
  "check_names seen_names [] = Ok ()"
| "check_names seen_names (l # ls) =
     (if ln_name l \<in> seen_names then Err (DuplicateListenerName (ln_name l))
      else check_names (insert (ln_name l) seen_names) ls)"

fun collect_ports :: "(u16 \<times> string) set \<Rightarrow> Listener list \<Rightarrow> ServicePortSpec list" where
  "collect_ports seen_port_proto [] = []"
| "collect_ports seen_port_proto (l # ls) =
     (if ln_protocol l = UDP then collect_ports seen_port_proto ls
      else if (ln_port l, ''TCP'') \<in> seen_port_proto then collect_ports seen_port_proto ls
      else
        \<lparr>sps_name = ln_name l, sps_port = ln_port l, sps_target_port = ln_port l, sps_protocol = ''TCP''\<rparr> #
        collect_ports (insert (ln_port l, ''TCP'') seen_port_proto) ls)"

definition service_ports_from_listeners :: "Gateway \<Rightarrow> ServicePortError + ServicePortSpec list" where
  "service_ports_from_listeners gateway =
     and_then (check_names {} (gw_listeners gateway)) (\<lambda>_. Ok (collect_ports {} (gw_listeners gateway)))"

section \<open>Listener status intents\<close>

fun protocol_supported_kinds :: "ProtocolType \<Rightarrow> RouteGroupKind list" where
  "protocol_supported_kinds HTTP = [\<lparr>rgk_group = GATEWAY_API_GROUP, rgk_kind = ''HTTPRoute''\<rparr>]"
| "protocol_supported_kinds HTTPS = [\<lparr>rgk_group = GATEWAY_API_GROUP, rgk_kind = ''HTTPRoute''\<rparr>]"
| "protocol_supported_kinds TCP = [\<lparr>rgk_group = GATEWAY_API_GROUP, rgk_kind = ''TCPRoute''\<rparr>]"
| "protocol_supported_kinds TLS = [\<lparr>rgk_group = GATEWAY_API_GROUP, rgk_kind = ''TLSRoute''\<rparr>]"
| "protocol_supported_kinds UDP = []"

definition route_group_kind_matches :: "RouteGroupKind \<Rightarrow> RouteGroupKind \<Rightarrow> bool" where
  "route_group_kind_matches requested supported =
     ((rgk_group requested = [] \<or> rgk_group requested = GATEWAY_API_GROUP) \<and>
      rgk_kind requested = rgk_kind supported \<and> rgk_group supported = GATEWAY_API_GROUP)"

definition listener_status_intent :: "Listener \<Rightarrow> ListenerStatusIntent" where
  "listener_status_intent listener =
     (let controller_supported_kinds = protocol_supported_kinds (ln_protocol listener) in
      if ln_protocol listener = UDP then
        \<lparr>lsi_name = ln_name listener, lsi_attached_routes = 0, lsi_supported_kinds = [], lsi_accepted = False,
         lsi_rejection_reason = Some ''UnsupportedProtocol: UDP listeners are not supported by this controller'',
         lsi_resolved_refs = True, lsi_resolved_refs_reason = None\<rparr>
      else
        (let requested_kinds = (case ln_allowed_routes listener of Some ar \<Rightarrow> ar_kinds ar | None \<Rightarrow> []);
             supported_kinds =
               (if requested_kinds = [] then controller_supported_kinds
                else filter (\<lambda>supported. list_ex (\<lambda>requested. route_group_kind_matches requested supported) requested_kinds)
                       controller_supported_kinds);
             invalid_route_kinds =
               (requested_kinds \<noteq> [] \<and>
                list_ex (\<lambda>requested. \<not> list_ex (\<lambda>supported. route_group_kind_matches requested supported)
                           controller_supported_kinds) requested_kinds);
             supported_kinds = (if requested_kinds = [] then controller_supported_kinds else supported_kinds) in
         \<lparr>lsi_name = ln_name listener, lsi_attached_routes = 0, lsi_supported_kinds = supported_kinds,
          lsi_accepted = True, lsi_rejection_reason = None, lsi_resolved_refs = (\<not> invalid_route_kinds),
          lsi_resolved_refs_reason = (if invalid_route_kinds then Some ''InvalidRouteKinds'' else None)\<rparr>))"

definition listener_status_intents :: "Gateway \<Rightarrow> ListenerStatusIntent list" where
  "listener_status_intents gateway = map listener_status_intent (gw_listeners gateway)"

definition enrich_intent :: "AttachmentPlan \<Rightarrow> ListenerStatusIntent \<Rightarrow> ListenerStatusIntent" where
  "enrich_intent ap intent =
     (if lsi_accepted intent then
        (let intent = (case listener_summary ap (lsi_name intent) of
               Some summary \<Rightarrow> intent\<lparr>lsi_attached_routes := las_attached_routes summary\<rparr>
             | None \<Rightarrow> intent) in
         if lsi_resolved_refs intent \<and>
            list_ex (\<lambda>result. resolved_refs_reason (rar_status result) = Some ''RefNotPermitted'')
              (results_for_listener ap (lsi_name intent) True)
         then intent\<lparr>lsi_resolved_refs := False, lsi_resolved_refs_reason := Some ''RefNotPermitted''\<rparr>
         else intent)
      else intent)"

definition listener_status_intents_with_attachment ::
  "Gateway \<Rightarrow> AttachmentPlan option \<Rightarrow> ListenerStatusIntent list" where
  "listener_status_intents_with_attachment gateway attachment_plan =
     (let base = listener_status_intents gateway in
      case attachment_plan of None \<Rightarrow> base | Some ap \<Rightarrow> map (enrich_intent ap) base)"

section \<open>Configuration of one Gateway\<close>

definition scoped_parent_ref :: "string \<Rightarrow> string \<Rightarrow> ObjectMeta \<Rightarrow> ParentReference \<Rightarrow> bool" where
  "scoped_parent_ref gateway_namespace gateway_name metadata p =
     ((pr_group p = [] \<or> pr_group p = ''gateway.networking.k8s.io'') \<and> pr_kind p = ''Gateway'' \<and>
      unwrap_or (pr_namespace p) (namespace_or_default metadata) = gateway_namespace \<and>
      pr_name p = gateway_name)"

definition mount_overrides :: "string \<Rightarrow> Gateway \<Rightarrow> (string, string \<times> string) hashmap" where
  "mount_overrides gateway_namespace gw =
     (let gw_ns = unwrap_or (meta_namespace (gw_metadata gw)) gateway_namespace in
      fold (\<lambda>listener overrides.
        case ln_tls listener of
          None \<Rightarrow> overrides
        | Some tls \<Rightarrow>
            fold (\<lambda>cert_ref overrides.
              let secret_ns = unwrap_or (sr_namespace cert_ref) gw_ns;
                  secret_name = sr_name cert_ref;
                  cert_key = secret_ns @ ''/'' @ secret_name;
                  mount_dir = tls_mount_dir secret_name in
              hm_insert cert_key (mount_dir @ ''/tls.crt'', mount_dir @ ''/tls.key'') overrides)
            (gt_certificate_refs tls) overrides)
      (gw_listeners gw) [])"

definition scoped_state :: "string \<Rightarrow> string \<Rightarrow> PlannerSnapshot \<Rightarrow> GatewayState" where
  "scoped_state gateway_namespace gateway_name snapshot =
     (let gw_key = gateway_namespace @ ''/'' @ gateway_name;
          targets = (\<lambda>meta prs. list_ex (scoped_parent_ref gateway_namespace gateway_name meta) prs) in
      \<lparr>gss_gateways = (case hm_get (ps_gateways snapshot) gw_key of Some gw \<Rightarrow> [(gw_key, gw)] | None \<Rightarrow> []),
       gss_http_routes = filter (\<lambda>(_, r). targets (hr_metadata r) (hrs_parent_refs (hr_spec r))) (ps_http_routes snapshot),
       gss_tcp_routes = filter (\<lambda>(_, r). targets (tr_metadata r) (trs_parent_refs (tr_spec r))) (ps_tcp_routes snapshot),
       gss_tls_routes = filter (\<lambda>(_, r). targets (lr_metadata r) (lrs_parent_refs (lr_spec r))) (ps_tls_routes snapshot),
       gss_service_endpoints = ps_service_endpoints snapshot,
       gss_tls_secrets = (case hm_get (ps_gateways snapshot) gw_key of
           Some gw \<Rightarrow> mount_overrides gateway_namespace gw
         | None \<Rightarrow> [])\<rparr>)"

definition config_toml_from_snapshot ::
  "libs \<Rightarrow> string \<Rightarrow> string \<Rightarrow> PlannerSnapshot \<Rightarrow> plan_failure + string" where
  "config_toml_from_snapshot L gateway_namespace gateway_name snapshot =
     (case generate_config (scoped_state gateway_namespace gateway_name snapshot) of
        Inl p \<Rightarrow> Err (Panicked p)
      | Inr config \<Rightarrow>
          (case lib_toml_to_string_pretty L config of
             Inl e \<Rightarrow> Err (Failed (InvalidInput (''TOML serialization failed for gateway '' @ gateway_namespace @ ''/'' @
                 gateway_name @ '': '' @ e)))
           | Inr toml \<Rightarrow> Ok toml))"

definition config_plan_from_runtime_plan :: "GatewayRuntimePlan \<Rightarrow> ConfigPlan" where
  "config_plan_from_runtime_plan plan =
     (if grp_config_changed plan then ConfigUpdate (grp_config_toml plan) (grp_config_hash plan)
      else ConfigNoOp (grp_config_toml plan) (grp_config_hash plan))"

section \<open>The planner\<close>

text \<open>The mounts of the certificate references, each Secret once, sorted by namespace and name.\<close>

definition mount_of_ref ::
  "string \<Rightarrow> SecretObjectReference \<Rightarrow> (string \<times> string) set \<times> TlsSecretMount list \<Rightarrow>
   (string \<times> string) set \<times> TlsSecretMount list" where
  "mount_of_ref gateway_namespace cert_ref = (\<lambda>(seen, mounts).
     let secret_namespace = unwrap_or (sr_namespace cert_ref) gateway_namespace;
         secret_name = sr_name cert_ref in
     if (secret_namespace, secret_name) \<notin> seen then
       (insert (secret_namespace, secret_name) seen,
        mounts @ [\<lparr>tsm_secret_name = secret_name, tsm_secret_namespace = secret_namespace,
          tsm_mount_path = tls_mount_dir secret_name\<rparr>])
     else (seen, mounts))"

definition mount_cmp :: "TlsSecretMount \<Rightarrow> TlsSecretMount \<Rightarrow> ordering" where
  "mount_cmp a b =
     then_with (cmp (tsm_secret_namespace a) (tsm_secret_namespace b)) (cmp (tsm_secret_name a) (tsm_secret_name b))"

definition tls_secret_mounts :: "string \<Rightarrow> Gateway \<Rightarrow> TlsSecretMount list" where
  "tls_secret_mounts gateway_namespace gateway =
     sort_by mount_cmp
       (snd (fold (\<lambda>listener acc.
          case ln_tls listener of
            None \<Rightarrow> acc
          | Some tls \<Rightarrow> fold (mount_of_ref gateway_namespace) (gt_certificate_refs tls) acc)
        (gw_listeners gateway) ({}, [])))"

definition ok_or :: "'a option \<Rightarrow> 'e \<Rightarrow> 'e + 'a" where
  "ok_or x e = (case x of None \<Rightarrow> Err e | Some v \<Rightarrow> Ok v)"

definition ok_of :: "'e + 'a \<Rightarrow> 'a option" where
  "ok_of r = (case r of Inl _ \<Rightarrow> None | Inr x \<Rightarrow> Some x)"

definition map_err :: "('e \<Rightarrow> 'f) \<Rightarrow> 'e + 'a \<Rightarrow> 'f + 'a" where
  "map_err f r = (case r of Inl e \<Rightarrow> Inl (f e) | Inr x \<Rightarrow> Inr x)"

definition GatewayRuntimePlanner_plan :: "libs \<Rightarrow> RuntimePlanInput \<Rightarrow> plan_failure + GatewayRuntimePlan" where
  "GatewayRuntimePlanner_plan L input =
     (let snapshot = rpi_snapshot input; cc = rpi_controller_config input in
      and_then (ok_or (snapshot_gateway snapshot (rpi_gateway_namespace input) (rpi_gateway_name input))
                 (Failed (MissingField ''gateway (not found in snapshot)''))) (\<lambda>gateway.
      and_then (ok_or (meta_uid (gw_metadata gateway)) (Failed (MissingField ''gateway.metadata.uid''))) (\<lambda>gateway_uid.
      and_then (ok_or (meta_generation (gw_metadata gateway)) (Failed (MissingField ''gateway.metadata.generation'')))
        (\<lambda>gateway_generation.
      and_then (map_err Panicked (owned_object_base_name L (rpi_gateway_name input))) (\<lambda>base_name.
      let runtime_metadata =
            \<lparr>rmd_image = cc_proxy_image cc, rmd_replicas = cc_default_replicas cc,
             rmd_resources = cc_default_resources cc, rmd_node_selector = cc_default_node_selector cc\<rparr>;
          service_type = cc_default_service_type cc in
      and_then (map_err (\<lambda>e. Failed (InvalidInput (show_ServicePortError e))) (service_ports_from_listeners gateway))
        (\<lambda>service_ports.
      let mounts = tls_secret_mounts (rpi_gateway_namespace input) gateway in
      and_then (map_err Failed (spec_hash_of L runtime_metadata service_type service_ports mounts)) (\<lambda>spec_hash.
      and_then (config_toml_from_snapshot L (rpi_gateway_namespace input) (rpi_gateway_name input) snapshot) (\<lambda>config_toml.
      let config_hash = sha256_hex L config_toml;
          attachment_plan_opt = ok_of (AttachmentPlanner_plan
            \<lparr>api_gateway_namespace = rpi_gateway_namespace input, api_gateway_name = rpi_gateway_name input,
             api_gateway_generation = gateway_generation, api_snapshot = snapshot\<rparr>);
          listener_statuses = listener_status_intents_with_attachment gateway attachment_plan_opt;
          config_changed = (case ors_current_config_hash (rpi_observed input) of Some h \<Rightarrow> h \<noteq> config_hash | None \<Rightarrow> True);
          spec_changed = (case ors_current_spec_hash (rpi_observed input) of Some h \<Rightarrow> h \<noteq> spec_hash | None \<Rightarrow> True) in
      Ok \<lparr>grp_gateway_namespace = rpi_gateway_namespace input, grp_gateway_name = rpi_gateway_name input,
          grp_gateway_uid = gateway_uid, grp_gateway_generation = gateway_generation,
          grp_owned_object_base_name = base_name, grp_config_map_name = config_map_name base_name,
          grp_deployment_name = deployment_name base_name, grp_service_name = service_name base_name,
          grp_service_account_name = service_account_name base_name,
          grp_config_hash = config_hash, grp_spec_hash = spec_hash, grp_config_toml = config_toml,
          grp_runtime_metadata = runtime_metadata, grp_service_type = service_type,
          grp_service_ports = service_ports, grp_tls_secret_mounts = mounts,
          grp_listener_statuses = listener_statuses, grp_config_changed = config_changed,
          grp_spec_changed = spec_changed\<rparr>))))))))"

section \<open>Lengths and uniqueness of names\<close>

definition ascii :: "string \<Rightarrow> bool" where
  "ascii s = list_all (\<lambda>c. (of_char c :: nat) < 128) s"

definition sha256_sized :: "libs \<Rightarrow> bool" where
  "sha256_sized L = (\<forall>d. length (lib_sha256 L d) = 32)"

lemma digit_char_ascii: "d < 16 \<Longrightarrow> (of_char (digit_char d) :: nat) < 128"
  by (auto simp: digit_char_def of_char_of)

lemma hex2_shape: "length (hex2 b) = 2 \<and> ascii (hex2 b)"
proof -
  have b: "unat b < 256" using unsigned_less [of b] by simp
  show ?thesis
  proof (cases "unat b < 16")
    case True
    then show ?thesis
      by (simp add: hex2_def Let_def show_radix.simps [of 16 "unat b"] ascii_def digit_char_ascii)
  next
    case False
    with b have "show_radix 16 (unat b) = [digit_char (unat b div 16), digit_char (unat b mod 16)]"
      by (simp add: show_radix.simps [of 16 "unat b"] show_radix.simps [of 16 "unat b div 16"])
    with b show ?thesis by (simp add: hex2_def Let_def ascii_def digit_char_ascii)
  qed
qed

lemma sha256_hex_shape:
  assumes "sha256_sized L"
  shows "length (sha256_hex L d) = 64" "ascii (sha256_hex L d)"
proof -
  have "length (concat (map hex2 bs)) = 2 * length bs" "ascii (concat (map hex2 bs))" for bs
    by (induction bs) (use hex2_shape in \<open>auto simp: ascii_def\<close>)
  then show "length (sha256_hex L d) = 64" "ascii (sha256_hex L d)"
    using assms by (simp_all add: sha256_hex_def sha256_sized_def)
qed

lemma str_prefix_ascii: "ascii s \<Longrightarrow> n \<le> length s \<Longrightarrow> str_prefix n s = Ok (take n s)"
  by (auto simp: str_prefix_def ascii_def list_all_length is_char_boundary_byte_def not_le)

lemma base_name_cases:
  assumes "sha256_sized L" "ascii n"
  shows "owned_object_base_name L n =
    Ok (if length n \<le> 42 then ''wicket-gw-'' @ n
        else ''wicket-gw-'' @ take 35 n @ ''-'' @ take 6 (sha256_hex L (''wicket-gw-'' @ n)))"
  using sha256_hex_shape [OF assms(1)] assms(2)
  by (simp add: owned_object_base_name_def Let_def OBJECT_NAME_PREFIX_def MAX_BASE_NAME_LEN_def hex6_def str_prefix_ascii)

text \<open>
  C35: Names of owned objects fit. For an ASCII Gateway name, and a digest of 32 bytes, the base name exists,
  has at most 52 bytes, and the names derived from it stay below the limit of 63 bytes that
  Kubernetes puts on the names of Services.
\<close>

theorem owned_names_fit:
  assumes "sha256_sized L" "ascii n"
  shows "\<exists>b. owned_object_base_name L n = Ok b \<and> starts_with b OBJECT_NAME_PREFIX \<and> length b \<le> MAX_BASE_NAME_LEN \<and>
    length (config_map_name b) \<le> 63 \<and> length (deployment_name b) \<le> 63 \<and> length (service_name b) \<le> 63 \<and>
    length (service_account_name b) \<le> 63"
  unfolding base_name_cases [OF assms] config_map_name_def deployment_name_def service_name_def service_account_name_def
  using sha256_hex_shape(1) [OF assms(1)]
  by (simp add: starts_with_def OBJECT_NAME_PREFIX_def MAX_BASE_NAME_LEN_def)

text \<open>
  Two Gateways share their owned objects only by a collision. Different ASCII names of at most 42
  bytes have different base names; otherwise one of the two is truncated and either both agree on the
  first 35 bytes and on 24 bits of the digest, or the short one spells out the truncated form of the
  other.
\<close>

theorem shared_base_name:
  assumes "sha256_sized L" "ascii n" "ascii m" "length n \<le> length m" "n \<noteq> m"
    "owned_object_base_name L n = owned_object_base_name L m"
  shows "42 < length m \<and>
    (if length n \<le> 42 then n = take 35 m @ ''-'' @ take 6 (sha256_hex L (''wicket-gw-'' @ m))
     else take 35 n = take 35 m \<and>
       take 6 (sha256_hex L (''wicket-gw-'' @ n)) = take 6 (sha256_hex L (''wicket-gw-'' @ m)))"
proof (cases "length m \<le> 42")
  case True
  then show ?thesis using assms by (simp add: base_name_cases)
next
  case False
  then show ?thesis
    using assms(4,6) unfolding base_name_cases [OF assms(1,2)] base_name_cases [OF assms(1,3)]
    by (auto split: if_splits)
qed

section \<open>Service ports\<close>

lemma check_names_iff:
  "check_names seen ls = Ok () \<longleftrightarrow> distinct (map ln_name ls) \<and> ln_name ` set ls \<inter> seen = {}"
  by (induction ls arbitrary: seen) auto

lemma check_names_Err:
  "check_names seen ls = Err e \<Longrightarrow> \<exists>xs l ys. ls = xs @ l # ys \<and> e = DuplicateListenerName (ln_name l) \<and>
     ln_name l \<in> seen \<union> ln_name ` set xs"
proof (induction ls arbitrary: seen)
  case (Cons l ls)
  show ?case
  proof (cases "ln_name l \<in> seen")
    case True
    with Cons.prems show ?thesis by (intro exI [of _ "[]"] exI [of _ l] exI [of _ ls]) auto
  next
    case False
    with Cons obtain xs k ys where "ls = xs @ k # ys" "e = DuplicateListenerName (ln_name k)"
      "ln_name k \<in> insert (ln_name l) seen \<union> ln_name ` set xs" by fastforce
    then show ?thesis by (intro exI [of _ "l # xs"] exI [of _ k] exI [of _ ys]) auto
  qed
qed simp

lemma collect_ports_ports:
  "sps_port ` set (collect_ports seen ls) = ln_port ` {l \<in> set ls. ln_protocol l \<noteq> UDP \<and> (ln_port l, ''TCP'') \<notin> seen} \<and>
   distinct (map sps_port (collect_ports seen ls))"
proof (induction ls arbitrary: seen)
  case (Cons l ls)
  show ?case
  proof (cases "ln_protocol l = UDP \<or> (ln_port l, ''TCP'') \<in> seen")
    case True
    then have "collect_ports seen (l # ls) = collect_ports seen ls" by auto
    with Cons.IH [of seen] True show ?thesis by auto
  next
    case False
    with Cons.IH [of "insert (ln_port l, ''TCP'') seen"] show ?thesis by auto
  qed
qed simp

lemma collect_ports_spec:
  "p \<in> set (collect_ports seen ls) \<Longrightarrow> sps_target_port p = sps_port p \<and> sps_protocol p = ''TCP'' \<and>
     (\<exists>l\<in>set ls. sps_name p = ln_name l \<and> sps_port p = ln_port l \<and> ln_protocol l \<noteq> UDP)"
  by (induction ls arbitrary: seen) (auto split: if_splits)

lemma collect_ports_names:
  "distinct (map ln_name ls) \<Longrightarrow> distinct (map sps_name (collect_ports seen ls))"
proof (induction ls arbitrary: seen)
  case (Cons l ls)
  have "ln_name l \<notin> sps_name ` set (collect_ports seen' ls)" for seen'
    using Cons.prems collect_ports_spec by fastforce
  with Cons show ?case by simp
qed simp

text \<open>
  C36: The ports of the owned Service are well formed. They exist exactly when listener names are
  distinct, an error names a listener whose name occurs before; otherwise port numbers and port
  names are distinct, every port leads to the same port of the pod over TCP, and the ports are exactly
  those of the listeners that are not UDP.
\<close>

theorem service_ports_wf:
  "case service_ports_from_listeners g of
     Inl e \<Rightarrow> (\<exists>xs l ys. gw_listeners g = xs @ l # ys \<and> ln_name l \<in> ln_name ` set xs \<and>
       e = DuplicateListenerName (ln_name l))
   | Inr ps \<Rightarrow> distinct (map ln_name (gw_listeners g)) \<and> distinct (map sps_port ps) \<and> distinct (map sps_name ps) \<and>
       sps_port ` set ps = ln_port ` {l \<in> set (gw_listeners g). ln_protocol l \<noteq> UDP} \<and>
       list_all (\<lambda>p. sps_target_port p = sps_port p \<and> sps_protocol p = ''TCP'') ps"
proof (cases "check_names {} (gw_listeners g)")
  case (Inl e)
  from check_names_Err [OF Inl] show ?thesis by (auto simp: service_ports_from_listeners_def Inl)
next
  case (Inr u)
  then have "distinct (map ln_name (gw_listeners g))" using check_names_iff [of "{}" "gw_listeners g"] by simp
  then show ?thesis
    using collect_ports_ports [of "{}" "gw_listeners g"] collect_ports_names collect_ports_spec
    by (auto simp: service_ports_from_listeners_def Inr list_all_iff)
qed

section \<open>Plans and revisions\<close>

lemma map_err_Ok_iff: "map_err f r = Inr x \<longleftrightarrow> r = Inr x"
  by (cases r) (simp_all add: map_err_def)

lemma ok_or_Ok_iff: "ok_or x e = Inr v \<longleftrightarrow> x = Some v"
  by (cases x) (simp_all add: ok_or_def)

lemma unseen_iff: "(case x of Some h \<Rightarrow> h \<noteq> v | None \<Rightarrow> True) \<longleftrightarrow> x \<noteq> Some v"
  by (cases x) auto

lemmas plan_Ok_simps = and_then_Ok_iff map_err_Ok_iff ok_or_Ok_iff unseen_iff

lemma plan_Ok_fields:
  assumes "GatewayRuntimePlanner_plan L i = Ok p"
  shows "grp_config_hash p = sha256_hex L (grp_config_toml p)"
    "spec_hash_of L (grp_runtime_metadata p) (grp_service_type p) (grp_service_ports p) (grp_tls_secret_mounts p) =
       Ok (grp_spec_hash p)"
    "grp_config_changed p \<longleftrightarrow> ors_current_config_hash (rpi_observed i) \<noteq> Some (grp_config_hash p)"
    "grp_spec_changed p \<longleftrightarrow> ors_current_spec_hash (rpi_observed i) \<noteq> Some (grp_spec_hash p)"
  using assms by (auto simp: GatewayRuntimePlanner_plan_def Let_def plan_Ok_simps)

text \<open>What is observed only decides the two change signals.\<close>

lemma plan_observed:
  assumes "GatewayRuntimePlanner_plan L i = Ok p"
  shows "GatewayRuntimePlanner_plan L (i\<lparr>rpi_observed := obs\<rparr>) =
    Ok (p\<lparr>grp_config_changed := ors_current_config_hash obs \<noteq> Some (grp_config_hash p),
          grp_spec_changed := ors_current_spec_hash obs \<noteq> Some (grp_spec_hash p)\<rparr>)"
  using assms by (auto simp: GatewayRuntimePlanner_plan_def Let_def plan_Ok_simps)

lemma labels_json_inj: "labels_json m = labels_json m' \<longleftrightarrow> m = m'"
proof -
  have "inj (\<lambda>(k, v). (k, JString v))" by (auto simp: inj_on_def)
  from inj_map_eq_map [OF this, of m m'] show ?thesis unfolding labels_json_def json.inject .
qed

lemma port_json_inj: "port_json p = port_json p' \<longleftrightarrow> p = p'"
  by (cases p; cases p') (auto simp: port_json_def dest: unsigned_word_eqI)

lemma mount_json_inj: "mount_json m = mount_json m' \<longleftrightarrow> m = m'"
  by (cases m; cases m') (auto simp: mount_json_def)

lemma apply_shape_inj:
  "apply_shape m t ps ms = apply_shape m' t' ps' ms' \<longleftrightarrow> m = m' \<and> t = t' \<and> ps = ps' \<and> ms = ms'"
proof -
  have "inj port_json" "inj mount_json" by (auto simp: inj_on_def port_json_inj mount_json_inj)
  moreover have "((case t of ClusterIP \<Rightarrow> ''ClusterIP'' | LoadBalancer \<Rightarrow> ''LoadBalancer'' | NodePort \<Rightarrow> ''NodePort'') =
      (case t' of ClusterIP \<Rightarrow> ''ClusterIP'' | LoadBalancer \<Rightarrow> ''LoadBalancer'' | NodePort \<Rightarrow> ''NodePort'')) \<longleftrightarrow> t = t'"
    by (cases t; cases t') auto
  ultimately show ?thesis
    by (cases m; cases m') (auto simp: apply_shape_def Let_def labels_json_inj inj_map_eq_map dest: unsigned_word_eqI)
qed

text \<open>What is relied on of the libraries: no collision between two texts, and a JSON printer that tells two values apart.\<close>

definition no_collision :: "libs \<Rightarrow> string \<Rightarrow> string \<Rightarrow> bool" where
  "no_collision L a b = (sha256_hex L a = sha256_hex L b \<longrightarrow> a = b)"

definition printed_apart :: "libs \<Rightarrow> json \<Rightarrow> json \<Rightarrow> bool" where
  "printed_apart L x y = (lib_json_to_string L x = lib_json_to_string L y \<longrightarrow> x = y)"

definition shape_of :: "GatewayRuntimePlan \<Rightarrow> json" where
  "shape_of p = apply_shape (grp_runtime_metadata p) (grp_service_type p) (grp_service_ports p) (grp_tls_secret_mounts p)"

text \<open>
  C37: No false no-op. A plan that is a no-op against the revisions another plan left behind has the
  configuration text, runtime metadata, service type, service ports and certificate mounts of that plan, as
  long as the digest has no collision between the texts of the two plans and the JSON printer tells their shapes apart.
\<close>

theorem noop_is_up_to_date:
  assumes "GatewayRuntimePlanner_plan L i = Ok p" "GatewayRuntimePlanner_plan L j = Ok q"
    and "ors_current_config_hash (rpi_observed j) = Some (grp_config_hash p)"
      "ors_current_spec_hash (rpi_observed j) = Some (grp_spec_hash p)"
    and "is_noop q"
    and "no_collision L (grp_config_toml p) (grp_config_toml q)" "printed_apart L (shape_of p) (shape_of q)"
      "\<forall>a b. lib_json_to_string L (shape_of p) = Ok a \<and> lib_json_to_string L (shape_of q) = Ok b \<longrightarrow> no_collision L a b"
  shows "grp_config_toml q = grp_config_toml p \<and> grp_runtime_metadata q = grp_runtime_metadata p \<and>
    grp_service_type q = grp_service_type p \<and> grp_service_ports q = grp_service_ports p \<and>
    grp_tls_secret_mounts q = grp_tls_secret_mounts p"
proof -
  note p = plan_Ok_fields [OF assms(1)] and q = plan_Ok_fields [OF assms(2)]
  from assms(3-5) q(3,4) have same: "grp_config_hash q = grp_config_hash p" "grp_spec_hash q = grp_spec_hash p"
    by (simp_all add: is_noop_def)
  have "sha256_hex L (grp_config_toml p) = sha256_hex L (grp_config_toml q)"
    unfolding p(1) [symmetric] q(1) [symmetric] same(1) ..
  with assms(6) have toml: "grp_config_toml q = grp_config_toml p" unfolding no_collision_def by (rule mp [THEN sym])
  obtain a b where ab: "lib_json_to_string L (shape_of p) = Ok a" "sha256_hex L a = grp_spec_hash p"
    "lib_json_to_string L (shape_of q) = Ok b" "sha256_hex L b = grp_spec_hash q"
    using p(2) q(2) by (auto simp: spec_hash_of_def shape_of_def split: sum.splits)
  have "sha256_hex L a = sha256_hex L b" unfolding ab(2,4) same(2) ..
  moreover have "no_collision L a b" using ab(1,3) assms(8) by blast
  ultimately have "a = b" by (simp add: no_collision_def)
  with ab(1,3) assms(7) have "shape_of p = shape_of q" by (simp add: printed_apart_def)
  with toml show ?thesis by (simp add: shape_of_def apply_shape_inj)
qed

text \<open>
  C38: Planning settles. Once the revisions of a plan are on the owned objects, planning the same
  Gateway again gives the same plan with both change signals off: a no-op, whose configuration plan
  carries the same text and hash without an update.
\<close>

theorem replan_after_apply_is_noop:
  assumes "GatewayRuntimePlanner_plan L i = Ok p"
    "ors_current_config_hash obs = Some (grp_config_hash p)" "ors_current_spec_hash obs = Some (grp_spec_hash p)"
  shows "GatewayRuntimePlanner_plan L (i\<lparr>rpi_observed := obs\<rparr>) =
      Ok (p\<lparr>grp_config_changed := False, grp_spec_changed := False\<rparr>) \<and>
    is_noop (p\<lparr>grp_config_changed := False, grp_spec_changed := False\<rparr>) \<and>
    config_plan_from_runtime_plan (p\<lparr>grp_config_changed := False, grp_spec_changed := False\<rparr>) =
      ConfigNoOp (grp_config_toml p) (grp_config_hash p)"
  using assms by (simp add: plan_observed is_noop_def config_plan_from_runtime_plan_def)

text \<open>When planning fails: exactly one error per missing piece, in this order.\<close>

lemma plan_missing_gateway:
  "snapshot_gateway (rpi_snapshot i) (rpi_gateway_namespace i) (rpi_gateway_name i) = None \<Longrightarrow>
     GatewayRuntimePlanner_plan L i = Err (Failed (MissingField ''gateway (not found in snapshot)''))"
  by (simp add: GatewayRuntimePlanner_plan_def ok_or_def)

lemma rollout_converged_iff:
  "is_rollout_converged obs \<longleftrightarrow>
     (\<exists>og g u a d r. ors_deploy_observed_generation obs = Some og \<and> ors_deploy_generation obs = Some g \<and>
        ors_updated_replicas obs = Some u \<and> ors_available_replicas obs = Some a \<and> ors_desired_replicas obs = Some d \<and>
        ors_ready_replicas obs = Some r \<and> g \<le> og \<and> d \<le> u \<and> (d = 0 \<or> a \<noteq> 0 \<and> r \<noteq> 0))"
  by (auto simp: is_rollout_converged_def not_less split: option.splits)

section \<open>Independence of iteration order\<close>

lemma same_map_filter: "same_map m m' \<Longrightarrow> same_map (filter P m) (filter P m')"
  by (auto simp: same_map_def hm_ok_def distinct_map_filter)

lemma mount_overrides_ok: "hm_ok (mount_overrides ns gw)"
  unfolding mount_overrides_def Let_def
  by (rule fold_preserves) (auto simp: fold_preserves split: option.split)

lemma scoped_state_perm:
  assumes "same_snapshot s t"
  shows "same_state (scoped_state ns n s) (scoped_state ns n t)"
proof -
  have gw: "hm_get (ps_gateways s) = hm_get (ps_gateways t)" using assms by (simp add: same_snapshot_def same_map_get)
  have refl: "same_map m m" if "hm_ok m" for m :: "('a, 'b) hashmap" using that by (simp add: same_map_def)
  have one: "hm_ok [(k, v)]" for k :: 'a and v :: 'b by (simp add: hm_ok_def)
  show ?thesis
    using assms
    by (auto simp: same_state_def scoped_state_def Let_def gw same_snapshot_def same_map_filter refl mount_overrides_ok
        one split: option.split)
qed

definition same_runtime_input :: "RuntimePlanInput \<Rightarrow> RuntimePlanInput \<Rightarrow> bool" where
  "same_runtime_input i j =
     (same_snapshot (rpi_snapshot i) (rpi_snapshot j) \<and> j = i\<lparr>rpi_snapshot := rpi_snapshot j\<rparr>)"

lemma runtime_plan_perm:
  assumes "same_snapshot (rpi_snapshot i) t"
  shows "GatewayRuntimePlanner_plan L (i\<lparr>rpi_snapshot := t\<rparr>) = GatewayRuntimePlanner_plan L i"
proof -
  have gw: "snapshot_gateway t = snapshot_gateway (rpi_snapshot i)"
    using assms same_map_get by (fastforce simp: fun_eq_iff snapshot_gateway_def same_snapshot_def)
  have toml: "config_toml_from_snapshot L ns n t = config_toml_from_snapshot L ns n (rpi_snapshot i)" for ns n
    using same_state_config [OF scoped_state_perm [OF assms, of ns n]] by (simp add: config_toml_from_snapshot_def)
  have "AttachmentPlanner_plan \<lparr>api_gateway_namespace = ns, api_gateway_name = n, api_gateway_generation = g, api_snapshot = t\<rparr> =
      AttachmentPlanner_plan \<lparr>api_gateway_namespace = ns, api_gateway_name = n, api_gateway_generation = g,
        api_snapshot = rpi_snapshot i\<rparr>" for ns n g
    using plan_perm [of "\<lparr>api_gateway_namespace = ns, api_gateway_name = n, api_gateway_generation = g,
        api_snapshot = rpi_snapshot i\<rparr>" t] assms by simp
  then show ?thesis by (simp add: GatewayRuntimePlanner_plan_def Let_def gw toml)
qed

interpretation runtime: planner_contract "GatewayRuntimePlanner_plan L" same_runtime_input for L
proof
  show "GatewayRuntimePlanner_plan L i = GatewayRuntimePlanner_plan L j" if "same_runtime_input i j" for i j
  proof -
    from that have j: "j = i\<lparr>rpi_snapshot := rpi_snapshot j\<rparr>"
      and s: "same_snapshot (rpi_snapshot i) (rpi_snapshot j)" by (simp_all add: same_runtime_input_def)
    show ?thesis by (subst j) (simp add: runtime_plan_perm [OF s])
  qed
qed

text \<open>
  C39: The runtime plan, its hashes included, does not depend on the order in which the hash maps of the
  snapshot enumerate their entries, so a reconcile of an unchanged cluster never changes a
  revision.
\<close>

theorem runtime_plan_deterministic:
  assumes "same_runtime_input i j"
  shows "GatewayRuntimePlanner_plan L i = GatewayRuntimePlanner_plan L j"
  using assms by (rule runtime.deterministic)

section \<open>Examples\<close>

text \<open>
  Libraries for the examples: a digest of 32 bytes, a printer that tells configurations apart by
  the number of their routes, and one that tells JSON values apart by nesting.
\<close>

fun json_text :: "json \<Rightarrow> string" and json_texts :: "json list \<Rightarrow> string" and fields_text :: "(string \<times> json) list \<Rightarrow> string" where
  "json_text (JString s) = ''s'' @ s"
| "json_text (JNumber n) = ''n'' @ show_nat (nat n)"
| "json_text (JArray vs) = ''['' @ json_texts vs @ '']''"
| "json_text (JObject fs) = ''{'' @ fields_text fs @ ''}''"
| "json_texts [] = []"
| "json_texts (v # vs) = json_text v @ '','' @ json_texts vs"
| "fields_text [] = []"
| "fields_text ((k, v) # fs) = k @ '':'' @ json_text v @ '','' @ fields_text fs"

definition example_libs :: libs where
  "example_libs =
     \<lparr>lib_sha256 = (\<lambda>bs. take 32 (bs @ replicate 32 0)),
      lib_toml_to_string_pretty = (\<lambda>c. Ok (''routes = '' @ show_nat (length (cfg_routes c)))),
      lib_json_to_string = (\<lambda>v. Ok (json_text v))\<rparr>"

lemma example_sized: "sha256_sized example_libs"
  by (simp add: sha256_sized_def example_libs_def min_def)

theorem owned_names_fit_witness:
  "\<exists>b. owned_object_base_name example_libs (replicate 60 CHR ''x'') = Ok b \<and> length b \<le> MAX_BASE_NAME_LEN"
proof -
  have "ascii (replicate 60 CHR ''x'')" by code_simp
  from owned_names_fit [OF example_sized this] show ?thesis by auto
qed

text \<open>The example digest only sees the first 32 bytes, so long names with a common start collide.\<close>

theorem shared_base_name_witness:
  "42 < length (replicate 61 CHR ''x'') \<and> take 35 (replicate 60 CHR ''x'') = take 35 (replicate 61 CHR ''x'')"
proof -
  have a: "ascii (replicate 60 CHR ''x'')" "ascii (replicate 61 CHR ''x'')"
    "length (replicate 60 CHR ''x'') \<le> length (replicate 61 CHR ''x'')"
    "replicate 60 CHR ''x'' \<noteq> replicate 61 CHR ''x''" by code_simp+
  have "owned_object_base_name example_libs (replicate 60 CHR ''x'') =
    owned_object_base_name example_libs (replicate 61 CHR ''x'')" by code_simp
  from shared_base_name [OF example_sized a this] show ?thesis by simp
qed

definition example_input :: "(string, HTTPRoute) hashmap \<Rightarrow> RuntimePlanInput" where
  "example_input rs =
     \<lparr>rpi_gateway_namespace = ''infra'', rpi_gateway_name = ''gw'', rpi_snapshot = ex_snapshot rs [],
      rpi_controller_config = ControllerConfig_default, rpi_observed = ObservedRuntimeState_default\<rparr>"

lemma example_plan_ok: "is_ok (GatewayRuntimePlanner_plan example_libs (example_input ex_routes))"
  by code_simp

definition applied :: "GatewayRuntimePlan \<Rightarrow> ObservedRuntimeState" where
  "applied p = ObservedRuntimeState_default\<lparr>ors_current_config_hash := Some (grp_config_hash p),
     ors_current_spec_hash := Some (grp_spec_hash p)\<rparr>"

theorem replan_after_apply_is_noop_witness:
  "\<exists>p q. GatewayRuntimePlanner_plan example_libs (example_input ex_routes) = Ok p \<and> \<not> is_noop p \<and>
     GatewayRuntimePlanner_plan example_libs ((example_input ex_routes)\<lparr>rpi_observed := applied p\<rparr>) = Ok q \<and> is_noop q"
proof -
  obtain p where p: "GatewayRuntimePlanner_plan example_libs (example_input ex_routes) = Ok p"
    using example_plan_ok unfolding is_ok_iff ..
  have "\<not> is_noop p" using plan_Ok_fields(3) [OF p]
    by (simp add: is_noop_def example_input_def ObservedRuntimeState_default_def)
  with replan_after_apply_is_noop [OF p, of "applied p"] p show ?thesis by (auto simp: applied_def)
qed

theorem noop_is_up_to_date_witness:
  "\<exists>p q. GatewayRuntimePlanner_plan example_libs (example_input ex_routes) = Ok p \<and>
     GatewayRuntimePlanner_plan example_libs ((example_input ex_routes)\<lparr>rpi_observed := applied p\<rparr>) = Ok q \<and>
     is_noop q \<and> grp_config_toml q = grp_config_toml p \<and> grp_service_ports q = grp_service_ports p"
proof -
  obtain p where p: "GatewayRuntimePlanner_plan example_libs (example_input ex_routes) = Ok p"
    using example_plan_ok unfolding is_ok_iff ..
  define q where "q = p\<lparr>grp_config_changed := False, grp_spec_changed := False\<rparr>"
  have q: "GatewayRuntimePlanner_plan example_libs ((example_input ex_routes)\<lparr>rpi_observed := applied p\<rparr>) = Ok q"
    by (simp add: plan_observed [OF p] applied_def q_def)
  have "is_noop q" by (simp add: is_noop_def q_def)
  with noop_is_up_to_date [OF p q] p q show ?thesis
    by (simp add: applied_def no_collision_def printed_apart_def shape_of_def q_def)
qed

theorem runtime_plan_deterministic_witness:
  "GatewayRuntimePlanner_plan example_libs (example_input ex_routes) =
     GatewayRuntimePlanner_plan example_libs (example_input (rev ex_routes))"
proof (rule runtime_plan_deterministic)
  show "same_runtime_input (example_input ex_routes) (example_input (rev ex_routes))"
    using ex_same_input by (simp add: same_runtime_input_def same_attachment_input_def example_input_def ex_input_def)
qed

text \<open>
  Secrets of one name in two namespaces are two mounts at one path, and the configuration
  refers to both certificates by that path.
\<close>

definition ex_cert_ref :: "string option \<Rightarrow> SecretObjectReference" where
  "ex_cert_ref ns = \<lparr>sr_group = [], sr_kind = ''Secret'', sr_name = ''cert'', sr_namespace = ns\<rparr>"

definition ex_tls_gateway :: Gateway where
  "ex_tls_gateway = ex_gateway\<lparr>gw_spec := (gw_spec ex_gateway)\<lparr>gs_listeners :=
     [ex_listener\<lparr>ln_protocol := HTTPS, ln_tls := Some \<lparr>gt_mode = Terminate,
        gt_certificate_refs = [ex_cert_ref (Some ''team-a''), ex_cert_ref (Some ''team-b'')], gt_options = None,
        gt_frontend_validation = None\<rparr>\<rparr>]\<rparr>\<rparr>"

theorem secret_mounts_collide:
  "map tsm_secret_namespace (tls_secret_mounts ''infra'' ex_tls_gateway) = [''team-a'', ''team-b''] \<and>
   map tsm_mount_path (tls_secret_mounts ''infra'' ex_tls_gateway) = [''/etc/wicket/tls/cert'', ''/etc/wicket/tls/cert''] \<and>
   remdups (map snd (mount_overrides ''infra'' ex_tls_gateway)) =
     [(''/etc/wicket/tls/cert/tls.crt'', ''/etc/wicket/tls/cert/tls.key'')]"
  by code_simp

text \<open>
  Acceptance is not looked up per parent: a route that one Gateway accepted and another rejected is
  rendered into the configuration of both.
\<close>

definition ex_other_gateway :: Gateway where
  "ex_other_gateway = ex_gateway\<lparr>gw_metadata := ex_meta ''infra'' ''other''\<rparr>"

definition ex_parent_status :: "ParentReference \<Rightarrow> bool \<Rightarrow> RouteParentStatus" where
  "ex_parent_status pr ok = \<lparr>rps_parent_ref = pr, rps_controller_name = WICKET_CONTROLLER_NAME,
     rps_conditions = [Condition_new ''now'' ''Accepted'' ok (if ok then ''Accepted'' else ''NotAllowedByListeners'') []]\<rparr>"

definition ex_half_accepted :: HTTPRoute where
  "ex_half_accepted =
     (let r = ex_http_route ''a'' (ex_backend None ''web''); other = (ex_parent None)\<lparr>pr_name := ''other''\<rparr> in
      r\<lparr>hr_spec := (hr_spec r)\<lparr>hrs_parent_refs := [ex_parent None, other]\<rparr>,
        hr_status := Some \<lparr>hrst_parents = [ex_parent_status (ex_parent None) True, ex_parent_status other False]\<rparr>\<rparr>)"

definition ex_two_gateways :: PlannerSnapshot where
  "ex_two_gateways = (ex_snapshot [(''app/a'', ex_half_accepted)] [])
     \<lparr>ps_gateways := [(''infra/gw'', ex_gateway), (''infra/other'', ex_other_gateway)]\<rparr>"

definition rendered_names :: "string \<Rightarrow> (string option) list" where
  "rendered_names gw = (case generate_config (scoped_state ''infra'' gw ex_two_gateways) of
     Inl _ \<Rightarrow> [] | Inr c \<Rightarrow> map rc_name (cfg_routes c))"

theorem rejected_route_rendered:
  "rendered_names ''other'' = [Some ''app-a-rule0''] \<and> rendered_names ''gw'' = [Some ''app-a-rule0'']"
  by code_simp

end
