(* ===== verification/Kube_Api.thy ===== *)
theory Kube_Api
  imports Runtime_Plan
begin

text \<open>
  The Kubernetes API as the controller uses it. The cluster is a parameter: a type of states and a
  record of calls, each of which may fail and may leave the cluster in another state. The objects are
  the parts of the \<^verbatim>\<open>k8s-openapi\<close> types that the controller reads or writes. A handler is a function
  from the controller's state (cluster, store, in-memory configuration, metrics) to a result and a new
  state; \<^verbatim>\<open>?\<close> is \<^verbatim>\<open>io_try\<close>. Not code of the repository.
\<close>

named_theorems io_simps \<open>execution of handlers\<close>

section \<open>Objects\<close>

record ServicePort =
  svp_name :: "string option"
  svp_port :: int
  svp_target_port :: "int option"
  svp_protocol :: "string option"

record ServiceSpec =
  svs_type :: "string option"
  svs_ports :: "ServicePort list option"
  svs_selector :: "labels option"
  svs_external_ips :: "string list option"
  svs_cluster_ip :: "string option"

type_synonym ingress = "string option \<times> string option"

record K8sService =
  svc_metadata :: ObjectMeta
  svc_spec :: "ServiceSpec option"
  svc_ingress :: "ingress list option"

record ServiceAccount =
  sa_metadata :: ObjectMeta

record ConfigMap =
  cm_metadata :: ObjectMeta
  cm_data :: "labels option"

record ContainerPort =
  ctp_name :: "string option"
  ctp_container_port :: int
  ctp_protocol :: "string option"

datatype VolumeSource = ConfigMapVolume string | SecretVolume string int bool

record Volume =
  vol_name :: string
  vol_source :: VolumeSource

record VolumeMount =
  vm_name :: string
  vm_mount_path :: string
  vm_read_only :: "bool option"

record PodSecurityContext =
  psc_fs_group :: "int option"
  psc_run_as_non_root :: "bool option"
  psc_run_as_user :: "int option"
  psc_run_as_group :: "int option"

record SecurityContext =
  sc_run_as_non_root :: "bool option"
  sc_run_as_user :: "int option"
  sc_run_as_group :: "int option"
  sc_allow_privilege_escalation :: "bool option"
  sc_read_only_root_filesystem :: "bool option"

record ResourceRequirements =
  rr_requests :: "labels option"
  rr_limits :: "labels option"

record Container =
  ct_name :: string
  ct_image :: "string option"
  ct_ports :: "ContainerPort list option"
  ct_volume_mounts :: "VolumeMount list option"
  ct_security_context :: "SecurityContext option"
  ct_env :: "(string \<times> string option) list option"
  ct_resources :: "ResourceRequirements option"

record PodTemplateSpec =
  pt_labels :: "labels option"
  pt_annotations :: "labels option"
  pt_service_account_name :: "string option"
  pt_security_context :: "PodSecurityContext option"
  pt_containers :: "Container list"
  pt_volumes :: "Volume list option"
  pt_node_selector :: "labels option"

record DeploymentSpec =
  ds_replicas :: "int option"
  ds_match_labels :: "labels option"
  ds_template :: PodTemplateSpec

record DeploymentStatus =
  dst_observed_generation :: "int option"
  dst_ready_replicas :: "int option"
  dst_updated_replicas :: "int option"
  dst_available_replicas :: "int option"

record Deployment =
  dep_metadata :: ObjectMeta
  dep_spec :: "DeploymentSpec option"
  dep_status :: "DeploymentStatus option"

text \<open>The addresses of a Node: pairs of type and address.\<close>

record Node =
  node_addresses :: "(string \<times> string) list option"

text \<open>
  An EndpointSlice: the ports of the slice, and per endpoint its addresses and whether it is ready, where stated.
  A Secret: its type and its data.
\<close>

record EndpointSlice =
  eps_metadata :: ObjectMeta
  eps_ports :: "int option list option"
  eps_endpoints :: "(string list \<times> bool option) list"

record Secret =
  sec_metadata :: ObjectMeta
  sec_type :: "string option"
  sec_data :: "(string, u8 list) hashmap option"

datatype kube_kind = KServiceAccount | KConfigMap | KService | KDeployment

datatype k8s_object =
  ServiceAccountObj ServiceAccount
| ConfigMapObj ConfigMap
| ServiceObj K8sService
| DeploymentObj Deployment

fun object_kind :: "k8s_object \<Rightarrow> kube_kind" where
  "object_kind (ServiceAccountObj _) = KServiceAccount"
| "object_kind (ConfigMapObj _) = KConfigMap"
| "object_kind (ServiceObj _) = KService"
| "object_kind (DeploymentObj _) = KDeployment"

fun object_meta :: "k8s_object \<Rightarrow> ObjectMeta" where
  "object_meta (ServiceAccountObj s) = sa_metadata s"
| "object_meta (ConfigMapObj c) = cm_metadata c"
| "object_meta (ServiceObj s) = svc_metadata s"
| "object_meta (DeploymentObj d) = dep_metadata d"

section \<open>Calls\<close>

record kube_error =
  ke_code :: "int option"
  ke_display :: string

type_synonym ('w, 'a) call = "'w \<Rightarrow> (kube_error + 'a) \<times> 'w"

text \<open>
  \<^verbatim>\<open>k_get_opt\<close> and \<^verbatim>\<open>k_apply\<close> (server-side apply, forced) serve the applier, which looks only at the
  metadata of an existing object; \<^verbatim>\<open>k_to_value_error\<close> is the error of \<^verbatim>\<open>serde_json::to_value\<close>, if any. The other
  calls take the namespace first; \<^verbatim>\<open>k_list_grants\<close> lists one namespace or all, \<^verbatim>\<open>k_list_slices\<close> the slices labelled
  with a service.
\<close>

record 'w kube =
  k_get_opt :: "kube_kind \<Rightarrow> string \<Rightarrow> string \<Rightarrow> ('w, ObjectMeta option) call"
  k_to_value_error :: "k8s_object \<Rightarrow> string option"
  k_apply :: "string \<Rightarrow> string \<Rightarrow> k8s_object \<Rightarrow> ('w, unit) call"
  k_get_configmap :: "string \<Rightarrow> string \<Rightarrow> ('w, ConfigMap) call"
  k_get_deployment :: "string \<Rightarrow> string \<Rightarrow> ('w, Deployment) call"
  k_get_service :: "string \<Rightarrow> string \<Rightarrow> ('w, K8sService) call"
  k_list_nodes :: "('w, Node list) call"
  k_get_gateway_class :: "string \<Rightarrow> ('w, GatewayClass) call"
  k_patch_gateway_status :: "string \<Rightarrow> string \<Rightarrow> GatewayStatus \<Rightarrow> ('w, Gateway) call"
  k_list_gateways :: "('w, Gateway list) call"
  k_get_gateway :: "string \<Rightarrow> string \<Rightarrow> ('w, Gateway) call"
  k_patch_http_status :: "string \<Rightarrow> string \<Rightarrow> HTTPRouteStatus \<Rightarrow> ('w, unit) call"
  k_patch_tcp_status :: "string \<Rightarrow> string \<Rightarrow> TCPRouteStatus \<Rightarrow> ('w, unit) call"
  k_patch_tls_status :: "string \<Rightarrow> string \<Rightarrow> TLSRouteStatus \<Rightarrow> ('w, unit) call"
  k_patch_class_status :: "string \<Rightarrow> GatewayClassStatus \<Rightarrow> ('w, unit) call"
  k_list_http_routes :: "('w, HTTPRoute list) call"
  k_list_tcp_routes :: "('w, TCPRoute list) call"
  k_list_tls_routes :: "('w, TLSRoute list) call"
  k_list_classes :: "('w, GatewayClass list) call"
  k_list_grants :: "string option \<Rightarrow> ('w, ReferenceGrant list) call"
  k_list_slices :: "string \<Rightarrow> string \<Rightarrow> ('w, EndpointSlice list) call"

section \<open>Handlers\<close>

datatype gauge =
  GaugeGatewayProgrammed string string
| GaugeAttachedRoutes string string string
| GaugeGateways string string
| GaugeRoutes string string
| GaugeRoutesAccepted string string string
| CounterRoutesRejected string string string
| GaugeEndpointsHealthy string string
| GaugeEndpointsUnhealthy string string
| GaugeGatewayClasses
| GaugeReferenceGrants string
| CounterGrantValidation string string string
| CounterBlocked string string string
| CounterExtraction string string
| CounterCertificates string string
| GaugeCertificateExpiry string string
| GaugeIsLeader
| CounterReconcile string string
| CounterReconcileError string string

record 'w ctl =
  ctl_cluster :: 'w
  ctl_store :: SharedStore
  ctl_config :: Config
  ctl_metrics :: "(gauge \<times> int) list"

datatype 'e failure = CtlPanic panic | CtlErr 'e

type_synonym ('w, 'e, 'a) io = "'w ctl \<Rightarrow> ('e failure + 'a) \<times> 'w ctl"

definition io_return :: "'a \<Rightarrow> ('w, 'e, 'a) io" where
  "io_return x s = (Ok x, s)"

definition io_fail :: "'e \<Rightarrow> ('w, 'e, 'a) io" where
  "io_fail e s = (Err (CtlErr e), s)"

definition io_try :: "('w, 'e, 'a) io \<Rightarrow> ('a \<Rightarrow> ('w, 'e, 'b) io) \<Rightarrow> ('w, 'e, 'b) io" where
  "io_try m f s = (case m s of (Inl e, s') \<Rightarrow> (Inl e, s') | (Inr x, s') \<Rightarrow> f x s')"

definition io_result :: "'e failure + 'a \<Rightarrow> ('w, 'e, 'a) io" where
  "io_result r s = (r, s)"

definition io_panics :: "panic + 'a \<Rightarrow> ('w, 'e, 'a) io" where
  "io_panics r s = (map_err CtlPanic r, s)"

definition map_failure :: "('e \<Rightarrow> 'f) \<Rightarrow> 'e failure \<Rightarrow> 'f failure" where
  "map_failure f x = (case x of CtlPanic p \<Rightarrow> CtlPanic p | CtlErr e \<Rightarrow> CtlErr (f e))"

definition io_map_err :: "('e \<Rightarrow> 'f) \<Rightarrow> ('w, 'e, 'a) io \<Rightarrow> ('w, 'f, 'a) io" where
  "io_map_err f m s = (case m s of (r, s') \<Rightarrow> (map_err (map_failure f) r, s'))"

text \<open>A call of the API, with its error turned into the handler's, and one whose result is inspected.\<close>

definition io_call :: "(kube_error \<Rightarrow> 'e) \<Rightarrow> ('w, 'a) call \<Rightarrow> ('w, 'e, 'a) io" where
  "io_call f c s = (case c (ctl_cluster s) of (r, w) \<Rightarrow> (map_err (\<lambda>e. CtlErr (f e)) r, s\<lparr>ctl_cluster := w\<rparr>))"

definition io_attempt :: "('w, 'a) call \<Rightarrow> ('w, 'e, kube_error + 'a) io" where
  "io_attempt c s = (case c (ctl_cluster s) of (r, w) \<Rightarrow> (Ok r, s\<lparr>ctl_cluster := w\<rparr>))"

definition io_store :: "(SharedStore \<Rightarrow> SharedStore) \<Rightarrow> ('w, 'e, unit) io" where
  "io_store f s = (Ok (), s\<lparr>ctl_store := f (ctl_store s)\<rparr>)"

definition io_metric :: "gauge \<Rightarrow> int \<Rightarrow> ('w, 'e, unit) io" where
  "io_metric g v s = (Ok (), s\<lparr>ctl_metrics := ctl_metrics s @ [(g, v)]\<rparr>)"

lemma io_try_Ok_iff [io_simps]:
  "io_try m f s = (Inr y, s') \<longleftrightarrow> (\<exists>x s1. m s = (Inr x, s1) \<and> f x s1 = (Inr y, s'))"
  by (auto simp: io_try_def split: prod.splits sum.splits)

lemma io_try_step: "m s = (Inr x, s1) \<Longrightarrow> io_try m f s = f x s1"
  by (simp add: io_try_def)

lemma io_try_stop: "m s = (Inl e, s1) \<Longrightarrow> io_try m f s = (Inl e, s1)"
  by (simp add: io_try_def)

lemma io_return_iff [io_simps]: "io_return x s = (Inr y, s') \<longleftrightarrow> x = y \<and> s' = s"
  by (auto simp: io_return_def)

lemma io_panics_iff [io_simps]: "io_panics r s = (Inr y, s') \<longleftrightarrow> r = Inr y \<and> s' = s"
  by (auto simp: io_panics_def map_err_Ok_iff)

lemma io_fail_iff [io_simps]: "io_fail e s \<noteq> (Inr y, s')"
  by (simp add: io_fail_def)

lemma io_map_err_iff [io_simps]: "io_map_err f m s = (Inr y, s') \<longleftrightarrow> m s = (Inr y, s')"
  by (auto simp: io_map_err_def map_err_Ok_iff split: prod.splits)

lemma io_call_iff [io_simps]:
  "io_call f c s = (Inr y, s') \<longleftrightarrow> (\<exists>w. c (ctl_cluster s) = (Inr y, w) \<and> s' = s\<lparr>ctl_cluster := w\<rparr>)"
  by (auto simp: io_call_def map_err_Ok_iff split: prod.splits)

lemma io_attempt_iff [io_simps]:
  "io_attempt c s = (Inr r, s') \<longleftrightarrow> (\<exists>w. c (ctl_cluster s) = (r, w) \<and> s' = s\<lparr>ctl_cluster := w\<rparr>)"
  by (auto simp: io_attempt_def split: prod.splits)

lemma io_store_iff [io_simps]: "io_store f s = (Inr y, s') \<longleftrightarrow> s' = s\<lparr>ctl_store := f (ctl_store s)\<rparr>"
  by (auto simp: io_store_def)

lemma io_metric_iff [io_simps]: "io_metric g v s = (Inr y, s') \<longleftrightarrow> s' = s\<lparr>ctl_metrics := ctl_metrics s @ [(g, v)]\<rparr>"
  by (auto simp: io_metric_def)

text \<open>Reading the state, and looking at the outcome of a handler whose error does not end the caller.\<close>

definition io_read :: "('w ctl \<Rightarrow> 'a) \<Rightarrow> ('w, 'e, 'a) io" where
  "io_read f s = (Ok (f s), s)"

definition io_catch :: "('w, 'e, 'a) io \<Rightarrow> ('w, 'f, 'e + 'a) io" where
  "io_catch m s =
     (case m s of
        (Inl (CtlPanic p), s') \<Rightarrow> (Inl (CtlPanic p), s')
      | (Inl (CtlErr e), s') \<Rightarrow> (Ok (Inl e), s')
      | (Inr x, s') \<Rightarrow> (Ok (Inr x), s'))"

lemma io_read_iff [io_simps]: "io_read f s = (Inr y, s') \<longleftrightarrow> y = f s \<and> s' = s"
  by (auto simp: io_read_def)

lemma io_catch_Ok_iff [io_simps]: "io_catch m s = (Inr (Inr x), s') \<longleftrightarrow> m s = (Inr x, s')"
  by (auto simp: io_catch_def split: prod.splits sum.splits failure.splits)

lemma io_catch_Err_iff [io_simps]: "io_catch m s = (Inr (Inl e), s') \<longleftrightarrow> m s = (Inl (CtlErr e), s')"
  by (auto simp: io_catch_def split: prod.splits sum.splits failure.splits)

text \<open>Sequencing a handler over the elements of a list.\<close>

fun io_for :: "('a \<Rightarrow> ('w, 'e, unit) io) \<Rightarrow> 'a list \<Rightarrow> ('w, 'e, unit) io" where
  "io_for f [] = io_return ()"
| "io_for f (x # xs) = io_try (f x) (\<lambda>_. io_for f xs)"

lemma io_result_iff [io_simps]: "io_result r s = (Inr y, s') \<longleftrightarrow> r = Inr y \<and> s' = s"
  by (auto simp: io_result_def)

section \<open>Invariants of handlers\<close>

text \<open>
  \<^verbatim>\<open>io_inv I m Q\<close>: the handler keeps \<^verbatim>\<open>I\<close> of the state on every outcome, and a value it returns satisfies \<^verbatim>\<open>Q\<close>.
\<close>

definition io_inv :: "('w ctl \<Rightarrow> bool) \<Rightarrow> ('w, 'e, 'a) io \<Rightarrow> ('a \<Rightarrow> bool) \<Rightarrow> bool" where
  "io_inv I m Q = (\<forall>s. I s \<longrightarrow> I (snd (m s)) \<and> (\<forall>x. fst (m s) = Inr x \<longrightarrow> Q x))"

lemma io_invI: "(\<And>s r s'. I s \<Longrightarrow> m s = (r, s') \<Longrightarrow> I s' \<and> (\<forall>x. r = Inr x \<longrightarrow> Q x)) \<Longrightarrow> io_inv I m Q"
  unfolding io_inv_def by (metis prod.collapse)

lemma io_invD: "io_inv I m Q \<Longrightarrow> I s \<Longrightarrow> I (snd (m s)) \<and> (\<forall>x. fst (m s) = Inr x \<longrightarrow> Q x)"
  by (simp add: io_inv_def)

lemma io_inv_try:
  assumes "io_inv I m Q" "\<And>x. Q x \<Longrightarrow> io_inv I (f x) R"
  shows "io_inv I (io_try m f) R"
proof (rule io_invI)
  fix s r s' assume s: "I s" and run: "io_try m f s = (r, s')"
  show "I s' \<and> (\<forall>x. r = Inr x \<longrightarrow> R x)"
  proof (cases "fst (m s)")
    case (Inl e)
    with io_invD [OF assms(1) s] run show ?thesis by (auto simp: io_try_def split: prod.splits)
  next
    case (Inr x)
    with io_invD [OF assms(1) s] have "Q x" "I (snd (m s))" by auto
    from io_invD [OF assms(2) [OF this(1)] this(2)] Inr run show ?thesis
      by (auto simp: io_try_def split: prod.splits)
  qed
qed

lemma io_inv_weaken: "io_inv I m Q \<Longrightarrow> (\<And>x. Q x \<Longrightarrow> R x) \<Longrightarrow> io_inv I m R"
  by (auto simp: io_inv_def)

lemma io_inv_return: "Q x \<Longrightarrow> io_inv I (io_return x) Q"
  by (simp add: io_inv_def io_return_def)

lemma io_inv_fail: "io_inv I (io_fail e) Q"
  by (simp add: io_inv_def io_fail_def)

lemma io_inv_panics: "(\<And>x. r = Inr x \<Longrightarrow> Q x) \<Longrightarrow> io_inv I (io_panics r) Q"
  by (auto simp: io_inv_def io_panics_def map_err_Ok_iff)

lemma io_inv_result: "(\<And>x. r = Inr x \<Longrightarrow> Q x) \<Longrightarrow> io_inv I (io_result r) Q"
  by (auto simp: io_inv_def io_result_def)

lemma io_inv_read: "(\<And>s. I s \<Longrightarrow> Q (f s)) \<Longrightarrow> io_inv I (io_read f) Q"
  by (auto simp: io_inv_def io_read_def)

lemma io_inv_map_err: "io_inv I m Q \<Longrightarrow> io_inv I (io_map_err f m) Q"
  by (auto simp: io_inv_def io_map_err_def map_err_Ok_iff split: prod.splits)

lemma io_inv_catch:
  assumes "io_inv I m Q" "\<And>e. R (Inl e)" "\<And>x. Q x \<Longrightarrow> R (Inr x)"
  shows "io_inv I (io_catch m) R"
proof (rule io_invI)
  fix s r s' assume "I s" "io_catch m s = (r, s')"
  with io_invD [OF assms(1), of s] show "I s' \<and> (\<forall>x. r = Inr x \<longrightarrow> R x)"
    by (auto simp: io_catch_def assms(2) intro: assms(3) split: prod.splits sum.splits failure.splits)
qed

lemma io_inv_for: "(\<And>x. io_inv I (f x) (\<lambda>_. True)) \<Longrightarrow> io_inv I (io_for f xs) (\<lambda>_. True)"
  by (induction xs) (auto intro: io_inv_return io_inv_try)

end
