(* ===== verification/Runtime_Applier.thy ===== *)
theory Runtime_Applier
  imports Kube_Api
begin

text \<open>
  The applier of runtime plans (\<^verbatim>\<open>crates/wicket-controller/src/reconcilers/runtime_applier.rs\<close>): the owned
  ServiceAccount, ConfigMap, Service and Deployment, each preceded by the ownership check. Lemmas: what
  each object carries, that an object of another owner is never written, which pod templates two plans
  share, and what is left on the cluster after a successful apply.
\<close>

section \<open>Labels and metadata\<close>

definition SPEC_REVISION_ANNOTATION :: string where
  "SPEC_REVISION_ANNOTATION = ''wicket.io/spec-revision''"

definition CONFIG_REVISION_ANNOTATION :: string where
  "CONFIG_REVISION_ANNOTATION = ''wicket.io/config-revision''"

definition LABEL_MANAGED_BY :: string where
  "LABEL_MANAGED_BY = ''app.kubernetes.io/managed-by''"

definition PROXY_RUNTIME_UID :: int where
  "PROXY_RUNTIME_UID = 65532"

definition PROXY_RUNTIME_FSGROUP :: int where
  "PROXY_RUNTIME_FSGROUP = 65532"

record RuntimeApplyResult =
  rar2_service_account_created :: bool
  rar2_config_result :: "ConfigApplyResult option"
  rar2_service_changed :: bool
  rar2_deployment_changed :: bool
  rar2_rollout_triggered :: bool

definition managed_labels :: "GatewayRuntimePlan \<Rightarrow> labels" where
  "managed_labels plan =
     bt_collect
       [(LABEL_MANAGED_BY, ''wicket-controller''), (''app.kubernetes.io/component'', ''gateway-runtime''),
        (''app.kubernetes.io/instance'', grp_gateway_name plan), (''app.kubernetes.io/name'', ''wicket''),
        (''wicket.io/gateway-namespace'', grp_gateway_namespace plan), (''wicket.io/gateway-name'', grp_gateway_name plan)]"

definition pod_template_labels :: "GatewayRuntimePlan \<Rightarrow> labels" where
  "pod_template_labels plan = managed_labels plan"

definition gateway_owner_ref :: "GatewayRuntimePlan \<Rightarrow> OwnerReference" where
  "gateway_owner_ref plan =
     \<lparr>own_api_version = ''gateway.networking.k8s.io/v1'', own_kind = ''Gateway'', own_name = grp_gateway_name plan,
      own_uid = grp_gateway_uid plan, own_controller = Some True, own_block_owner_deletion = Some True\<rparr>"

definition owned_object_meta :: "string \<Rightarrow> GatewayRuntimePlan \<Rightarrow> labels option \<Rightarrow> ObjectMeta" where
  "owned_object_meta name plan extra_annotations =
     ObjectMeta_default\<lparr>meta_name := Some name, meta_namespace := Some (grp_gateway_namespace plan),
       meta_labels := Some (managed_labels plan), meta_annotations := extra_annotations,
       meta_owner_references := Some [gateway_owner_ref plan]\<rparr>"

section \<open>Ownership\<close>

definition is_managed_by_controller :: "labels option \<Rightarrow> bool" where
  "is_managed_by_controller labels =
     (case labels of
        None \<Rightarrow> False
      | Some l \<Rightarrow> (case hm_get l LABEL_MANAGED_BY of Some v \<Rightarrow> v = ''wicket-controller'' | None \<Rightarrow> False))"

text \<open>The four preflight functions differ in the type of the object only.\<close>

definition kube_api_error :: "kube_error \<Rightarrow> ApplyError" where
  "kube_api_error e = KubeApi (ke_display e)"

definition preflight :: "'w kube \<Rightarrow> kube_kind \<Rightarrow> string \<Rightarrow> string \<Rightarrow> ('w, ApplyError, bool) io" where
  "preflight K kind name namespace =
     io_try (io_call kube_api_error (k_get_opt K kind namespace name)) (\<lambda>obj.
       case obj of
         None \<Rightarrow> io_return False
       | Some metadata \<Rightarrow>
           if is_managed_by_controller (meta_labels metadata) then io_return True
           else io_fail (NotOwned namespace name))"

definition preflight_service_account :: "'w kube \<Rightarrow> string \<Rightarrow> string \<Rightarrow> ('w, ApplyError, bool) io" where
  "preflight_service_account K = preflight K KServiceAccount"

definition preflight_configmap :: "'w kube \<Rightarrow> string \<Rightarrow> string \<Rightarrow> ('w, ApplyError, bool) io" where
  "preflight_configmap K = preflight K KConfigMap"

definition preflight_service :: "'w kube \<Rightarrow> string \<Rightarrow> string \<Rightarrow> ('w, ApplyError, bool) io" where
  "preflight_service K = preflight K KService"

definition preflight_deployment :: "'w kube \<Rightarrow> string \<Rightarrow> string \<Rightarrow> ('w, ApplyError, bool) io" where
  "preflight_deployment K = preflight K KDeployment"

text \<open>\<^verbatim>\<open>serde_json::to_value\<close> followed by \<^verbatim>\<open>api.patch\<close> with a forced server-side apply.\<close>

definition patch_object :: "'w kube \<Rightarrow> string \<Rightarrow> string \<Rightarrow> k8s_object \<Rightarrow> ('w, ApplyError, unit) io" where
  "patch_object K namespace name obj =
     (case k_to_value_error K obj of
        Some e \<Rightarrow> io_fail (Serialization e)
      | None \<Rightarrow> io_call kube_api_error (k_apply K namespace name obj))"

section \<open>ServiceAccount\<close>

definition service_account_of :: "GatewayRuntimePlan \<Rightarrow> ServiceAccount" where
  "service_account_of plan = \<lparr>sa_metadata = owned_object_meta (grp_service_account_name plan) plan None\<rparr>"

definition apply_service_account :: "'w kube \<Rightarrow> GatewayRuntimePlan \<Rightarrow> ('w, ApplyError, bool) io" where
  "apply_service_account K plan =
     io_try (preflight_service_account K (grp_service_account_name plan) (grp_gateway_namespace plan)) (\<lambda>already_exists.
     io_try (patch_object K (grp_gateway_namespace plan) (grp_service_account_name plan)
               (ServiceAccountObj (service_account_of plan))) (\<lambda>_.
     io_return (\<not> already_exists)))"

section \<open>ConfigMap\<close>

definition config_map_of :: "GatewayRuntimePlan \<Rightarrow> ConfigMap" where
  "config_map_of plan =
     (let annotations = bt_insert CONFIG_REVISION_ANNOTATION (grp_config_hash plan) [];
          data = bt_insert ''wicket.toml'' (grp_config_toml plan) [] in
      \<lparr>cm_metadata = owned_object_meta (grp_config_map_name plan) plan (Some annotations), cm_data = Some data\<rparr>)"

definition sync_config :: "Config \<Rightarrow> ('w, ApplyError, unit) io" where
  "sync_config new_config s = (Ok (), s\<lparr>ctl_config := new_config\<rparr>)"

text \<open>\<^verbatim>\<open>toml::from_str\<close> is an argument.\<close>

definition apply_managed_configmap ::
  "(string \<Rightarrow> string + Config) \<Rightarrow> 'w kube \<Rightarrow> GatewayRuntimePlan \<Rightarrow> ('w, ApplyError, ConfigApplyResult) io" where
  "apply_managed_configmap from_toml K plan =
     io_try (preflight_configmap K (grp_config_map_name plan) (grp_gateway_namespace plan)) (\<lambda>_.
     case from_toml (grp_config_toml plan) of
       Inl e \<Rightarrow> io_fail (Serialization e)
     | Inr new_config \<Rightarrow>
         if \<not> grp_config_changed plan then
           io_try (sync_config new_config) (\<lambda>_. io_return ApplyNoOp)
         else
           io_try (patch_object K (grp_gateway_namespace plan) (grp_config_map_name plan)
                     (ConfigMapObj (config_map_of plan))) (\<lambda>_.
           io_try (sync_config new_config) (\<lambda>_.
           io_return (ApplyUpdated (grp_config_hash plan)))))"

section \<open>Service\<close>

definition service_of :: "GatewayRuntimePlan \<Rightarrow> K8sService" where
  "service_of plan =
     (let svc_type_str = (case grp_service_type plan of ClusterIP \<Rightarrow> ''ClusterIP'' | LoadBalancer \<Rightarrow> ''LoadBalancer''
            | NodePort \<Rightarrow> ''NodePort'');
          ports = map (\<lambda>p. \<lparr>svp_name = Some (sps_name p), svp_port = uint (sps_port p),
            svp_target_port = Some (uint (sps_target_port p)), svp_protocol = Some (sps_protocol p)\<rparr>) (grp_service_ports plan);
          selector = managed_labels plan in
      \<lparr>svc_metadata = owned_object_meta (grp_service_name plan) plan None,
       svc_spec = Some \<lparr>svs_type = Some svc_type_str, svs_ports = Some ports, svs_selector = Some selector,
         svs_external_ips = None, svs_cluster_ip = None\<rparr>,
       svc_ingress = None\<rparr>)"

definition apply_service :: "'w kube \<Rightarrow> GatewayRuntimePlan \<Rightarrow> ('w, ApplyError, bool) io" where
  "apply_service K plan =
     io_try (preflight_service K (grp_service_name plan) (grp_gateway_namespace plan)) (\<lambda>already_exists.
     io_try (patch_object K (grp_gateway_namespace plan) (grp_service_name plan) (ServiceObj (service_of plan))) (\<lambda>_.
     io_return (\<not> already_exists \<or> grp_spec_changed plan)))"

section \<open>Deployment\<close>

definition build_resource_requirements :: "labels \<Rightarrow> ResourceRequirements" where
  "build_resource_requirements resources =
     (let (requests, limits) = fold (\<lambda>(key, value) (requests, limits).
            if key = ''requests.cpu'' then (bt_insert ''cpu'' value requests, limits)
            else if key = ''requests.memory'' then (bt_insert ''memory'' value requests, limits)
            else if key = ''limits.cpu'' then (requests, bt_insert ''cpu'' value limits)
            else if key = ''limits.memory'' then (requests, bt_insert ''memory'' value limits)
            else (requests, limits)) resources ([], []) in
      \<lparr>rr_requests = (if requests = [] then None else Some requests),
       rr_limits = (if limits = [] then None else Some limits)\<rparr>)"

definition managed_runtime_pod_security_context :: PodSecurityContext where
  "managed_runtime_pod_security_context =
     \<lparr>psc_fs_group = Some PROXY_RUNTIME_FSGROUP, psc_run_as_non_root = Some True,
      psc_run_as_user = Some PROXY_RUNTIME_UID, psc_run_as_group = Some PROXY_RUNTIME_UID\<rparr>"

definition managed_runtime_container_security_context :: SecurityContext where
  "managed_runtime_container_security_context =
     \<lparr>sc_run_as_non_root = Some True, sc_run_as_user = Some PROXY_RUNTIME_UID, sc_run_as_group = Some PROXY_RUNTIME_UID,
      sc_allow_privilege_escalation = Some False, sc_read_only_root_filesystem = Some True\<rparr>"

definition volume_name :: "TlsSecretMount \<Rightarrow> panic + string" where
  "volume_name mount =
     (let raw_name = ''tls-'' @ tsm_secret_name mount in
      if length raw_name > 63 then str_prefix 63 raw_name else Ok raw_name)"

type_synonym volume_acc = "Volume list \<times> VolumeMount list \<times> string set"

definition add_secret_volume :: "TlsSecretMount \<Rightarrow> volume_acc \<Rightarrow> panic + volume_acc" where
  "add_secret_volume mount = (\<lambda>(volumes, volume_mounts, seen_volume_names).
     and_then (volume_name mount) (\<lambda>vname.
       if vname \<in> seen_volume_names then Ok (volumes, volume_mounts, seen_volume_names)
       else
         Ok (volumes @ [\<lparr>vol_name = vname, vol_source = SecretVolume (tsm_secret_name mount) 288 False\<rparr>],
             volume_mounts @ [\<lparr>vm_name = vname, vm_mount_path = tsm_mount_path mount, vm_read_only = Some True\<rparr>],
             insert vname seen_volume_names)))"

definition build_pod_volumes_and_mounts :: "GatewayRuntimePlan \<Rightarrow> panic + Volume list \<times> VolumeMount list" where
  "build_pod_volumes_and_mounts plan =
     and_then
       (try_fold add_secret_volume (grp_tls_secret_mounts plan)
          ([\<lparr>vol_name = ''config'', vol_source = ConfigMapVolume (grp_config_map_name plan)\<rparr>],
           [\<lparr>vm_name = ''config'', vm_mount_path = ''/etc/wicket'', vm_read_only = Some True\<rparr>], {''config''}))
       (\<lambda>(volumes, volume_mounts, _). Ok (volumes, volume_mounts))"

definition container_of :: "GatewayRuntimePlan \<Rightarrow> VolumeMount list \<Rightarrow> Container" where
  "container_of plan volume_mounts =
     \<lparr>ct_name = ''wicket-proxy'', ct_image = Some (rmd_image (grp_runtime_metadata plan)),
      ct_ports = Some (map (\<lambda>p. \<lparr>ctp_name = Some (sps_name p), ctp_container_port = uint (sps_target_port p),
        ctp_protocol = Some (sps_protocol p)\<rparr>) (grp_service_ports plan)),
      ct_volume_mounts = Some volume_mounts,
      ct_security_context = Some managed_runtime_container_security_context,
      ct_env = Some [(''WICKET_SPEC_REVISION'', Some (grp_spec_hash plan))],
      ct_resources = Some (build_resource_requirements (rmd_resources (grp_runtime_metadata plan)))\<rparr>"

definition pod_template_of :: "GatewayRuntimePlan \<Rightarrow> Volume list \<times> VolumeMount list \<Rightarrow> PodTemplateSpec" where
  "pod_template_of plan vols =
     \<lparr>pt_labels = Some (pod_template_labels plan),
      pt_annotations = Some (bt_insert SPEC_REVISION_ANNOTATION (grp_spec_hash plan) []),
      pt_service_account_name = Some (grp_service_account_name plan),
      pt_security_context = Some managed_runtime_pod_security_context,
      pt_containers = [container_of plan (snd vols)], pt_volumes = Some (fst vols),
      pt_node_selector = (if rmd_node_selector (grp_runtime_metadata plan) = [] then None
        else Some (rmd_node_selector (grp_runtime_metadata plan)))\<rparr>"

definition deployment_of :: "GatewayRuntimePlan \<Rightarrow> int \<Rightarrow> Volume list \<times> VolumeMount list \<Rightarrow> Deployment" where
  "deployment_of plan replicas vols =
     (let deploy_annotations =
        bt_insert CONFIG_REVISION_ANNOTATION (grp_config_hash plan)
          (bt_insert SPEC_REVISION_ANNOTATION (grp_spec_hash plan) []) in
      \<lparr>dep_metadata = owned_object_meta (grp_deployment_name plan) plan (Some deploy_annotations),
       dep_spec = Some \<lparr>ds_replicas = Some replicas, ds_match_labels = Some (managed_labels plan),
         ds_template = pod_template_of plan vols\<rparr>,
       dep_status = None\<rparr>)"

text \<open>\<^verbatim>\<open>i32::try_from\<close> of an unsigned 32-bit value.\<close>

definition i32_try_from :: "u32 \<Rightarrow> int option" where
  "i32_try_from r = (if uint r \<le> 2147483647 then Some (uint r) else None)"

definition apply_deployment :: "'w kube \<Rightarrow> GatewayRuntimePlan \<Rightarrow> ('w, ApplyError, bool \<times> bool) io" where
  "apply_deployment K plan =
     io_try (preflight_deployment K (grp_deployment_name plan) (grp_gateway_namespace plan)) (\<lambda>already_exists.
     case i32_try_from (rmd_replicas (grp_runtime_metadata plan)) of
       None \<Rightarrow> io_fail (Serialization (''replica count '' @ show_nat (unat (rmd_replicas (grp_runtime_metadata plan))) @
                 '' overflows i32 (max 2147483647)''))
     | Some replicas \<Rightarrow>
         io_try (io_panics (build_pod_volumes_and_mounts plan)) (\<lambda>vols.
         io_try (patch_object K (grp_gateway_namespace plan) (grp_deployment_name plan)
                   (DeploymentObj (deployment_of plan replicas vols))) (\<lambda>_.
         io_return (\<not> already_exists \<or> grp_spec_changed plan, grp_spec_changed plan))))"

section \<open>The applier\<close>

definition apply_runtime_plan ::
  "(string \<Rightarrow> string + Config) \<Rightarrow> 'w kube \<Rightarrow> GatewayRuntimePlan \<Rightarrow> ('w, ApplyError, RuntimeApplyResult) io" where
  "apply_runtime_plan from_toml K plan =
     io_try (apply_service_account K plan) (\<lambda>service_account_created.
     io_try (apply_managed_configmap from_toml K plan) (\<lambda>config_result.
     io_try (apply_service K plan) (\<lambda>service_changed.
     io_try (apply_deployment K plan) (\<lambda>(deploy_changed, rollout).
     io_return \<lparr>rar2_service_account_created = service_account_created, rar2_config_result = Some config_result,
       rar2_service_changed = service_changed, rar2_deployment_changed = deploy_changed,
       rar2_rollout_triggered = rollout\<rparr>))))"

section \<open>What is relied on of the API\<close>

text \<open>
  \<^verbatim>\<open>look\<close> reads the objects of a cluster. A read returns the metadata of the object, if there is one, and
  changes no object. A server-side apply changes no other object, and when it succeeds the object
  carries every label, annotation and data entry that was sent.
\<close>

type_synonym 'w look = "'w \<Rightarrow> kube_kind \<Rightarrow> string \<Rightarrow> string \<Rightarrow> k8s_object option"

definition reads_agree :: "'w kube \<Rightarrow> 'w look \<Rightarrow> bool" where
  "reads_agree K look =
     (\<forall>kind ns n w r w'. k_get_opt K kind ns n w = (r, w') \<longrightarrow>
        look w' = look w \<and> (\<forall>m. r = Inr m \<longrightarrow> m = map_option object_meta (look w kind ns n)))"

definition entries_sent :: "labels option \<Rightarrow> labels option \<Rightarrow> bool" where
  "entries_sent m m' =
     (\<forall>kvs. m = Some kvs \<longrightarrow> (\<exists>kvs'. m' = Some kvs' \<and> (\<forall>k v. hm_get kvs k = Some v \<longrightarrow> hm_get kvs' k = Some v)))"

definition applied_object :: "k8s_object \<Rightarrow> k8s_object \<Rightarrow> bool" where
  "applied_object obj obj' =
     (object_kind obj' = object_kind obj \<and>
      entries_sent (meta_labels (object_meta obj)) (meta_labels (object_meta obj')) \<and>
      entries_sent (meta_annotations (object_meta obj)) (meta_annotations (object_meta obj')) \<and>
      (\<forall>c c'. obj = ConfigMapObj c \<longrightarrow> obj' = ConfigMapObj c' \<longrightarrow> entries_sent (cm_data c) (cm_data c')))"

definition applies_one :: "'w kube \<Rightarrow> 'w look \<Rightarrow> bool" where
  "applies_one K look =
     (\<forall>ns n obj w r w'. k_apply K ns n obj w = (r, w') \<longrightarrow>
        (\<forall>kind ns' n'. (kind, ns', n') \<noteq> (object_kind obj, ns, n) \<longrightarrow> look w' kind ns' n' = look w kind ns' n') \<and>
        (\<forall>u. r = Inr u \<longrightarrow> (\<exists>obj'. look w' (object_kind obj) ns n = Some obj' \<and> applied_object obj obj')))"

section \<open>Objects of another owner\<close>

definition plan_targets :: "GatewayRuntimePlan \<Rightarrow> (kube_kind \<times> string \<times> string) set" where
  "plan_targets plan =
     {(KServiceAccount, grp_gateway_namespace plan, grp_service_account_name plan),
      (KConfigMap, grp_gateway_namespace plan, grp_config_map_name plan),
      (KService, grp_gateway_namespace plan, grp_service_name plan),
      (KDeployment, grp_gateway_namespace plan, grp_deployment_name plan)}"

definition object_managed :: "k8s_object \<Rightarrow> bool" where
  "object_managed obj = is_managed_by_controller (meta_labels (object_meta obj))"

definition holds_foreign :: "'w look \<Rightarrow> kube_kind \<times> string \<times> string \<Rightarrow> k8s_object \<Rightarrow> 'w ctl \<Rightarrow> bool" where
  "holds_foreign look key obj s =
     (case key of (kind, ns, n) \<Rightarrow> look (ctl_cluster s) kind ns n = Some obj \<and> \<not> object_managed obj)"

lemma preflight_foreign:
  assumes "reads_agree K look"
  shows "io_inv (holds_foreign look key obj) (preflight K kind name namespace) (\<lambda>_. key \<noteq> (kind, namespace, name))"
proof (rule io_invI)
  fix s r s' assume s: "holds_foreign look key obj s" and run: "preflight K kind name namespace s = (r, s')"
  obtain q w where q: "k_get_opt K kind namespace name (ctl_cluster s) = (q, w)" by fastforce
  with assms have same: "look w = look (ctl_cluster s)"
    and found: "\<And>m. q = Inr m \<Longrightarrow> m = map_option object_meta (look (ctl_cluster s) kind namespace name)"
    by (auto simp: reads_agree_def)
  have s': "s' = s\<lparr>ctl_cluster := w\<rparr>"
    using run q by (auto simp: preflight_def io_try_def io_call_def map_err_def io_return_def io_fail_def
        split: sum.splits option.splits if_splits)
  have "key \<noteq> (kind, namespace, name)" if "r = Inr x" for x
    using s run q that found
    by (auto simp: preflight_def io_try_def io_call_def map_err_def io_return_def io_fail_def holds_foreign_def
        object_managed_def split: sum.splits option.splits if_splits)
  with s s' same show "holds_foreign look key obj s' \<and> (\<forall>x. r = Inr x \<longrightarrow> key \<noteq> (kind, namespace, name))"
    by (auto simp: holds_foreign_def split: prod.splits)
qed

lemma patch_foreign:
  assumes "applies_one K look" "key \<noteq> (object_kind o', ns, n)"
  shows "io_inv (holds_foreign look key obj) (patch_object K ns n o') (\<lambda>_. True)"
proof (rule io_invI)
  fix s r s' assume s: "holds_foreign look key obj s" and run: "patch_object K ns n o' s = (r, s')"
  obtain q w where q: "k_apply K ns n o' (ctl_cluster s) = (q, w)" by fastforce
  obtain kind ns' n' where key: "key = (kind, ns', n')" by (cases key)
  from assms q key have "look w kind ns' n' = look (ctl_cluster s) kind ns' n'" by (simp add: applies_one_def)
  with s run q key show "holds_foreign look key obj s' \<and> (\<forall>x. r = Inr x \<longrightarrow> True)"
    by (auto simp: patch_object_def holds_foreign_def io_fail_def io_call_def split: option.splits)
qed

lemma sync_foreign: "io_inv (holds_foreign look key obj) (sync_config c) (\<lambda>_. True)"
  by (simp add: io_inv_def sync_config_def holds_foreign_def split: prod.splits)

lemmas apply_defs =
  apply_service_account_def apply_managed_configmap_def apply_service_def apply_deployment_def
  preflight_service_account_def preflight_configmap_def preflight_service_def preflight_deployment_def

lemma apply_foreign:
  assumes "reads_agree K look" "applies_one K look"
  shows "io_inv (holds_foreign look key obj) (apply_runtime_plan ft K plan) (\<lambda>_. key \<notin> plan_targets plan)"
proof -
  let ?I = "holds_foreign look key obj"
  note pre = preflight_foreign [OF assms(1), of key obj] and patch = patch_foreign [OF assms(2), of key]
  have sa: "io_inv ?I (apply_service_account K plan)
      (\<lambda>_. key \<noteq> (KServiceAccount, grp_gateway_namespace plan, grp_service_account_name plan))"
    unfolding apply_defs by (intro io_inv_try [OF pre] io_inv_try [OF patch] io_inv_return) simp_all
  have cm: "io_inv ?I (apply_managed_configmap ft K plan)
      (\<lambda>_. key \<noteq> (KConfigMap, grp_gateway_namespace plan, grp_config_map_name plan))"
    unfolding apply_defs
    by (rule io_inv_try [OF pre])
      (auto intro!: io_inv_fail io_inv_try [OF patch] io_inv_try [OF sync_foreign] io_inv_return split: sum.split)
  have svc: "io_inv ?I (apply_service K plan) (\<lambda>_. key \<noteq> (KService, grp_gateway_namespace plan, grp_service_name plan))"
    unfolding apply_defs by (intro io_inv_try [OF pre] io_inv_try [OF patch] io_inv_return) simp_all
  have dep: "io_inv ?I (apply_deployment K plan) (\<lambda>_. key \<noteq> (KDeployment, grp_gateway_namespace plan, grp_deployment_name plan))"
    unfolding apply_defs
    by (rule io_inv_try [OF pre])
      (auto intro!: io_inv_fail io_inv_try [OF patch] io_inv_try [OF io_inv_panics [where Q = "\<lambda>_. True"]] io_inv_return
        split: option.split)
  show ?thesis
    unfolding apply_runtime_plan_def
    by (intro io_inv_try [OF sa] io_inv_try [OF cm] io_inv_try [OF svc] io_inv_try [OF dep])
      (auto simp: plan_targets_def intro!: io_inv_return)
qed

text \<open>
  Objects of another owner are safe. An object on the cluster without the controller's label is not
  changed by applying a plan, whatever the outcome and whatever calls fail on the way; when it has the kind,
  namespace and name of one of the plan's four objects, the apply does not succeed.
\<close>

theorem unowned_objects_untouched:
  assumes "reads_agree K look" "applies_one K look"
    and "look (ctl_cluster s) kind ns n = Some obj" "\<not> is_managed_by_controller (meta_labels (object_meta obj))"
  shows "look (ctl_cluster (snd (apply_runtime_plan from_toml K plan s))) kind ns n = Some obj \<and>
    ((kind, ns, n) \<in> plan_targets plan \<longrightarrow> \<not> is_ok (fst (apply_runtime_plan from_toml K plan s)))"
proof -
  have "holds_foreign look (kind, ns, n) obj s" using assms(3,4) by (simp add: holds_foreign_def object_managed_def)
  from io_invD [OF apply_foreign [OF assms(1,2), of "(kind, ns, n)" obj] this, of from_toml plan]
  show ?thesis by (auto simp: holds_foreign_def is_ok_iff)
qed

section \<open>Volumes\<close>

definition secret_volume :: "string \<Rightarrow> Volume" where
  "secret_volume n = \<lparr>vol_name = ''tls-'' @ n, vol_source = SecretVolume n 288 False\<rparr>"

definition volumes_inv :: "bool \<Rightarrow> volume_acc \<Rightarrow> bool" where
  "volumes_inv short_names acc =
     (case acc of (volumes, mounts, seen) \<Rightarrow>
        seen = vol_name ` set volumes \<and> distinct (map vol_name volumes) \<and> map vm_name mounts = map vol_name volumes \<and>
        (\<forall>v\<in>set volumes. length (vol_name v) \<le> 63) \<and>
        (short_names \<longrightarrow> (\<forall>v\<in>set volumes. vol_name v = ''config'' \<or> (\<exists>n. v = secret_volume n))))"

lemma volume_name_Ok: "volume_name m = Inr v \<Longrightarrow> v = take 63 (''tls-'' @ tsm_secret_name m)"
  by (auto simp: volume_name_def Let_def str_prefix_def split: if_splits)

lemma volume_name_short: "length (tsm_secret_name m) \<le> 59 \<Longrightarrow> volume_name m = Inr (''tls-'' @ tsm_secret_name m)"
  by (simp add: volume_name_def)

lemma add_secret_volume_inv:
  assumes "volumes_inv sh acc" "add_secret_volume m acc = Inr acc'" "sh \<longrightarrow> length (tsm_secret_name m) \<le> 59"
  shows "volumes_inv sh acc' \<and> set (fst acc) \<subseteq> set (fst acc') \<and> (sh \<longrightarrow> secret_volume (tsm_secret_name m) \<in> set (fst acc'))"
proof -
  obtain vols mounts seen where acc: "acc = (vols, mounts, seen)" by (cases acc)
  from assms(2) acc obtain v where v: "volume_name m = Inr v"
    and acc': "acc' = (if v \<in> seen then acc else (vols @ [\<lparr>vol_name = v, vol_source = SecretVolume (tsm_secret_name m) 288 False\<rparr>],
       mounts @ [\<lparr>vm_name = v, vm_mount_path = tsm_mount_path m, vm_read_only = Some True\<rparr>], insert v seen))"
    by (auto simp: add_secret_volume_def and_then_Ok_iff split: if_splits)
  have len: "length v \<le> 63" using volume_name_Ok [OF v] by simp
  have sh: "v = ''tls-'' @ tsm_secret_name m" if sh using assms(3) that v volume_name_short [of m] by simp
  show ?thesis
    using assms(1) acc acc' len sh by (auto simp: volumes_inv_def secret_volume_def)
qed

lemma add_secret_volumes_inv:
  assumes "volumes_inv sh acc" "try_fold add_secret_volume ms acc = Inr acc'"
    "sh \<longrightarrow> (\<forall>m\<in>set ms. length (tsm_secret_name m) \<le> 59)"
  shows "volumes_inv sh acc' \<and> set (fst acc) \<subseteq> set (fst acc') \<and>
    (sh \<longrightarrow> (\<forall>m\<in>set ms. secret_volume (tsm_secret_name m) \<in> set (fst acc')))"
  using assms
proof (induction ms arbitrary: acc)
  case (Cons m ms)
  then obtain mid where step: "add_secret_volume m acc = Inr mid" and rest: "try_fold add_secret_volume ms mid = Inr acc'"
    by (auto simp: and_then_Ok_iff)
  from Cons.prems have "sh \<longrightarrow> length (tsm_secret_name m) \<le> 59" "sh \<longrightarrow> (\<forall>m\<in>set ms. length (tsm_secret_name m) \<le> 59)" by auto
  with add_secret_volume_inv [OF Cons.prems(1) step] Cons.IH [OF _ rest] show ?case by auto
qed simp

lemma volumes_inv_config:
  "volumes_inv sh ([\<lparr>vol_name = ''config'', vol_source = ConfigMapVolume c\<rparr>],
     [\<lparr>vm_name = ''config'', vm_mount_path = ''/etc/wicket'', vm_read_only = Some True\<rparr>], {''config''})"
  by (simp add: volumes_inv_def)

text \<open>
  The volumes of the pod are well formed: the first is the configuration, names are unique and at most
  63 bytes long, and the mounts of the container name the volumes one by one. When the Secret names have at
  most 59 bytes, nothing panics and every Secret of the plan has its volume.
\<close>

theorem pod_volumes_wf:
  "(\<forall>vols mounts. build_pod_volumes_and_mounts plan = Ok (vols, mounts) \<longrightarrow>
      \<lparr>vol_name = ''config'', vol_source = ConfigMapVolume (grp_config_map_name plan)\<rparr> \<in> set vols \<and>
      distinct (map vol_name vols) \<and> map vm_name mounts = map vol_name vols \<and> (\<forall>v\<in>set vols. length (vol_name v) \<le> 63)) \<and>
   ((\<forall>m\<in>set (grp_tls_secret_mounts plan). length (tsm_secret_name m) \<le> 59) \<longrightarrow>
      (\<exists>vols mounts. build_pod_volumes_and_mounts plan = Ok (vols, mounts) \<and>
         (\<forall>m\<in>set (grp_tls_secret_mounts plan). secret_volume (tsm_secret_name m) \<in> set vols)))"
  (is "?A \<and> ?B")
proof
  have some: "\<exists>acc'. try_fold add_secret_volume ms acc = Inr acc'" if "\<forall>m\<in>set ms. length (tsm_secret_name m) \<le> 59" for ms acc
    using that
    by (induction ms arbitrary: acc) (auto simp: add_secret_volume_def volume_name_short split: prod.splits)
  let ?ms = "grp_tls_secret_mounts plan" and ?c = "\<lparr>vol_name = ''config'', vol_source = ConfigMapVolume (grp_config_map_name plan)\<rparr>"
  let ?start = "([?c], [\<lparr>vm_name = ''config'', vm_mount_path = ''/etc/wicket'', vm_read_only = Some True\<rparr>], {''config''})"
  have built: "build_pod_volumes_and_mounts plan = and_then (try_fold add_secret_volume ?ms ?start) (\<lambda>(v, m, _). Ok (v, m))"
    by (simp add: build_pod_volumes_and_mounts_def)
  note inv = add_secret_volumes_inv [OF volumes_inv_config]
  show ?A
  proof (intro allI impI)
    fix vols mounts assume "build_pod_volumes_and_mounts plan = Ok (vols, mounts)"
    then obtain seen where run: "try_fold add_secret_volume ?ms ?start = Inr (vols, mounts, seen)"
      unfolding built and_then_Ok_iff by auto
    from inv [where sh = False, OF run] show "?c \<in> set vols \<and> distinct (map vol_name vols) \<and>
        map vm_name mounts = map vol_name vols \<and> (\<forall>v\<in>set vols. length (vol_name v) \<le> 63)"
      by (simp add: volumes_inv_def)
  qed
  show ?B
  proof
    assume short_names: "\<forall>m\<in>set ?ms. length (tsm_secret_name m) \<le> 59"
    from some [OF this, of ?start] obtain vols mounts seen where
      run: "try_fold add_secret_volume ?ms ?start = Inr (vols, mounts, seen)" by auto
    from inv [where sh = True, OF run] short_names
    show "\<exists>vols mounts. build_pod_volumes_and_mounts plan = Ok (vols, mounts) \<and>
        (\<forall>m\<in>set ?ms. secret_volume (tsm_secret_name m) \<in> set vols)"
      unfolding built run by simp
  qed
qed

section \<open>Rollouts\<close>

lemma plan_Ok_inputs:
  assumes "GatewayRuntimePlanner_plan L i = Ok p"
  shows "grp_gateway_namespace p = rpi_gateway_namespace i" "grp_gateway_name p = rpi_gateway_name i"
    "\<exists>b. owned_object_base_name L (rpi_gateway_name i) = Ok b \<and> grp_config_map_name p = config_map_name b \<and>
       grp_deployment_name p = deployment_name b \<and> grp_service_name p = service_name b \<and>
       grp_service_account_name p = service_account_name b"
    "\<exists>gw. snapshot_gateway (rpi_snapshot i) (rpi_gateway_namespace i) (rpi_gateway_name i) = Some gw \<and>
       service_ports_from_listeners gw = Ok (grp_service_ports p) \<and>
       grp_tls_secret_mounts p = tls_secret_mounts (rpi_gateway_namespace i) gw"
    "grp_runtime_metadata p = \<lparr>rmd_image = cc_proxy_image (rpi_controller_config i),
       rmd_replicas = cc_default_replicas (rpi_controller_config i),
       rmd_resources = cc_default_resources (rpi_controller_config i),
       rmd_node_selector = cc_default_node_selector (rpi_controller_config i)\<rparr>"
    "grp_service_type p = cc_default_service_type (rpi_controller_config i)"
  using assms by (auto simp: GatewayRuntimePlanner_plan_def Let_def plan_Ok_simps)

definition same_shape :: "GatewayRuntimePlan \<Rightarrow> GatewayRuntimePlan \<Rightarrow> bool" where
  "same_shape p q =
     (grp_runtime_metadata p = grp_runtime_metadata q \<and> grp_service_type p = grp_service_type q \<and>
      grp_service_ports p = grp_service_ports q \<and> grp_tls_secret_mounts p = grp_tls_secret_mounts q)"

lemma same_shape_hash:
  assumes "GatewayRuntimePlanner_plan L i = Ok p" "GatewayRuntimePlanner_plan L j = Ok q" "same_shape p q"
  shows "grp_spec_hash p = grp_spec_hash q"
  using plan_Ok_fields(2) [OF assms(1)] plan_Ok_fields(2) [OF assms(2)] assms(3) by (simp add: same_shape_def)

lemma hash_same_shape:
  assumes "GatewayRuntimePlanner_plan L i = Ok p" "GatewayRuntimePlanner_plan L j = Ok q"
    "grp_spec_hash p = grp_spec_hash q" "printed_apart L (shape_of p) (shape_of q)"
    "\<forall>a b. lib_json_to_string L (shape_of p) = Ok a \<and> lib_json_to_string L (shape_of q) = Ok b \<longrightarrow> no_collision L a b"
  shows "same_shape p q"
proof -
  obtain a b where ab: "lib_json_to_string L (shape_of p) = Ok a" "sha256_hex L a = grp_spec_hash p"
    "lib_json_to_string L (shape_of q) = Ok b" "sha256_hex L b = grp_spec_hash q"
    using plan_Ok_fields(2) [OF assms(1)] plan_Ok_fields(2) [OF assms(2)]
    by (auto simp: spec_hash_of_def shape_of_def split: sum.splits)
  have "no_collision L a b" using assms(5) ab(1,3) by blast
  with ab assms(3) have "a = b" by (simp add: no_collision_def)
  with ab assms(4) have "shape_of p = shape_of q" by (simp add: printed_apart_def)
  then show ?thesis by (simp add: shape_of_def apply_shape_inj same_shape_def)
qed

lemma same_names:
  assumes "GatewayRuntimePlanner_plan L i = Ok p" "GatewayRuntimePlanner_plan L j = Ok q"
    "rpi_gateway_namespace i = rpi_gateway_namespace j" "rpi_gateway_name i = rpi_gateway_name j"
  shows "grp_gateway_namespace p = grp_gateway_namespace q" "grp_gateway_name p = grp_gateway_name q"
    "grp_config_map_name p = grp_config_map_name q" "grp_service_account_name p = grp_service_account_name q"
  using plan_Ok_inputs(1-3) [OF assms(1)] plan_Ok_inputs(1-3) [OF assms(2)] assms(3,4) by auto

lemma template_of_shape:
  assumes "same_shape p q" "grp_spec_hash p = grp_spec_hash q"
    "grp_gateway_namespace p = grp_gateway_namespace q" "grp_gateway_name p = grp_gateway_name q"
    "grp_config_map_name p = grp_config_map_name q" "grp_service_account_name p = grp_service_account_name q"
  shows "build_pod_volumes_and_mounts p = build_pod_volumes_and_mounts q \<and> pod_template_of p = pod_template_of q \<and>
    svc_spec (service_of p) = svc_spec (service_of q)"
  using assms
  by (simp add: same_shape_def build_pod_volumes_and_mounts_def pod_template_of_def [abs_def] container_of_def
      pod_template_labels_def managed_labels_def service_of_def)

text \<open>
  Pods restart exactly when the runtime shape changes. For two plans of one Gateway, the spec revision is
  the same if and only if image, replicas, resources, node selector, service type, ports and certificate mounts are;
  then the pod template, the volumes and the Service specification are the same too, so a change of
  routes or of any other part of the configuration restarts no pod, and a change of the template is
  never hidden behind an unchanged revision.
\<close>

theorem spec_hash_fixes_pods:
  assumes "GatewayRuntimePlanner_plan L i = Ok p" "GatewayRuntimePlanner_plan L j = Ok q"
    and "rpi_gateway_namespace i = rpi_gateway_namespace j" "rpi_gateway_name i = rpi_gateway_name j"
    and "printed_apart L (shape_of p) (shape_of q)"
      "\<forall>a b. lib_json_to_string L (shape_of p) = Ok a \<and> lib_json_to_string L (shape_of q) = Ok b \<longrightarrow> no_collision L a b"
  shows "(grp_spec_hash p = grp_spec_hash q \<longleftrightarrow> same_shape p q) \<and>
    (grp_spec_hash p = grp_spec_hash q \<longrightarrow>
       build_pod_volumes_and_mounts p = build_pod_volumes_and_mounts q \<and> pod_template_of p = pod_template_of q \<and>
       svc_spec (service_of p) = svc_spec (service_of q))"
proof -
  have iff: "grp_spec_hash p = grp_spec_hash q \<longleftrightarrow> same_shape p q"
    using hash_same_shape [OF assms(1,2) _ assms(5,6)] same_shape_hash [OF assms(1,2)] by blast
  then show ?thesis using template_of_shape [OF _ _ same_names [OF assms(1-4)]] by blast
qed

text \<open>The controller's own configuration never asks for more replicas than fit.\<close>

lemma replicas_fit:
  assumes "ControllerConfig_new img r t = Ok cc"
  shows "i32_try_from (cc_default_replicas cc) = Some (uint r)"
proof -
  from assms have "\<not> r > 2147483647" "cc_default_replicas cc = r" by (auto simp: ControllerConfig_new_def split: if_splits)
  then have "uint r \<le> uint (2147483647 :: u32)" by (simp add: word_le_def not_less)
  then show ?thesis using \<open>cc_default_replicas cc = r\<close> by (simp add: i32_try_from_def)
qed

section \<open>After a successful apply\<close>

definition other_keys_kept :: "'w look \<Rightarrow> kube_kind \<times> string \<times> string \<Rightarrow> 'w \<Rightarrow> 'w \<Rightarrow> bool" where
  "other_keys_kept look key w w' = (\<forall>kind ns n. (kind, ns, n) \<noteq> key \<longrightarrow> look w' kind ns n = look w kind ns n)"

lemma preflight_Ok:
  assumes "reads_agree K look" "preflight K kind name ns s = (Inr b, s')"
  shows "look (ctl_cluster s') = look (ctl_cluster s)" "ctl_store s' = ctl_store s"
    "b \<longleftrightarrow> look (ctl_cluster s) kind ns name \<noteq> None"
    "\<forall>obj. look (ctl_cluster s) kind ns name = Some obj \<longrightarrow> object_managed obj"
proof -
  from assms(2) obtain m w where call: "k_get_opt K kind ns name (ctl_cluster s) = (Inr m, w)"
    and rest: "(case m of None \<Rightarrow> io_return False | Some metadata \<Rightarrow>
      if is_managed_by_controller (meta_labels metadata) then io_return True
      else io_fail (NotOwned ns name)) (s\<lparr>ctl_cluster := w\<rparr>) = (Inr b, s')"
    unfolding preflight_def io_simps by blast
  from rest have s': "s' = s\<lparr>ctl_cluster := w\<rparr>"
    and b: "case m of None \<Rightarrow> \<not> b | Some md \<Rightarrow> b \<and> is_managed_by_controller (meta_labels md)"
    by (cases m; auto simp: io_simps split: if_splits)+
  from assms(1) call have "look w = look (ctl_cluster s)" "m = map_option object_meta (look (ctl_cluster s) kind ns name)"
    by (auto simp: reads_agree_def)
  with s' b show "look (ctl_cluster s') = look (ctl_cluster s)" "ctl_store s' = ctl_store s"
    "b \<longleftrightarrow> look (ctl_cluster s) kind ns name \<noteq> None"
    "\<forall>obj. look (ctl_cluster s) kind ns name = Some obj \<longrightarrow> object_managed obj"
    by (auto simp: object_managed_def split: option.splits)
qed

lemma patch_Ok:
  assumes "applies_one K look" "patch_object K ns n obj s = (Inr u, s')"
  shows "other_keys_kept look (object_kind obj, ns, n) (ctl_cluster s) (ctl_cluster s')" "ctl_store s' = ctl_store s"
    "\<exists>obj'. look (ctl_cluster s') (object_kind obj) ns n = Some obj' \<and> applied_object obj obj'"
proof -
  from assms(2) obtain w where call: "k_apply K ns n obj (ctl_cluster s) = (Inr u, w)" and s': "s' = s\<lparr>ctl_cluster := w\<rparr>"
    by (auto simp: patch_object_def io_simps split: option.splits)
  from assms(1) call have
    "(\<forall>kind ns' n'. (kind, ns', n') \<noteq> (object_kind obj, ns, n) \<longrightarrow> look w kind ns' n' = look (ctl_cluster s) kind ns' n') \<and>
     (\<exists>obj'. look w (object_kind obj) ns n = Some obj' \<and> applied_object obj obj')"
    unfolding applies_one_def by blast
  with s' show "other_keys_kept look (object_kind obj, ns, n) (ctl_cluster s) (ctl_cluster s')" "ctl_store s' = ctl_store s"
    "\<exists>obj'. look (ctl_cluster s') (object_kind obj) ns n = Some obj' \<and> applied_object obj obj'"
    by (simp_all add: other_keys_kept_def)
qed

lemma managed_labels_managed: "is_managed_by_controller (Some (managed_labels plan))"
  by (simp add: is_managed_by_controller_def managed_labels_def hm_get_bt_collect LABEL_MANAGED_BY_def)

lemma applied_managed:
  assumes "applied_object obj obj'" "meta_labels (object_meta obj) = Some (managed_labels plan)"
  shows "object_managed obj'"
  using assms managed_labels_managed [of plan]
  by (auto simp: applied_object_def entries_sent_def object_managed_def is_managed_by_controller_def split: option.splits)

lemma applied_annotation:
  assumes "applied_object obj obj'" "meta_annotations (object_meta obj) = Some a" "hm_get a k = Some v"
  shows "Option.bind (meta_annotations (object_meta obj')) (\<lambda>a. hm_get a k) = Some v"
  using assms by (auto simp: applied_object_def entries_sent_def)

definition owned_at :: "'w look \<Rightarrow> 'w \<Rightarrow> kube_kind \<Rightarrow> string \<Rightarrow> string \<Rightarrow> bool" where
  "owned_at look w kind ns n = (\<exists>obj. look w kind ns n = Some obj \<and> object_kind obj = kind \<and> object_managed obj)"

definition annotated :: "'w look \<Rightarrow> 'w \<Rightarrow> kube_kind \<Rightarrow> string \<Rightarrow> string \<Rightarrow> string \<Rightarrow> string \<Rightarrow> bool" where
  "annotated look w kind ns n k v =
     (\<exists>obj. look w kind ns n = Some obj \<and> object_kind obj = kind \<and>
        Option.bind (meta_annotations (object_meta obj)) (\<lambda>a. hm_get a k) = Some v)"

lemma kept_owned:
  "other_keys_kept look key w w' \<Longrightarrow> (kind, ns, n) \<noteq> key \<Longrightarrow> owned_at look w' kind ns n = owned_at look w kind ns n"
  "other_keys_kept look key w w' \<Longrightarrow> (kind, ns, n) \<noteq> key \<Longrightarrow> annotated look w' kind ns n k v = annotated look w kind ns n k v"
  by (simp_all add: other_keys_kept_def owned_at_def annotated_def)

lemmas plan_objects =
  service_account_of_def config_map_of_def service_of_def deployment_of_def owned_object_meta_def

lemma write_owned:
  assumes "reads_agree K look" "applies_one K look"
    and pre: "preflight K (object_kind obj) n ns s = (Inr b, s1)" and patch: "patch_object K ns n obj s1 = (Inr u, s')"
    and "meta_labels (object_meta obj) = Some (managed_labels plan)"
  shows "owned_at look (ctl_cluster s') (object_kind obj) ns n"
    "other_keys_kept look (object_kind obj, ns, n) (ctl_cluster s) (ctl_cluster s')" "ctl_store s' = ctl_store s"
    "\<And>a k v. meta_annotations (object_meta obj) = Some a \<Longrightarrow> hm_get a k = Some v \<Longrightarrow>
       annotated look (ctl_cluster s') (object_kind obj) ns n k v"
proof -
  note read = preflight_Ok [OF assms(1) pre] and wrote = patch_Ok [OF assms(2) patch]
  obtain obj' where obj': "look (ctl_cluster s') (object_kind obj) ns n = Some obj'" "applied_object obj obj'"
    using wrote(3) by blast
  then have "object_kind obj' = object_kind obj" by (simp add: applied_object_def)
  with obj' applied_managed [OF obj'(2) assms(5)] applied_annotation [OF obj'(2)]
  show "owned_at look (ctl_cluster s') (object_kind obj) ns n"
    "\<And>a k v. meta_annotations (object_meta obj) = Some a \<Longrightarrow> hm_get a k = Some v \<Longrightarrow>
       annotated look (ctl_cluster s') (object_kind obj) ns n k v"
    by (simp_all add: owned_at_def annotated_def)
  show "other_keys_kept look (object_kind obj, ns, n) (ctl_cluster s) (ctl_cluster s')" "ctl_store s' = ctl_store s"
    using read(1,2) wrote(1,2) by (simp_all add: other_keys_kept_def)
qed

lemma apply_service_account_Ok:
  assumes "reads_agree K look" "applies_one K look" "apply_service_account K plan s = (Inr b, s')"
  shows "owned_at look (ctl_cluster s') KServiceAccount (grp_gateway_namespace plan) (grp_service_account_name plan)"
    "other_keys_kept look (KServiceAccount, grp_gateway_namespace plan, grp_service_account_name plan)
      (ctl_cluster s) (ctl_cluster s')" "ctl_store s' = ctl_store s"
proof -
  let ?o = "ServiceAccountObj (service_account_of plan)"
  from assms(3) obtain b' s1 u where
    "preflight K (object_kind ?o) (grp_service_account_name plan) (grp_gateway_namespace plan) s = (Inr b', s1)"
    "patch_object K (grp_gateway_namespace plan) (grp_service_account_name plan) ?o s1 = (Inr u, s')"
    by (auto simp: apply_defs io_simps)
  from write_owned [OF assms(1,2) this, of plan]
  show "owned_at look (ctl_cluster s') KServiceAccount (grp_gateway_namespace plan) (grp_service_account_name plan)"
    "other_keys_kept look (KServiceAccount, grp_gateway_namespace plan, grp_service_account_name plan)
      (ctl_cluster s) (ctl_cluster s')" "ctl_store s' = ctl_store s"
    by (simp_all add: plan_objects)
qed

lemma apply_service_Ok:
  assumes "reads_agree K look" "applies_one K look" "apply_service K plan s = (Inr b, s')"
  shows "owned_at look (ctl_cluster s') KService (grp_gateway_namespace plan) (grp_service_name plan)"
    "other_keys_kept look (KService, grp_gateway_namespace plan, grp_service_name plan) (ctl_cluster s) (ctl_cluster s')"
    "ctl_store s' = ctl_store s"
proof -
  let ?o = "ServiceObj (service_of plan)"
  from assms(3) obtain b' s1 u where
    "preflight K (object_kind ?o) (grp_service_name plan) (grp_gateway_namespace plan) s = (Inr b', s1)"
    "patch_object K (grp_gateway_namespace plan) (grp_service_name plan) ?o s1 = (Inr u, s')"
    by (auto simp: apply_defs io_simps)
  from write_owned [OF assms(1,2) this, of plan]
  show "owned_at look (ctl_cluster s') KService (grp_gateway_namespace plan) (grp_service_name plan)"
    "other_keys_kept look (KService, grp_gateway_namespace plan, grp_service_name plan) (ctl_cluster s) (ctl_cluster s')"
    "ctl_store s' = ctl_store s"
    by (simp_all add: plan_objects Let_def)
qed

lemma apply_deployment_Ok:
  assumes "reads_agree K look" "applies_one K look" "apply_deployment K plan s = (Inr r, s')"
  shows "owned_at look (ctl_cluster s') KDeployment (grp_gateway_namespace plan) (grp_deployment_name plan)"
    "annotated look (ctl_cluster s') KDeployment (grp_gateway_namespace plan) (grp_deployment_name plan)
       SPEC_REVISION_ANNOTATION (grp_spec_hash plan)"
    "other_keys_kept look (KDeployment, grp_gateway_namespace plan, grp_deployment_name plan) (ctl_cluster s) (ctl_cluster s')"
    "ctl_store s' = ctl_store s"
    "i32_try_from (rmd_replicas (grp_runtime_metadata plan)) \<noteq> None" "is_ok (build_pod_volumes_and_mounts plan)"
proof -
  from assms(3) obtain b' s1 u n vols where
    pre: "preflight K KDeployment (grp_deployment_name plan) (grp_gateway_namespace plan) s = (Inr b', s1)"
    and n: "i32_try_from (rmd_replicas (grp_runtime_metadata plan)) = Some n" and vols: "build_pod_volumes_and_mounts plan = Inr vols"
    and patch: "patch_object K (grp_gateway_namespace plan) (grp_deployment_name plan)
      (DeploymentObj (deployment_of plan n vols)) s1 = (Inr u, s')"
    by (auto simp: apply_defs io_simps split: option.splits)
  let ?o = "DeploymentObj (deployment_of plan n vols)"
  have "SPEC_REVISION_ANNOTATION \<noteq> CONFIG_REVISION_ANNOTATION" by (simp add: SPEC_REVISION_ANNOTATION_def CONFIG_REVISION_ANNOTATION_def)
  then obtain a where "meta_annotations (object_meta ?o) = Some a" "hm_get a SPEC_REVISION_ANNOTATION = Some (grp_spec_hash plan)"
    by (simp add: plan_objects Let_def hm_simps del: bt_insert.simps)
  moreover have "meta_labels (object_meta ?o) = Some (managed_labels plan)" by (simp add: plan_objects Let_def)
  ultimately show "owned_at look (ctl_cluster s') KDeployment (grp_gateway_namespace plan) (grp_deployment_name plan)"
    "annotated look (ctl_cluster s') KDeployment (grp_gateway_namespace plan) (grp_deployment_name plan)
       SPEC_REVISION_ANNOTATION (grp_spec_hash plan)"
    "other_keys_kept look (KDeployment, grp_gateway_namespace plan, grp_deployment_name plan) (ctl_cluster s) (ctl_cluster s')"
    "ctl_store s' = ctl_store s"
    "i32_try_from (rmd_replicas (grp_runtime_metadata plan)) \<noteq> None" "is_ok (build_pod_volumes_and_mounts plan)"
    using write_owned [OF assms(1,2) pre [folded object_kind.simps(4) [of "deployment_of plan n vols"]] patch, of plan] n vols
    by simp_all
qed

lemma apply_configmap_Ok:
  assumes "reads_agree K look" "applies_one K look" "apply_managed_configmap ft K plan s = (Inr r, s')"
  shows "\<exists>c. ft (grp_config_toml plan) = Inr c \<and> ctl_config s' = c"
    "other_keys_kept look (KConfigMap, grp_gateway_namespace plan, grp_config_map_name plan) (ctl_cluster s) (ctl_cluster s')"
    "ctl_store s' = ctl_store s"
    "annotated look (ctl_cluster s) KConfigMap (grp_gateway_namespace plan) (grp_config_map_name plan)
       CONFIG_REVISION_ANNOTATION (grp_config_hash plan) \<or> grp_config_changed plan \<Longrightarrow>
     owned_at look (ctl_cluster s') KConfigMap (grp_gateway_namespace plan) (grp_config_map_name plan) \<and>
     annotated look (ctl_cluster s') KConfigMap (grp_gateway_namespace plan) (grp_config_map_name plan)
       CONFIG_REVISION_ANNOTATION (grp_config_hash plan)"
proof -
  let ?ns = "grp_gateway_namespace plan" and ?n = "grp_config_map_name plan" and ?o = "ConfigMapObj (config_map_of plan)"
  from assms(3) obtain b s1 c where
    pre: "preflight K KConfigMap ?n ?ns s = (Inr b, s1)" and c: "ft (grp_config_toml plan) = Inr c"
    and cases: "(\<not> grp_config_changed plan \<and> s' = s1\<lparr>ctl_config := c\<rparr>) \<or>
      (grp_config_changed plan \<and> (\<exists>u s2. patch_object K ?ns ?n ?o s1 = (Inr u, s2) \<and> s' = s2\<lparr>ctl_config := c\<rparr>))"
    by (auto simp: apply_defs io_simps sync_config_def split: sum.splits if_splits)
  note read = preflight_Ok [OF assms(1) pre]
  show "\<exists>c. ft (grp_config_toml plan) = Inr c \<and> ctl_config s' = c" using c cases by auto
  have goal: "other_keys_kept look (KConfigMap, ?ns, ?n) (ctl_cluster s) (ctl_cluster s') \<and> ctl_store s' = ctl_store s \<and>
    (annotated look (ctl_cluster s) KConfigMap ?ns ?n CONFIG_REVISION_ANNOTATION (grp_config_hash plan) \<or> grp_config_changed plan \<longrightarrow>
       owned_at look (ctl_cluster s') KConfigMap ?ns ?n \<and>
       annotated look (ctl_cluster s') KConfigMap ?ns ?n CONFIG_REVISION_ANNOTATION (grp_config_hash plan))"
    using cases
  proof
    assume "\<not> grp_config_changed plan \<and> s' = s1\<lparr>ctl_config := c\<rparr>"
    then show ?thesis using read by (auto simp: other_keys_kept_def owned_at_def annotated_def)
  next
    assume "grp_config_changed plan \<and> (\<exists>u s2. patch_object K ?ns ?n ?o s1 = (Inr u, s2) \<and> s' = s2\<lparr>ctl_config := c\<rparr>)"
    then obtain u s2 where patch: "patch_object K ?ns ?n ?o s1 = (Inr u, s2)" and s': "s' = s2\<lparr>ctl_config := c\<rparr>" by blast
    obtain a where "meta_annotations (object_meta ?o) = Some a" "hm_get a CONFIG_REVISION_ANNOTATION = Some (grp_config_hash plan)"
      by (simp add: plan_objects Let_def hm_simps del: bt_insert.simps)
    moreover have "meta_labels (object_meta ?o) = Some (managed_labels plan)" by (simp add: plan_objects Let_def)
    ultimately show ?thesis
      using write_owned [OF assms(1,2) pre [folded object_kind.simps(2) [of "config_map_of plan"]] patch, of plan] s' by simp
  qed
  then show "other_keys_kept look (KConfigMap, ?ns, ?n) (ctl_cluster s) (ctl_cluster s')" "ctl_store s' = ctl_store s" by auto
  show "owned_at look (ctl_cluster s') KConfigMap ?ns ?n \<and>
     annotated look (ctl_cluster s') KConfigMap ?ns ?n CONFIG_REVISION_ANNOTATION (grp_config_hash plan)"
    if "annotated look (ctl_cluster s) KConfigMap ?ns ?n CONFIG_REVISION_ANNOTATION (grp_config_hash plan) \<or> grp_config_changed plan"
    using goal that by blast
qed

text \<open>The cluster holds the four owned objects of the plan, and the two revisions of the plan.\<close>

definition plan_applied :: "'w look \<Rightarrow> GatewayRuntimePlan \<Rightarrow> 'w \<Rightarrow> bool" where
  "plan_applied look plan w =
     ((\<forall>(kind, ns, n)\<in>plan_targets plan. owned_at look w kind ns n) \<and>
      annotated look w KConfigMap (grp_gateway_namespace plan) (grp_config_map_name plan)
        CONFIG_REVISION_ANNOTATION (grp_config_hash plan) \<and>
      annotated look w KDeployment (grp_gateway_namespace plan) (grp_deployment_name plan)
        SPEC_REVISION_ANNOTATION (grp_spec_hash plan))"

definition plan_applicable :: "(string \<Rightarrow> string + Config) \<Rightarrow> GatewayRuntimePlan \<Rightarrow> bool" where
  "plan_applicable ft plan =
     (is_ok (ft (grp_config_toml plan)) \<and> i32_try_from (rmd_replicas (grp_runtime_metadata plan)) \<noteq> None \<and>
      is_ok (build_pod_volumes_and_mounts plan))"

lemma apply_Ok:
  assumes "reads_agree K look" "applies_one K look" "apply_runtime_plan ft K plan s = (Inr r, s')"
    "annotated look (ctl_cluster s) KConfigMap (grp_gateway_namespace plan) (grp_config_map_name plan)
       CONFIG_REVISION_ANNOTATION (grp_config_hash plan) \<or> grp_config_changed plan"
  shows "plan_applied look plan (ctl_cluster s')" "ctl_store s' = ctl_store s" "plan_applicable ft plan"
    "Inr (ctl_config s') = ft (grp_config_toml plan)"
proof -
  from assms(3) obtain a s1 b s2 c s3 d where
    sa: "apply_service_account K plan s = (Inr a, s1)" and cm: "apply_managed_configmap ft K plan s1 = (Inr b, s2)"
    and svc: "apply_service K plan s2 = (Inr c, s3)" and dep: "apply_deployment K plan s3 = (Inr d, s')"
    by (auto simp: apply_runtime_plan_def io_simps split: prod.splits)
  note sa' = apply_service_account_Ok [OF assms(1,2) sa] and cm' = apply_configmap_Ok [OF assms(1,2) cm]
    and svc' = apply_service_Ok [OF assms(1,2) svc] and dep' = apply_deployment_Ok [OF assms(1,2) dep]
  have ready: "annotated look (ctl_cluster s1) KConfigMap (grp_gateway_namespace plan) (grp_config_map_name plan)
       CONFIG_REVISION_ANNOTATION (grp_config_hash plan) \<or> grp_config_changed plan"
    using assms(4) kept_owned(2) [OF sa'(2)] by simp
  show "plan_applied look plan (ctl_cluster s')"
    using sa'(1) cm'(4) [OF ready] svc'(1) dep'(1,2)
    by (simp add: plan_applied_def plan_targets_def kept_owned [OF cm'(2)] kept_owned [OF svc'(2)] kept_owned [OF dep'(3)])
  show "ctl_store s' = ctl_store s" using sa'(3) cm'(3) svc'(3) dep'(4) by simp
  show "plan_applicable ft plan" using cm'(1) dep'(5,6) by (auto simp: plan_applicable_def)
  have "ctl_config s3 = ctl_config s2" using svc by (auto simp: apply_defs preflight_def patch_object_def io_simps split: option.splits if_splits)
  moreover have "ctl_config s' = ctl_config s3"
    using dep by (auto simp: apply_defs preflight_def patch_object_def io_simps split: option.splits if_splits)
  ultimately show "Inr (ctl_config s') = ft (grp_config_toml plan)" using cm'(1) by auto
qed

section \<open>Applying again\<close>

text \<open>An API that answers every read of metadata and accepts every apply.\<close>

definition api_up :: "'w kube \<Rightarrow> bool" where
  "api_up K =
     ((\<forall>kind ns n w. is_ok (fst (k_get_opt K kind ns n w))) \<and> (\<forall>obj. k_to_value_error K obj = None) \<and>
      (\<forall>ns n obj w. is_ok (fst (k_apply K ns n obj w))))"

lemma preflight_owned:
  assumes "reads_agree K look" "api_up K" "owned_at look (ctl_cluster s) kind ns n"
  shows "\<exists>w. preflight K kind n ns s = (Inr True, s\<lparr>ctl_cluster := w\<rparr>) \<and> look w = look (ctl_cluster s)"
proof -
  obtain m w where call: "k_get_opt K kind ns n (ctl_cluster s) = (Inr m, w)"
    using assms(2) by (metis api_up_def is_ok_iff prod.collapse)
  with assms(1) have "look w = look (ctl_cluster s)" "m = map_option object_meta (look (ctl_cluster s) kind ns n)"
    by (auto simp: reads_agree_def)
  with call assms(3) show ?thesis
    by (auto simp: preflight_def io_try_def io_call_def map_err_def io_return_def owned_at_def object_managed_def)
qed

lemma patch_up:
  assumes "applies_one K look" "api_up K"
  shows "\<exists>w. patch_object K ns n obj s = (Inr (), s\<lparr>ctl_cluster := w\<rparr>) \<and>
    other_keys_kept look (object_kind obj, ns, n) (ctl_cluster s) w"
proof -
  obtain u w where call: "k_apply K ns n obj (ctl_cluster s) = (Inr u, w)"
    using assms(2) by (metis api_up_def is_ok_iff prod.collapse)
  then have run: "patch_object K ns n obj s = (Inr u, s\<lparr>ctl_cluster := w\<rparr>)"
    using assms(2) by (simp add: patch_object_def api_up_def io_call_def map_err_def)
  from patch_Ok(1) [OF assms(1) run] run show ?thesis by auto
qed

lemma preflight_patch_up:
  assumes "reads_agree K look" "applies_one K look" "api_up K" "owned_at look (ctl_cluster s) (object_kind obj) ns n"
  shows "\<exists>w. io_try (preflight K (object_kind obj) n ns) (\<lambda>b. io_try (patch_object K ns n obj) (\<lambda>_. f b)) s =
      f True (s\<lparr>ctl_cluster := w\<rparr>) \<and> other_keys_kept look (object_kind obj, ns, n) (ctl_cluster s) w"
proof -
  obtain w where pre: "preflight K (object_kind obj) n ns s = (Inr True, s\<lparr>ctl_cluster := w\<rparr>)" "look w = look (ctl_cluster s)"
    using preflight_owned [OF assms(1,3,4)] by blast
  obtain w' where patch: "patch_object K ns n obj (s\<lparr>ctl_cluster := w\<rparr>) = (Inr (), s\<lparr>ctl_cluster := w'\<rparr>)"
    "other_keys_kept look (object_kind obj, ns, n) w w'"
    using patch_up [OF assms(2,3), of ns n obj "s\<lparr>ctl_cluster := w\<rparr>"] by auto
  from patch(2) pre(2) have "other_keys_kept look (object_kind obj, ns, n) (ctl_cluster s) w'"
    by (simp add: other_keys_kept_def)
  moreover have "io_try (preflight K (object_kind obj) n ns) (\<lambda>b. io_try (patch_object K ns n obj) (\<lambda>_. f b)) s =
      f True (s\<lparr>ctl_cluster := w'\<rparr>)"
    by (simp add: io_try_def pre(1) patch(1))
  ultimately show ?thesis by blast
qed

lemma apply_noop:
  assumes "reads_agree K look" "applies_one K look" "api_up K"
    and "plan_applied look plan (ctl_cluster s)" "plan_applicable ft plan" "is_noop plan"
  shows "\<exists>s'. apply_runtime_plan ft K plan s =
    (Inr \<lparr>rar2_service_account_created = False, rar2_config_result = Some ApplyNoOp, rar2_service_changed = False,
       rar2_deployment_changed = False, rar2_rollout_triggered = False\<rparr>, s')"
proof -
  let ?ns = "grp_gateway_namespace plan"
  from assms(4) have own: "owned_at look (ctl_cluster s) KServiceAccount ?ns (grp_service_account_name plan)"
    "owned_at look (ctl_cluster s) KConfigMap ?ns (grp_config_map_name plan)"
    "owned_at look (ctl_cluster s) KService ?ns (grp_service_name plan)"
    "owned_at look (ctl_cluster s) KDeployment ?ns (grp_deployment_name plan)"
    by (simp_all add: plan_applied_def plan_targets_def)
  from assms(5) obtain c n vols where ok: "ft (grp_config_toml plan) = Inr c"
    "i32_try_from (rmd_replicas (grp_runtime_metadata plan)) = Some n" "build_pod_volumes_and_mounts plan = Inr vols"
    by (auto simp: plan_applicable_def is_ok_iff)
  from assms(6) have flags: "\<not> grp_config_changed plan" "\<not> grp_spec_changed plan" by (simp_all add: is_noop_def)
  note step = preflight_patch_up [OF assms(1-3)]
  obtain w1 where sa: "apply_service_account K plan s = (Inr False, s\<lparr>ctl_cluster := w1\<rparr>)"
    and k1: "other_keys_kept look (KServiceAccount, ?ns, grp_service_account_name plan) (ctl_cluster s) w1"
    using step [of s "ServiceAccountObj (service_account_of plan)" ?ns "grp_service_account_name plan" "\<lambda>b. io_return (\<not> b)"] own(1)
    by (auto simp: apply_defs io_return_def)
  let ?s1 = "s\<lparr>ctl_cluster := w1\<rparr>"
  obtain w2 where "preflight K KConfigMap (grp_config_map_name plan) ?ns ?s1 = (Inr True, ?s1\<lparr>ctl_cluster := w2\<rparr>)" "look w2 = look w1"
    using preflight_owned [OF assms(1,3), of ?s1 KConfigMap ?ns "grp_config_map_name plan"] own(2) kept_owned(1) [OF k1] by auto
  then have cm: "apply_managed_configmap ft K plan ?s1 = (Inr ApplyNoOp, ?s1\<lparr>ctl_cluster := w2, ctl_config := c\<rparr>)"
    and k2: "look w2 = look w1"
    using flags by (simp_all add: apply_defs io_try_def ok io_return_def sync_config_def)
  let ?s2 = "?s1\<lparr>ctl_cluster := w2, ctl_config := c\<rparr>"
  obtain w3 where svc: "apply_service K plan ?s2 = (Inr False, ?s2\<lparr>ctl_cluster := w3\<rparr>)"
    and k3: "other_keys_kept look (KService, ?ns, grp_service_name plan) w2 w3"
    using step [of ?s2 "ServiceObj (service_of plan)" ?ns "grp_service_name plan" "\<lambda>b. io_return (\<not> b \<or> grp_spec_changed plan)"]
      own(3) kept_owned(1) [OF k1] k2 flags
    by (auto simp: apply_defs io_return_def owned_at_def)
  let ?s3 = "?s2\<lparr>ctl_cluster := w3\<rparr>"
  have own4: "owned_at look (ctl_cluster ?s3) KDeployment ?ns (grp_deployment_name plan)"
    using own(4) kept_owned(1) [OF k1] kept_owned(1) [OF k3] k2 by (simp add: owned_at_def)
  obtain w4 where pre: "preflight K KDeployment (grp_deployment_name plan) ?ns ?s3 = (Inr True, ?s3\<lparr>ctl_cluster := w4\<rparr>)"
    using preflight_owned [OF assms(1,3) own4] by blast
  obtain w5 where patch: "patch_object K ?ns (grp_deployment_name plan) (DeploymentObj (deployment_of plan n vols))
      (?s3\<lparr>ctl_cluster := w4\<rparr>) = (Inr (), (?s3\<lparr>ctl_cluster := w4\<rparr>)\<lparr>ctl_cluster := w5\<rparr>)"
    using patch_up [OF assms(2,3), of ?ns "grp_deployment_name plan" "DeploymentObj (deployment_of plan n vols)"] by blast
  from pre patch have "apply_deployment K plan ?s3 = (Inr (False, False), ?s3\<lparr>ctl_cluster := w5\<rparr>)"
    using flags by (simp add: apply_defs io_try_def ok io_return_def io_panics_def map_err_def)
  with sa cm svc show ?thesis by (simp add: apply_runtime_plan_def io_try_def io_return_def)
qed

section \<open>Examples\<close>

text \<open>A cluster that stores each object under its kind, namespace and name.\<close>

type_synonym example_cluster = "(kube_kind \<times> string \<times> string, k8s_object) hashmap"

definition not_found :: kube_error where
  "not_found = \<lparr>ke_code = Some 404, ke_display = ''not found''\<rparr>"

definition example_look :: "example_cluster look" where
  "example_look w kind ns n = hm_get w (kind, ns, n)"

definition example_class :: GatewayClass where
  "example_class = \<lparr>gc_metadata = ObjectMeta_default\<lparr>meta_name := Some ''wicket''\<rparr>,
     gc_spec = \<lparr>gcs_controller_name = WICKET_CONTROLLER_NAME, gcs_description = None, gcs_parameters_ref = None\<rparr>, gc_status = None\<rparr>"

definition example_kube :: "example_cluster kube" where
  "example_kube =
     \<lparr>k_get_opt = (\<lambda>kind ns n w. (Ok (map_option object_meta (hm_get w (kind, ns, n))), w)),
      k_to_value_error = (\<lambda>_. None),
      k_apply = (\<lambda>ns n obj w. (Ok (), hm_insert (object_kind obj, ns, n) obj w)),
      k_get_configmap = (\<lambda>ns n w. (case hm_get w (KConfigMap, ns, n) of Some (ConfigMapObj c) \<Rightarrow> Ok c | _ \<Rightarrow> Err not_found, w)),
      k_get_deployment = (\<lambda>ns n w. (case hm_get w (KDeployment, ns, n) of Some (DeploymentObj d) \<Rightarrow> Ok d | _ \<Rightarrow> Err not_found, w)),
      k_get_service = (\<lambda>ns n w. (case hm_get w (KService, ns, n) of Some (ServiceObj v) \<Rightarrow> Ok v | _ \<Rightarrow> Err not_found, w)),
      k_list_nodes = (\<lambda>w. (Ok [], w)),
      k_get_gateway_class = (\<lambda>n w. (if n = ''wicket'' then Ok example_class else Err not_found, w)),
      k_patch_gateway_status = (\<lambda>_ _ status w. (Ok (ex_gateway\<lparr>gw_status := Some status\<rparr>), w)),
      k_list_gateways = (\<lambda>w. (Ok [], w)),
      k_get_gateway = (\<lambda>ns n w. (if ns = ''infra'' \<and> n = ''gw'' then Ok ex_gateway else Err not_found, w)),
      k_patch_http_status = (\<lambda>_ _ _ w. (Ok (), w)), k_patch_tcp_status = (\<lambda>_ _ _ w. (Ok (), w)),
      k_patch_tls_status = (\<lambda>_ _ _ w. (Ok (), w)), k_patch_class_status = (\<lambda>_ _ w. (Ok (), w)),
      k_list_http_routes = (\<lambda>w. (Ok [], w)), k_list_tcp_routes = (\<lambda>w. (Ok [], w)), k_list_tls_routes = (\<lambda>w. (Ok [], w)),
      k_list_classes = (\<lambda>w. (Ok [], w)), k_list_grants = (\<lambda>_ w. (Ok [], w)), k_list_slices = (\<lambda>_ _ w. (Ok [], w))\<rparr>"

lemma example_reads: "reads_agree example_kube example_look"
  by (simp add: reads_agree_def example_kube_def example_look_def)

lemma applied_refl: "applied_object obj obj"
  by (auto simp: applied_object_def entries_sent_def)

lemma example_applies: "applies_one example_kube example_look"
  by (auto simp: applies_one_def example_kube_def example_look_def hm_simps applied_refl)

lemma example_up: "api_up example_kube"
  by (simp add: api_up_def example_kube_def)

definition example_plan :: "string list \<Rightarrow> GatewayRuntimePlan" where
  "example_plan secrets =
     \<lparr>grp_gateway_namespace = ''infra'', grp_gateway_name = ''gw'', grp_gateway_uid = ''uid'', grp_gateway_generation = 1,
      grp_owned_object_base_name = ''wicket-gw-gw'', grp_config_map_name = config_map_name ''wicket-gw-gw'',
      grp_deployment_name = deployment_name ''wicket-gw-gw'', grp_service_name = service_name ''wicket-gw-gw'',
      grp_service_account_name = service_account_name ''wicket-gw-gw'', grp_config_hash = ''c1'', grp_spec_hash = ''s1'',
      grp_config_toml = [], grp_runtime_metadata = RuntimeMetadata_default, grp_service_type = ClusterIP,
      grp_service_ports = [],
      grp_tls_secret_mounts = map (\<lambda>n. \<lparr>tsm_secret_name = n, tsm_secret_namespace = ''infra'', tsm_mount_path = tls_mount_dir n\<rparr>) secrets,
      grp_listener_statuses = [], grp_config_changed = True, grp_spec_changed = True\<rparr>"

definition example_ctl :: "'w \<Rightarrow> 'w ctl" where
  "example_ctl w = \<lparr>ctl_cluster = w, ctl_store = SharedStore_new, ctl_config = Config_default, ctl_metrics = []\<rparr>"

text \<open>A Service of that name that somebody else created.\<close>

definition foreign_service :: k8s_object where
  "foreign_service = ServiceObj \<lparr>svc_metadata = ObjectMeta_default, svc_spec = None, svc_ingress = None\<rparr>"

theorem unowned_objects_untouched_witness:
  "let key = (KService, ''infra'', service_name ''wicket-gw-gw'');
       run = apply_runtime_plan (\<lambda>_. Ok Config_default) example_kube (example_plan []) (example_ctl [(key, foreign_service)]) in
   hm_get (ctl_cluster (snd run)) key = Some foreign_service \<and> \<not> is_ok (fst run)"
proof -
  let ?w = "[((KService, ''infra'', service_name ''wicket-gw-gw''), foreign_service)]"
  have "example_look (ctl_cluster (example_ctl ?w)) KService ''infra'' (service_name ''wicket-gw-gw'') = Some foreign_service"
    "\<not> is_managed_by_controller (meta_labels (object_meta foreign_service))"
    "(KService, ''infra'', service_name ''wicket-gw-gw'') \<in> plan_targets (example_plan [])"
    by (simp_all add: example_look_def example_ctl_def foreign_service_def is_managed_by_controller_def
        ObjectMeta_default_def plan_targets_def example_plan_def hm_get_def)
  with unowned_objects_untouched [OF example_reads example_applies this(1,2)] show ?thesis
    by (simp add: Let_def example_look_def)
qed

theorem pod_volumes_wf_witness:
  "\<exists>vols mounts. build_pod_volumes_and_mounts (example_plan [''edge'', ''api'']) = Ok (vols, mounts) \<and>
     {secret_volume ''edge'', secret_volume ''api''} \<subseteq> set vols \<and> distinct (map vol_name vols)"
proof -
  have "\<forall>m\<in>set (grp_tls_secret_mounts (example_plan [''edge'', ''api''])). length (tsm_secret_name m) \<le> 59"
    by (simp add: example_plan_def)
  with pod_volumes_wf [of "example_plan [''edge'', ''api'']"] show ?thesis by (fastforce simp: example_plan_def)
qed

definition ex_accepted :: "(string, HTTPRoute) hashmap" where
  "ex_accepted = [(''app/a'', ex_half_accepted)]"

theorem spec_hash_fixes_pods_witness:
  "\<exists>p q. GatewayRuntimePlanner_plan example_libs (example_input ex_accepted) = Ok p \<and>
     GatewayRuntimePlanner_plan example_libs (example_input []) = Ok q \<and>
     grp_config_toml p \<noteq> grp_config_toml q \<and> pod_template_of p = pod_template_of q"
proof -
  let ?plan = "\<lambda>rs. GatewayRuntimePlanner_plan example_libs (example_input rs)"
  have "is_ok (?plan ex_accepted)" "is_ok (?plan [])"
    "map_option grp_config_toml (ok_of (?plan ex_accepted)) \<noteq> map_option grp_config_toml (ok_of (?plan []))"
    "map_option shape_of (ok_of (?plan ex_accepted)) = map_option shape_of (ok_of (?plan []))"
    "map_option grp_spec_hash (ok_of (?plan ex_accepted)) = map_option grp_spec_hash (ok_of (?plan []))" by code_simp+
  then obtain p q where p: "?plan ex_accepted = Ok p" and q: "?plan [] = Ok q" and toml: "grp_config_toml p \<noteq> grp_config_toml q"
    and eq: "shape_of p = shape_of q" "grp_spec_hash p = grp_spec_hash q" by (auto simp: is_ok_iff ok_of_def)
  have "printed_apart example_libs (shape_of p) (shape_of q)"
    "\<forall>a b. lib_json_to_string example_libs (shape_of p) = Ok a \<and> lib_json_to_string example_libs (shape_of q) = Ok b \<longrightarrow>
       no_collision example_libs a b"
    using eq by (auto simp: printed_apart_def no_collision_def)
  with spec_hash_fixes_pods [OF p q] eq p q toml show ?thesis by (simp add: example_input_def)
qed

text \<open>
  Two Secrets whose names share their first 59 bytes get one volume: the second is never mounted, while the
  container's mounts and the configuration speak of both.
\<close>

theorem long_secret_unmounted:
  "let a = replicate 59 CHR ''x'' @ ''-one''; b = replicate 59 CHR ''x'' @ ''-two'' in
   case build_pod_volumes_and_mounts (example_plan [a, b]) of
     Inl _ \<Rightarrow> False
   | Inr (vols, mounts) \<Rightarrow>
       map vol_source vols = [ConfigMapVolume (config_map_name ''wicket-gw-gw''), SecretVolume a 288 False] \<and>
       tls_mount_dir b \<notin> set (map vm_mount_path mounts)"
  by code_simp

end
