(* ===== verification/Reconciler_Common.thy ===== *)
theory Reconciler_Common
  imports Runtime_Applier
begin

text \<open>
  What the reconcilers share: the context (\<^verbatim>\<open>reconcilers/context.rs\<close>), the result of a reconcile, the status helpers
  (\<^verbatim>\<open>reconcilers/status_helpers.rs\<close>), the reconcile metrics, and the rules by which a handler's writes to the
  shared store are seen to be operations of the store.
\<close>

section \<open>Context and actions\<close>

text \<open>
  The fields of \<^verbatim>\<open>Context\<close> that the reconcilers read, with the libraries they call; the in-memory
  configuration and the store are part of the state.
\<close>

record 'w Context =
  cx_client :: "'w kube"
  cx_libs :: libs
  cx_toml_from_str :: "string \<Rightarrow> string + Config"
  cx_controller_config :: ControllerConfig

datatype Action = AwaitChange | Requeue nat


text \<open>The answers to the list calls of a controller that starts.\<close>

datatype 'a list_attempt = Listed 'a | ListFailed | ListTimedOut

text \<open>
  The loop before a controller's watch, on the answers to its successive list calls: it waits twice the attempt
  number, at most thirty seconds, after an error, and five after a timeout; it ends with the first list, which is taken
  into the store before the class is marked as listed. The waits, and the store if the loop ended.
\<close>

fun initial_list ::
  "('a list \<Rightarrow> SharedStore \<Rightarrow> SharedStore) \<Rightarrow> ResourceClass \<Rightarrow> u32 \<Rightarrow> 'a list list_attempt list \<Rightarrow> SharedStore \<Rightarrow>
   u32 list \<times> SharedStore option" where
  "initial_list ingest rc attempt [] store = ([], None)"
| "initial_list ingest rc attempt (a # as) store =
     (let attempt = attempt + 1 in
      case a of
        Listed items \<Rightarrow> ([], Some (mark_listed rc (ingest items store)))
      | ListFailed \<Rightarrow> apfst (Cons (min (attempt * 2) 30)) (initial_list ingest rc attempt as store)
      | ListTimedOut \<Rightarrow> apfst (Cons 5) (initial_list ingest rc attempt as store))"

fun first_listed :: "'a list_attempt list \<Rightarrow> 'a option" where
  "first_listed [] = None"
| "first_listed (Listed x # as) = Some x"
| "first_listed (_ # as) = first_listed as"

lemma initial_list_result:
  "snd (initial_list ingest rc n as st) = map_option (\<lambda>items. mark_listed rc (ingest items st)) (first_listed as)"
  by (induction as arbitrary: n rule: first_listed.induct) (simp_all add: Let_def)

lemma initial_list_waits: "w \<in> set (fst (initial_list ingest rc n as st)) \<Longrightarrow> w \<le> 30"
  by (induction as arbitrary: n) (auto simp: Let_def split: list_attempt.splits)

section \<open>Reconcile metrics\<close>

definition ReconcileMetrics_record_success :: "string \<Rightarrow> ('w, 'e, unit) io" where
  "ReconcileMetrics_record_success resource_type = io_metric (CounterReconcile resource_type ''success'') 1"

section \<open>Status helpers\<close>

definition conditions_semantically_equal :: "Condition list \<Rightarrow> Condition list \<Rightarrow> bool" where
  "conditions_semantically_equal a b =
     (if length a \<noteq> length b then False
      else list_all (\<lambda>(x, y). cond_type x = cond_type y \<and> cond_status x = cond_status y \<and>
             cond_reason x = cond_reason y \<and> cond_message x = cond_message y \<and>
             cond_observed_generation x = cond_observed_generation y) (zip a b))"

definition preserve_timestamp :: "Condition list \<Rightarrow> Condition \<Rightarrow> Condition" where
  "preserve_timestamp existing cond =
     (case find (\<lambda>e. cond_type e = cond_type cond) existing of
        None \<Rightarrow> cond
      | Some prev \<Rightarrow>
          if cond_status prev = cond_status cond
          then cond\<lparr>cond_last_transition_time := cond_last_transition_time prev\<rparr> else cond)"

definition preserve_condition_timestamps :: "Condition list \<Rightarrow> Condition list \<Rightarrow> Condition list" where
  "preserve_condition_timestamps new existing = map (preserve_timestamp existing) new"

section \<open>Conditions up to timestamps\<close>

definition untimed :: "Condition \<Rightarrow> Condition" where
  "untimed c = c\<lparr>cond_last_transition_time := []\<rparr>"

lemma list_all_zip_map:
  "length a = length b \<Longrightarrow> list_all (\<lambda>(x, y). f x = f y) (zip a b) \<longleftrightarrow> map f a = map f b"
  by (induction a b rule: list_induct2) auto

lemma untimed_eq_iff:
  "untimed x = untimed y \<longleftrightarrow> cond_type x = cond_type y \<and> cond_status x = cond_status y \<and> cond_reason x = cond_reason y \<and>
     cond_message x = cond_message y \<and> cond_observed_generation x = cond_observed_generation y"
  by (cases x; cases y) (auto simp: untimed_def)

lemma conditions_equal_iff: "conditions_semantically_equal a b \<longleftrightarrow> map untimed a = map untimed b"
proof (cases "length a = length b")
  case True
  then show ?thesis
    by (simp add: conditions_semantically_equal_def list_all_zip_map [of _ _ untimed, symmetric] untimed_eq_iff)
next
  case False
  then show ?thesis by (auto simp: conditions_semantically_equal_def dest: map_eq_imp_length_eq)
qed

lemma untimed_preserve: "untimed (preserve_timestamp ex c) = untimed c"
  by (simp add: preserve_timestamp_def untimed_def split: option.split)

lemma untimed_new: "untimed (with_observed_generation g (Condition_new now t ok r m)) =
    untimed (with_observed_generation g (Condition_new now' t ok r m))"
  by (simp add: untimed_def with_observed_generation_def Condition_new_def)

lemmas condition_kinds =
  Condition_accepted_def Condition_programmed_def Condition_resolved_refs_def Condition_not_programmed_def
  Condition_not_programmed_warming_up_def Condition_not_programmed_observation_fault_def Condition_not_accepted_def


section \<open>Writes to the store\<close>

text \<open>
  \<^verbatim>\<open>store_reached s0 s\<close>: the store \<^verbatim>\<open>s\<close> results from \<^verbatim>\<open>s0\<close> by operations of the store that neither force it ready nor
  replace it nor mark a class as listed. A handler keeps a predicate of the store when it does so on every outcome.
\<close>

named_theorems keeps_rules \<open>handlers that keep a predicate of the store\<close>

fun handler_event :: "store_event \<Rightarrow> bool" where
  "handler_event MarkReady = False"
| "handler_event (ReplaceAll _) = False"
| "handler_event (MarkListed _) = False"
| "handler_event _ = True"

lemma handler_controller: "handler_event e \<Longrightarrow> controller_event e"
  by (cases e) simp_all

definition store_reached :: "SharedStore \<Rightarrow> SharedStore \<Rightarrow> bool" where
  "store_reached s0 s = (\<exists>es. list_all handler_event es \<and> s = foldl store_step s0 es)"

lemma store_reached_refl [simp]: "store_reached s s"
  unfolding store_reached_def by (rule exI [of _ "[]"]) simp

lemma store_reached_step: "store_reached s0 s \<Longrightarrow> handler_event e \<Longrightarrow> store_reached s0 (store_step s e)"
  unfolding store_reached_def by (elim exE conjE) (rule_tac x = "es @ [e]" in exI, simp)

lemma store_reached_trans: "store_reached s0 s \<Longrightarrow> store_reached s s' \<Longrightarrow> store_reached s0 s'"
  unfolding store_reached_def by (elim exE conjE) (rule_tac x = "es @ esa" in exI, simp)

lemma store_reached_inv: "store_inv s0 \<Longrightarrow> store_reached s0 s \<Longrightarrow> store_inv s"
  using store.run_inv [of s0] by (auto simp: store_reached_def list_all_iff)

lemma store_reached_phase:
  assumes "store_reached s0 s" "si_phase (ss_inner s0) = phase_of A"
  shows "si_phase (ss_inner s) = phase_of A"
proof -
  obtain es where es: "list_all handler_event es" "s = foldl store_step s0 es" using assms(1) unfolding store_reached_def by blast
  then have "list_all controller_event es" "{rc. MarkListed rc \<in> set es} = {}"
    by (auto simp: list_all_iff intro: handler_controller)
  with store_run_phase [OF this(1) assms(2)] es(2) show ?thesis by simp
qed

definition keeps :: "(SharedStore \<Rightarrow> bool) \<Rightarrow> ('w, 'e, 'a) io \<Rightarrow> bool" where
  "keeps P m = io_inv (\<lambda>s. P (ctl_store s)) m (\<lambda>_. True)"

lemma keepsD: "keeps P m \<Longrightarrow> P (ctl_store s) \<Longrightarrow> P (ctl_store (snd (m s)))"
  by (simp add: keeps_def io_inv_def)

lemma keeps_try [keeps_rules]: "keeps P m \<Longrightarrow> (\<And>x. keeps P (f x)) \<Longrightarrow> keeps P (io_try m f)"
  unfolding keeps_def by (rule io_inv_try)

lemma keeps_basic [keeps_rules]:
  "keeps P (io_return x)" "keeps P (io_fail e)" "keeps P (io_panics r)" "keeps P (io_result q)" "keeps P (io_read f)"
  by (simp_all add: keeps_def io_inv_return io_inv_fail io_inv_panics io_inv_result io_inv_read)

lemma keeps_call [keeps_rules]: "keeps P (io_call f c)" "keeps P (io_attempt c)" "keeps P (io_metric g v)"
  by (auto simp: keeps_def io_inv_def io_call_def io_attempt_def io_metric_def split: prod.splits)

lemma keeps_store: "(\<And>st. P st \<Longrightarrow> P (f st)) \<Longrightarrow> keeps P (io_store f)"
  by (simp add: keeps_def io_inv_def io_store_def)

lemma keeps_map_err [keeps_rules]: "keeps P m \<Longrightarrow> keeps P (io_map_err f m)"
  unfolding keeps_def by (rule io_inv_map_err)

lemma keeps_catch [keeps_rules]: "keeps P m \<Longrightarrow> keeps P (io_catch m)"
  unfolding keeps_def by (rule io_inv_catch) simp_all

lemma keeps_for [keeps_rules]: "(\<And>x. keeps P (f x)) \<Longrightarrow> keeps P (io_for f xs)"
  unfolding keeps_def by (rule io_inv_for)

lemma keeps_option [keeps_rules]: "keeps P m \<Longrightarrow> (\<And>x. keeps P (f x)) \<Longrightarrow> keeps P (case x of None \<Rightarrow> m | Some x \<Rightarrow> f x)"
  by (cases x) simp_all

lemma keeps_sum [keeps_rules]: "(\<And>e. keeps P (f e)) \<Longrightarrow> (\<And>x. keeps P (g x)) \<Longrightarrow> keeps P (case r of Inl e \<Rightarrow> f e | Inr x \<Rightarrow> g x)"
  by (cases r) simp_all

lemma keeps_prod [keeps_rules]: "(\<And>a b. keeps P (f a b)) \<Longrightarrow> keeps P (case p of (a, b) \<Rightarrow> f a b)"
  by (cases p) simp

lemma keeps_if [keeps_rules]: "keeps P m \<Longrightarrow> keeps P n \<Longrightarrow> keeps P (if b then m else n)"
  by simp

lemma keeps_let [keeps_rules]: "keeps P (f x) \<Longrightarrow> keeps P (let y = x in f y)"
  by simp

lemma keeps_apply [keeps_rules]: "keeps P (apply_runtime_plan ft K plan)"
proof -
  have "keeps P (sync_config c)" for c by (simp add: keeps_def io_inv_def sync_config_def)
  then show ?thesis
    unfolding apply_runtime_plan_def apply_defs preflight_def patch_object_def by (intro keeps_rules)
qed


lemmas store_reached_writes =
  store_reached_step [where e = "UpsertGateway k g" for k g, simplified]
  store_reached_step [where e = "RemoveGateway k" for k, simplified]
  store_reached_step [where e = "UpsertGatewayClass k g" for k g, simplified]
  store_reached_step [where e = "RemoveGatewayClass k" for k, simplified]
  store_reached_step [where e = "UpsertHttpRoute k g" for k g, simplified]
  store_reached_step [where e = "RemoveHttpRoute k" for k, simplified]
  store_reached_step [where e = "UpsertTcpRoute k g" for k g, simplified]
  store_reached_step [where e = "RemoveTcpRoute k" for k, simplified]
  store_reached_step [where e = "UpsertTlsRoute k g" for k g, simplified]
  store_reached_step [where e = "RemoveTlsRoute k" for k, simplified]
  store_reached_step [where e = "UpsertEndpoints k g" for k g, simplified]
  store_reached_step [where e = "RemoveEndpoints k" for k, simplified]
  store_reached_step [where e = "UpsertServicePresence k" for k, simplified]
  store_reached_step [where e = "ReplaceServicePresence k" for k, simplified]
  store_reached_step [where e = "UpsertTlsSecret k g h" for k g h, simplified]
  store_reached_step [where e = "RemoveTlsSecret k" for k, simplified]
  store_reached_step [where e = "UpsertReferenceGrant k g" for k g, simplified]
  store_reached_step [where e = "RemoveReferenceGrant k" for k, simplified]

lemma keeps_writes [keeps_rules]:
  "keeps (store_reached s0) (io_store (upsert_gateway k g))" "keeps (store_reached s0) (io_store (remove_gateway k))"
  "keeps (store_reached s0) (io_store (upsert_gateway_class k gc))" "keeps (store_reached s0) (io_store (remove_gateway_class k))"
  "keeps (store_reached s0) (io_store (upsert_http_route k hr))" "keeps (store_reached s0) (io_store (remove_http_route k))"
  "keeps (store_reached s0) (io_store (upsert_tcp_route k tr))" "keeps (store_reached s0) (io_store (remove_tcp_route k))"
  "keeps (store_reached s0) (io_store (upsert_tls_route k lr))" "keeps (store_reached s0) (io_store (remove_tls_route k))"
  "keeps (store_reached s0) (io_store (upsert_endpoints k ep))" "keeps (store_reached s0) (io_store (remove_endpoints k))"
  "keeps (store_reached s0) (io_store (upsert_service_presence k))" "keeps (store_reached s0) (io_store (replace_service_presence A))"
  "keeps (store_reached s0) (io_store (upsert_tls_secret k c p))" "keeps (store_reached s0) (io_store (remove_tls_secret k))"
  "keeps (store_reached s0) (io_store (upsert_reference_grant k rg))" "keeps (store_reached s0) (io_store (remove_reference_grant k))"
  by (intro keeps_store store_reached_writes; assumption)+

section \<open>Example\<close>

definition example_ctx :: "example_cluster Context" where
  "example_ctx = \<lparr>cx_client = example_kube, cx_libs = example_libs, cx_toml_from_str = (\<lambda>_. Ok Config_default),
     cx_controller_config = ControllerConfig_default\<rparr>"

end
