(* ===== verification/Gateway_Reconciler.thy ===== *)
theory Gateway_Reconciler
  imports Reconciler_Common
begin

text \<open>
  The Gateway reconciler (\<^verbatim>\<open>reconcilers/gateway.rs\<close>): observation of the
  owned objects, planning, applying, the status conditions, addresses, metrics, the initial list and
  the mapping of watch events to Gateways. The clock reading of one reconcile is an argument (\<^verbatim>\<open>now\<close>);
  log calls are left out. Lemmas: when a Gateway is reported programmed, that the status settles, and
  that an applied Gateway is not applied again.
\<close>

section \<open>Errors\<close>

datatype GatewayError =
  GatewayKubeError kube_error
| GatewayClassNotFound string
| NotManagedByWicket string
| GatewayConfigError string
| RuntimeApplyError string

definition preserve_gateway_status_timestamps :: "GatewayStatus \<Rightarrow> GatewayStatus \<Rightarrow> GatewayStatus" where
  "preserve_gateway_status_timestamps new_status existing =
     new_status\<lparr>
       gst_conditions := preserve_condition_timestamps (gst_conditions new_status) (gst_conditions existing),
       gst_listeners := map (\<lambda>new_listener.
         case find (\<lambda>l. lst_name l = lst_name new_listener) (gst_listeners existing) of
           None \<Rightarrow> new_listener
         | Some prev \<Rightarrow> new_listener\<lparr>lst_conditions :=
             preserve_condition_timestamps (lst_conditions new_listener) (lst_conditions prev)\<rparr>)
         (gst_listeners new_status)\<rparr>"

definition gateway_status_semantically_equal :: "GatewayStatus \<Rightarrow> GatewayStatus \<Rightarrow> bool" where
  "gateway_status_semantically_equal a b =
     (if gst_addresses a \<noteq> gst_addresses b then False
      else if \<not> conditions_semantically_equal (gst_conditions a) (gst_conditions b) then False
      else if length (gst_listeners a) \<noteq> length (gst_listeners b) then False
      else list_all (\<lambda>(x, y). lst_name x = lst_name y \<and> lst_supported_kinds x = lst_supported_kinds y \<and>
             lst_attached_routes x = lst_attached_routes y \<and>
             conditions_semantically_equal (lst_conditions x) (lst_conditions y))
           (zip (gst_listeners a) (gst_listeners b)))"

section \<open>Gateways of a watch event\<close>

text \<open>An \<^verbatim>\<open>ObjectRef<Gateway>\<close> is the pair of its namespace and name; the references are sorted by both.\<close>

definition gateway_refs_from_parent_refs :: "string \<Rightarrow> ParentReference list \<Rightarrow> obj_key list" where
  "gateway_refs_from_parent_refs route_namespace parent_refs =
     sorted_set (fold (\<lambda>parent_ref refs.
       let group_matches = (pr_group parent_ref = [] \<or> pr_group parent_ref = ''gateway.networking.k8s.io'') in
       if \<not> group_matches \<or> pr_kind parent_ref \<noteq> ''Gateway'' then refs
       else insert (unwrap_or (pr_namespace parent_ref) route_namespace, pr_name parent_ref) refs) parent_refs {})"

definition gateway_refs_from_keys :: "obj_key list \<Rightarrow> obj_key list" where
  "gateway_refs_from_keys keys = sort keys"

section \<open>Addresses of nodes\<close>

definition first_address :: "string \<Rightarrow> (string \<times> string) list \<Rightarrow> string option" where
  "first_address t addrs = map_option snd (find (\<lambda>addr. fst addr = t) addrs)"

definition node_address :: "Node \<Rightarrow> string option" where
  "node_address node =
     (case node_addresses node of
        None \<Rightarrow> None
      | Some node_addrs \<Rightarrow>
          (case first_address ''ExternalIP'' node_addrs of
             Some a \<Rightarrow> Some a
           | None \<Rightarrow> first_address ''InternalIP'' node_addrs))"

definition node_addresses_from_nodes :: "Node list \<Rightarrow> GatewayAddress list" where
  "node_addresses_from_nodes nodes =
     (let addresses = fold (\<lambda>node addresses.
            case node_address node of None \<Rightarrow> addresses | Some address \<Rightarrow> insert address addresses) nodes {} in
      map (\<lambda>value. \<lparr>ga_type = IPAddress, ga_value = value\<rparr>) (sorted_set addresses))"

section \<open>Observation of the Deployment\<close>

record DeployObservation =
  dob_current_spec_hash :: "string option"
  dob_ready_replicas :: "u32 option"
  dob_deploy_observed_generation :: "int option"
  dob_deploy_generation :: "int option"
  dob_updated_replicas :: "u32 option"
  dob_available_replicas :: "u32 option"
  dob_desired_replicas :: "u32 option"

definition DeployObservation_default :: DeployObservation where
  "DeployObservation_default =
     \<lparr>dob_current_spec_hash = None, dob_ready_replicas = None, dob_deploy_observed_generation = None,
      dob_deploy_generation = None, dob_updated_replicas = None, dob_available_replicas = None,
      dob_desired_replicas = None\<rparr>"

text \<open>\<^verbatim>\<open>u32::try_from(i32).ok()\<close>: the replica counts are 32-bit signed integers.\<close>

definition u32_try_from :: "int \<Rightarrow> u32 option" where
  "u32_try_from r = (if 0 \<le> r \<and> r < 2 ^ 32 then Some (word_of_int r) else None)"

definition observe_deployment :: "Deployment \<Rightarrow> DeployObservation" where
  "observe_deployment deploy =
     (let annotation = (\<lambda>annotations. Option.bind annotations (\<lambda>a. hm_get a SPEC_REVISION_ANNOTATION));
          status = dep_status deploy in
      \<lparr>dob_current_spec_hash =
         (case annotation (meta_annotations (dep_metadata deploy)) of
            Some h \<Rightarrow> Some h
          | None \<Rightarrow> Option.bind (dep_spec deploy) (\<lambda>spec. annotation (pt_annotations (ds_template spec)))),
       dob_ready_replicas = Option.bind (Option.bind status dst_ready_replicas) u32_try_from,
       dob_deploy_observed_generation = Option.bind status dst_observed_generation,
       dob_deploy_generation = meta_generation (dep_metadata deploy),
       dob_updated_replicas = Option.bind (Option.bind status dst_updated_replicas) u32_try_from,
       dob_available_replicas = Option.bind (Option.bind status dst_available_replicas) u32_try_from,
       dob_desired_replicas = map_option (\<lambda>spec. unwrap_or (Option.bind (ds_replicas spec) u32_try_from) 1)
         (dep_spec deploy)\<rparr>)"

section \<open>The managed runtime\<close>

datatype ManagedRuntimeError =
  MrStoreNotReady ObservedRuntimeState
| MrPlan string
| MrApply string
| MrObservationError string

fun show_ManagedRuntimeError :: "ManagedRuntimeError \<Rightarrow> string" where
  "show_ManagedRuntimeError (MrStoreNotReady _) = ''store not ready for managed-runtime planning''"
| "show_ManagedRuntimeError (MrPlan e) = ''planning failed: '' @ e"
| "show_ManagedRuntimeError (MrApply e) = ''apply failed: '' @ e"
| "show_ManagedRuntimeError (MrObservationError e) = ''observation failed: '' @ e"

definition observe_runtime_state ::
  "'w Context \<Rightarrow> Gateway \<Rightarrow> string \<Rightarrow> ('w, ManagedRuntimeError, ObservedRuntimeState) io" where
  "observe_runtime_state ctx gateway namespace =
     io_try (io_panics (owned_object_base_name (cx_libs ctx) (name_any (gw_metadata gateway)))) (\<lambda>base.
     let cm_name = config_map_name base; deploy_name = deployment_name base in
     io_try (io_attempt (k_get_configmap (cx_client ctx) namespace cm_name)) (\<lambda>cm_result.
     io_try (case cm_result of
               Inr cm \<Rightarrow> io_return (Option.bind (meta_annotations (cm_metadata cm)) (\<lambda>a. hm_get a CONFIG_REVISION_ANNOTATION))
             | Inl e \<Rightarrow>
                 if ke_code e = Some 404 then io_return None
                 else io_fail (MrObservationError (''ConfigMap '' @ namespace @ ''/'' @ cm_name @ '': '' @ ke_display e)))
       (\<lambda>current_config_hash.
     io_try (io_attempt (k_get_deployment (cx_client ctx) namespace deploy_name)) (\<lambda>deploy_result.
     io_try (case deploy_result of
               Inr deploy \<Rightarrow> io_return (observe_deployment deploy)
             | Inl e \<Rightarrow>
                 if ke_code e = Some 404 then io_return DeployObservation_default
                 else io_fail (MrObservationError (''Deployment '' @ namespace @ ''/'' @ deploy_name @ '': '' @ ke_display e)))
       (\<lambda>deploy_obs.
     io_return
       \<lparr>ors_current_config_hash = current_config_hash, ors_current_spec_hash = dob_current_spec_hash deploy_obs,
        ors_ready_replicas = dob_ready_replicas deploy_obs,
        ors_deploy_observed_generation = dob_deploy_observed_generation deploy_obs,
        ors_deploy_generation = dob_deploy_generation deploy_obs,
        ors_updated_replicas = dob_updated_replicas deploy_obs,
        ors_available_replicas = dob_available_replicas deploy_obs,
        ors_desired_replicas = dob_desired_replicas deploy_obs\<rparr>)))))"

definition plan_failure_of :: "plan_failure \<Rightarrow> ManagedRuntimeError failure" where
  "plan_failure_of f = (case f of Panicked p \<Rightarrow> CtlPanic p | Failed e \<Rightarrow> CtlErr (MrPlan (show_PlanError e)))"

definition reconcile_managed_runtime ::
  "'w Context \<Rightarrow> Gateway \<Rightarrow> string \<Rightarrow> string \<Rightarrow>
   ('w, ManagedRuntimeError, ObservedRuntimeState \<times> RuntimeApplyResult \<times> PlannerSnapshot SnapshotResult) io" where
  "reconcile_managed_runtime ctx gateway namespace name =
     io_try (observe_runtime_state ctx gateway namespace) (\<lambda>observed.
     io_try (io_read (\<lambda>s. planner_snapshot (ctl_store s))) (\<lambda>snapshot_result.
     case snapshot_result of
       NotReady \<Rightarrow> io_fail (MrStoreNotReady observed)
     | SnapshotReady snapshot \<Rightarrow>
         io_try (io_result (map_err plan_failure_of (GatewayRuntimePlanner_plan (cx_libs ctx)
             \<lparr>rpi_gateway_namespace = namespace, rpi_gateway_name = name, rpi_snapshot = snapshot,
              rpi_controller_config = cx_controller_config ctx, rpi_observed = observed\<rparr>))) (\<lambda>plan.
         io_try (io_map_err (\<lambda>e. MrApply (show_ApplyError e))
             (apply_runtime_plan (cx_toml_from_str ctx) (cx_client ctx) plan)) (\<lambda>apply_result.
         io_return (observed, apply_result, SnapshotReady snapshot)))))"

section \<open>Status of a managed Gateway\<close>

datatype ManagedRuntimeInput =
  MriApplied ObservedRuntimeState RuntimeApplyResult "PlannerSnapshot SnapshotResult"
| MriStoreNotReady ObservedRuntimeState
| MriObservationFault string

record ManagedStatusOutcome =
  mso_programmed :: bool
  mso_only_store_not_ready :: bool
  mso_observation_fault :: "string option"
  mso_observed_generation :: "int option"

fun resolve_managed_status_outcome :: "ManagedRuntimeInput \<Rightarrow> bool \<Rightarrow> int option \<Rightarrow> ManagedStatusOutcome" where
  "resolve_managed_status_outcome (MriApplied observed apply_result _) store_ready gateway_generation =
     (let apply_mutated = (rar2_rollout_triggered apply_result \<or> rar2_deployment_changed apply_result);
          programmed = (if apply_mutated then False else is_rollout_converged observed) in
      \<lparr>mso_programmed = programmed, mso_only_store_not_ready = (\<not> apply_mutated \<and> \<not> programmed \<and> \<not> store_ready),
       mso_observation_fault = None, mso_observed_generation = gateway_generation\<rparr>)"
| "resolve_managed_status_outcome (MriObservationFault fault_msg) store_ready gateway_generation =
     \<lparr>mso_programmed = False, mso_only_store_not_ready = False, mso_observation_fault = Some fault_msg,
      mso_observed_generation = gateway_generation\<rparr>"
| "resolve_managed_status_outcome (MriStoreNotReady observed) store_ready gateway_generation =
     (let programmed = is_rollout_converged observed in
      \<lparr>mso_programmed = programmed, mso_only_store_not_ready = (\<not> programmed \<and> \<not> store_ready),
       mso_observation_fault = None, mso_observed_generation = gateway_generation\<rparr>)"

definition build_gateway_conditions ::
  "string \<Rightarrow> bool \<Rightarrow> string option \<Rightarrow> bool \<Rightarrow> int option \<Rightarrow> Condition list" where
  "build_gateway_conditions now programmed observation_fault only_store_not_ready observed_generation =
     (let gen = with_observed_generation observed_generation in
      if programmed then [gen (Condition_accepted now), gen (Condition_programmed now)]
      else
        (case observation_fault of
           Some fault \<Rightarrow> [gen (Condition_accepted now), gen (Condition_not_programmed_observation_fault now fault)]
         | None \<Rightarrow>
             if only_store_not_ready then [gen (Condition_accepted now), gen (Condition_not_programmed_warming_up now)]
             else [gen (Condition_accepted now), gen (Condition_not_programmed now)]))"

fun split_char :: "char \<Rightarrow> string \<Rightarrow> string list" where
  "split_char c [] = [[]]"
| "split_char c (x # xs) =
     (if x = c then [] # split_char c xs
      else (case split_char c xs of [] \<Rightarrow> [[x]] | p # ps \<Rightarrow> (x # p) # ps))"

definition dns_alnum :: "char \<Rightarrow> bool" where
  "dns_alnum b = (CHR ''a'' \<le> b \<and> b \<le> CHR ''z'' \<or> CHR ''0'' \<le> b \<and> b \<le> CHR ''9'')"

definition is_valid_k8s_dns_subdomain :: "string \<Rightarrow> bool" where
  "is_valid_k8s_dns_subdomain name =
     (if name = [] \<or> length name > 253 then False
      else list_all (\<lambda>label.
        if label = [] \<or> length label > 63 then False
        else dns_alnum (hd label) \<and> dns_alnum (last label) \<and> list_all (\<lambda>b. dns_alnum b \<or> b = CHR ''-'') label)
      (split_char CHR ''.'' name))"

definition listener_certificate_refs_invalid :: "Listener \<Rightarrow> Gateway \<Rightarrow> PlannerSnapshot \<Rightarrow> bool" where
  "listener_certificate_refs_invalid listener gateway snapshot =
     (case ln_tls listener of
        None \<Rightarrow> False
      | Some tls \<Rightarrow>
          (let gateway_namespace = namespace_or_empty (gw_metadata gateway) in
           list_ex (\<lambda>cert_ref.
             sr_group cert_ref \<noteq> [] \<or> sr_kind cert_ref \<noteq> ''Secret'' \<or>
             \<not> is_valid_k8s_dns_subdomain (sr_name cert_ref) \<or>
             snapshot_tls_secret snapshot (unwrap_or (sr_namespace cert_ref) gateway_namespace) (sr_name cert_ref) = None)
           (gt_certificate_refs tls)))"

definition listener_status_intents_with_attachment_with_tls_validation ::
  "Gateway \<Rightarrow> AttachmentPlan option \<Rightarrow> PlannerSnapshot option \<Rightarrow> ListenerStatusIntent list" where
  "listener_status_intents_with_attachment_with_tls_validation gateway attachment_plan tls_snapshot =
     (let intents = listener_status_intents_with_attachment gateway attachment_plan in
      case tls_snapshot of
        None \<Rightarrow> intents
      | Some snapshot \<Rightarrow>
          map (\<lambda>(listener, intent).
            if lsi_resolved_refs intent \<and> listener_certificate_refs_invalid listener gateway snapshot
            then intent\<lparr>lsi_resolved_refs := False, lsi_resolved_refs_reason := Some ''InvalidCertificateRef''\<rparr>
            else intent) (zip (gw_listeners gateway) intents))"

definition listener_resolved_refs_condition :: "string \<Rightarrow> bool \<Rightarrow> string option \<Rightarrow> Condition" where
  "listener_resolved_refs_condition now resolved_refs reason =
     (if resolved_refs then Condition_resolved_refs now
      else Condition_new now ''ResolvedRefs'' False (unwrap_or reason ''InvalidRouteKinds'')
             ''Listener references are invalid'')"

definition i32_saturating :: "u32 \<Rightarrow> int" where
  "i32_saturating n = unwrap_or (i32_try_from n) 2147483647"

definition listener_status_of :: "string \<Rightarrow> ManagedStatusOutcome \<Rightarrow> ListenerStatusIntent \<Rightarrow> ListenerStatus" where
  "listener_status_of now outcome intent =
     (let gen = with_observed_generation (mso_observed_generation outcome);
          resolved_refs_condition =
            gen (listener_resolved_refs_condition now (lsi_resolved_refs intent) (lsi_resolved_refs_reason intent));
          listener_conditions =
            (case mso_observation_fault outcome of
               Some fault \<Rightarrow>
                 (let not_prog = gen (Condition_not_programmed_observation_fault now fault) in
                  if lsi_accepted intent then [gen (Condition_accepted now), not_prog, resolved_refs_condition]
                  else [gen (Condition_not_accepted now), not_prog, resolved_refs_condition])
             | None \<Rightarrow>
                 if mso_programmed outcome \<and> lsi_accepted intent then
                   [gen (Condition_accepted now), gen (Condition_programmed now), resolved_refs_condition]
                 else if lsi_accepted intent then
                   (let not_prog = gen (if mso_only_store_not_ready outcome then Condition_not_programmed_warming_up now
                          else Condition_not_programmed now) in
                    [gen (Condition_accepted now), not_prog, resolved_refs_condition])
                 else
                   (let not_prog = gen (if mso_only_store_not_ready outcome then Condition_not_programmed_warming_up now
                          else Condition_not_programmed now) in
                    [gen (Condition_not_accepted now), not_prog, resolved_refs_condition])) in
      \<lparr>lst_name = lsi_name intent, lst_supported_kinds = lsi_supported_kinds intent,
       lst_attached_routes = i32_saturating (lsi_attached_routes intent), lst_conditions = listener_conditions\<rparr>)"

definition build_managed_runtime_status ::
  "string \<Rightarrow> Gateway \<Rightarrow> string \<Rightarrow> string \<Rightarrow> ManagedRuntimeInput \<Rightarrow>
   ListenerStatus list \<times> bool \<times> bool \<times> string option" where
  "build_managed_runtime_status now gateway namespace name input =
     (let gateway_generation = meta_generation (gw_metadata gateway);
          snapshot_result = (case input of MriApplied _ _ snap \<Rightarrow> snap | MriStoreNotReady _ \<Rightarrow> NotReady
            | MriObservationFault _ \<Rightarrow> NotReady);
          store_ready = SnapshotResult_is_ready snapshot_result;
          outcome = resolve_managed_status_outcome input store_ready gateway_generation;
          attachment_plan_opt = (case snapshot_result of
              SnapshotReady snapshot \<Rightarrow> ok_of (AttachmentPlanner_plan
                \<lparr>api_gateway_namespace = namespace, api_gateway_name = name,
                 api_gateway_generation = unwrap_or gateway_generation 0, api_snapshot = snapshot\<rparr>)
            | NotReady \<Rightarrow> None);
          tls_snapshot = (case snapshot_result of SnapshotReady snapshot \<Rightarrow> Some snapshot | NotReady \<Rightarrow> None);
          intents = listener_status_intents_with_attachment_with_tls_validation gateway attachment_plan_opt tls_snapshot in
      (map (listener_status_of now outcome) intents, mso_programmed outcome, mso_only_store_not_ready outcome,
       mso_observation_fault outcome))"

section \<open>Addresses\<close>

definition ingress_addresses :: "ingress list \<Rightarrow> GatewayAddress list" where
  "ingress_addresses ingresses =
     concat (map (\<lambda>(ip, hostname).
       (case ip of Some ip \<Rightarrow> [\<lparr>ga_type = IPAddress, ga_value = ip\<rparr>] | None \<Rightarrow> []) @
       (case hostname of Some h \<Rightarrow> [\<lparr>ga_type = Hostname, ga_value = h\<rparr>] | None \<Rightarrow> [])) ingresses)"

definition load_balancer_addresses ::
  "'w Context \<Rightarrow> K8sService \<Rightarrow> ServiceSpec \<Rightarrow> ('w, 'e, GatewayAddress list) io" where
  "load_balancer_addresses ctx service spec =
     (let addresses = (case svc_ingress service of Some ingresses \<Rightarrow> ingress_addresses ingresses | None \<Rightarrow> []);
          addresses =
            (if addresses = [] then
               (case svs_external_ips spec of
                  Some external_ips \<Rightarrow> map (\<lambda>ip. \<lparr>ga_type = IPAddress, ga_value = ip\<rparr>) external_ips
                | None \<Rightarrow> [])
             else addresses) in
      if addresses = [] then
        io_try (io_attempt (k_list_nodes (cx_client ctx))) (\<lambda>nodes.
          io_return (case nodes of Inr nodes \<Rightarrow> node_addresses_from_nodes nodes | Inl _ \<Rightarrow> []))
      else io_return addresses)"

definition service_addresses :: "'w Context \<Rightarrow> K8sService \<Rightarrow> ('w, 'e, GatewayAddress list) io" where
  "service_addresses ctx service =
     (case svc_spec service of
        None \<Rightarrow> io_return []
      | Some spec \<Rightarrow>
          if svs_type spec = Some ''LoadBalancer'' then load_balancer_addresses ctx service spec
          else if svs_type spec = Some ''NodePort'' then io_return []
          else if svs_type spec = Some ''ClusterIP'' then
            io_return (case svs_cluster_ip spec of
                Some cluster_ip \<Rightarrow> if cluster_ip \<noteq> ''None'' then [\<lparr>ga_type = IPAddress, ga_value = cluster_ip\<rparr>] else []
              | None \<Rightarrow> [])
          else io_return [])"

definition get_gateway_addresses ::
  "'w Context \<Rightarrow> string \<Rightarrow> string \<Rightarrow> Gateway \<Rightarrow> ('w, 'e, GatewayAddress list) io" where
  "get_gateway_addresses ctx namespace gateway_name gateway =
     io_try (io_panics (owned_object_base_name (cx_libs ctx) gateway_name)) (\<lambda>base.
     io_try (io_attempt (k_get_service (cx_client ctx) namespace (service_name base))) (\<lambda>result.
     io_try (case result of Inr service \<Rightarrow> service_addresses ctx service | Inl _ \<Rightarrow> io_return []) (\<lambda>addresses.
     io_return (if addresses = [] then gs_addresses (gw_spec gateway) else addresses))))"

section \<open>Metrics\<close>

definition update_gateway_metrics :: "'w Context \<Rightarrow> ('w, 'e, unit) io" where
  "update_gateway_metrics ctx =
     io_try (io_attempt (k_list_gateways (cx_client ctx))) (\<lambda>result.
       case result of
         Inl _ \<Rightarrow> io_return ()
       | Inr items \<Rightarrow>
           io_for (\<lambda>((ns, gclass), count). io_metric (GaugeGateways ns gclass) count)
             (counts_of (map (\<lambda>gw. (namespace_or_empty (gw_metadata gw), gs_gateway_class_name (gw_spec gw))) items)))"

section \<open>Reconciling a Gateway\<close>

text \<open>
  The class from the store or the API; the status of one outcome, written only when it differs from the
  stored one in more than timestamps; the metrics of one pass.
\<close>

definition lookup_gateway_class :: "'w Context \<Rightarrow> Gateway \<Rightarrow> ('w, GatewayError, GatewayClass) io" where
  "lookup_gateway_class ctx gateway =
     (let class_name = gs_gateway_class_name (gw_spec gateway) in
      io_try (io_read (\<lambda>s. get_gateway_class (ctl_store s) class_name)) (\<lambda>cached.
        case cached of
          Some gc \<Rightarrow> io_return gc
        | None \<Rightarrow> io_call (\<lambda>_. GatewayClassNotFound class_name) (k_get_gateway_class (cx_client ctx) class_name)))"

definition managed_input_of ::
  "ManagedRuntimeError + ObservedRuntimeState \<times> RuntimeApplyResult \<times> PlannerSnapshot SnapshotResult \<Rightarrow>
   GatewayError + ManagedRuntimeInput \<times> GatewayError option" where
  "managed_input_of outcome =
     (case outcome of
        Inr (observed, apply_result, snapshot_result) \<Rightarrow> Ok (MriApplied observed apply_result snapshot_result, None)
      | Inl (MrStoreNotReady observed) \<Rightarrow> Ok (MriStoreNotReady observed, None)
      | Inl (MrObservationError msg) \<Rightarrow> Ok (MriObservationFault msg, Some (RuntimeApplyError msg))
      | Inl e \<Rightarrow> Err (RuntimeApplyError (show_ManagedRuntimeError e)))"

definition gateway_status_of ::
  "string \<Rightarrow> Gateway \<Rightarrow> ListenerStatus list \<times> bool \<times> bool \<times> string option \<Rightarrow> GatewayAddress list \<Rightarrow> GatewayStatus" where
  "gateway_status_of now gateway = (\<lambda>(listener_statuses, gateway_programmed, only_store_not_ready, gateway_observation_fault) addresses.
     \<lparr>gst_addresses = addresses,
      gst_conditions = build_gateway_conditions now gateway_programmed gateway_observation_fault only_store_not_ready
        (meta_generation (gw_metadata gateway)),
      gst_listeners = listener_statuses\<rparr>)"

definition desired_gateway_status :: "Gateway \<Rightarrow> GatewayStatus \<Rightarrow> GatewayStatus" where
  "desired_gateway_status gateway status =
     (case gw_status gateway of None \<Rightarrow> status | Some existing \<Rightarrow> preserve_gateway_status_timestamps status existing)"

definition gateway_needs_patch :: "Gateway \<Rightarrow> GatewayStatus \<Rightarrow> bool" where
  "gateway_needs_patch gateway status =
     (case gw_status gateway of None \<Rightarrow> True | Some existing \<Rightarrow> \<not> gateway_status_semantically_equal existing status)"

definition write_gateway_status ::
  "'w Context \<Rightarrow> string \<Rightarrow> string \<Rightarrow> Gateway \<Rightarrow> GatewayStatus \<Rightarrow> ('w, GatewayError, Gateway) io" where
  "write_gateway_status ctx namespace name gateway status =
     (if gateway_needs_patch gateway status
      then io_call GatewayKubeError (k_patch_gateway_status (cx_client ctx) namespace name status)
      else io_return gateway)"

definition reconcile_managed_gateway ::
  "'w Context \<Rightarrow> string \<Rightarrow> Gateway \<Rightarrow> string \<Rightarrow> string \<Rightarrow> ('w, GatewayError, Action) io" where
  "reconcile_managed_gateway ctx now gateway namespace name =
     io_try (io_store (upsert_gateway (state_key namespace name) gateway)) (\<lambda>_.
     io_try (io_catch (reconcile_managed_runtime ctx gateway namespace name)) (\<lambda>outcome.
     io_try (io_result (map_err CtlErr (managed_input_of outcome))) (\<lambda>(managed_input, deferred_observation_error).
     let managed_status = build_managed_runtime_status now gateway namespace name managed_input;
         listener_statuses = fst managed_status; gateway_programmed = fst (snd managed_status) in
     io_try (get_gateway_addresses ctx namespace name gateway) (\<lambda>addresses.
     let status = desired_gateway_status gateway (gateway_status_of now gateway managed_status addresses) in
     io_try (write_gateway_status ctx namespace name gateway status) (\<lambda>patched_gateway.
     case deferred_observation_error of
       Some err \<Rightarrow> io_fail err
     | None \<Rightarrow>
         io_try (io_metric (GaugeGatewayProgrammed namespace name) (if gateway_programmed then 1 else 0)) (\<lambda>_.
         io_try (io_for (\<lambda>ls. io_metric (GaugeAttachedRoutes namespace name (lst_name ls)) (lst_attached_routes ls))
           listener_statuses) (\<lambda>_.
         io_try (ReconcileMetrics_record_success ''Gateway'') (\<lambda>_.
         io_try (io_store (upsert_gateway (state_key namespace name) patched_gateway)) (\<lambda>_.
         io_try (update_gateway_metrics ctx) (\<lambda>_.
         io_return (Requeue (if gateway_programmed then 300 else 5))))))))))))"

definition reconcile_gateway :: "'w Context \<Rightarrow> string \<Rightarrow> Gateway \<Rightarrow> ('w, GatewayError, Action) io" where
  "reconcile_gateway ctx now gateway =
     (let namespace = namespace_or_empty (gw_metadata gateway); name = name_any (gw_metadata gateway) in
      if meta_deletion_timestamp (gw_metadata gateway) \<noteq> None then
        io_try (io_store (remove_gateway (state_key namespace name))) (\<lambda>_. io_return AwaitChange)
      else
        io_try (lookup_gateway_class ctx gateway) (\<lambda>gc.
          if \<not> is_wicket_managed gc then io_try (ReconcileMetrics_record_success ''Gateway'') (\<lambda>_. io_return AwaitChange)
          else reconcile_managed_gateway ctx now gateway namespace name))"

definition error_policy_gateway :: "Gateway \<Rightarrow> GatewayError \<Rightarrow> ('w, 'e, Action) io" where
  "error_policy_gateway gateway err =
     io_try (io_metric (CounterReconcileError ''Gateway'' ''reconcile_error'') 1) (\<lambda>_. io_return (Requeue 5))"

section \<open>The controller loop\<close>

definition ingest_gateways :: "Gateway list \<Rightarrow> SharedStore \<Rightarrow> SharedStore" where
  "ingest_gateways = fold (\<lambda>gateway. upsert_gateway
     (state_key (namespace_or_empty (gw_metadata gateway)) (name_or_empty (gw_metadata gateway))) gateway)"

definition gateway_initial_list :: "Gateway list list_attempt list \<Rightarrow> SharedStore \<Rightarrow> u32 list \<times> SharedStore option" where
  "gateway_initial_list = initial_list ingest_gateways Gateways 0"

datatype watch_event =
  WatchHTTPRoute HTTPRoute
| WatchTCPRoute TCPRoute
| WatchTLSRoute TLSRoute
| WatchService ObjectMeta
| WatchEndpointSlice ObjectMeta
| WatchSecret ObjectMeta
| WatchReferenceGrant ReferenceGrant

fun triggered_gateways :: "ReverseIndexInner \<Rightarrow> watch_event \<Rightarrow> obj_key list" where
  "triggered_gateways reverse_index (WatchHTTPRoute route) =
     gateway_refs_from_parent_refs (namespace_or_empty (hr_metadata route)) (hrs_parent_refs (hr_spec route))"
| "triggered_gateways reverse_index (WatchTCPRoute route) =
     gateway_refs_from_parent_refs (namespace_or_empty (tr_metadata route)) (trs_parent_refs (tr_spec route))"
| "triggered_gateways reverse_index (WatchTLSRoute route) =
     gateway_refs_from_parent_refs (namespace_or_empty (lr_metadata route)) (lrs_parent_refs (lr_spec route))"
| "triggered_gateways reverse_index (WatchService metadata) =
     gateway_refs_from_keys (gateways_for_service reverse_index (namespace_or_empty metadata) (name_any metadata))"
| "triggered_gateways reverse_index (WatchEndpointSlice metadata) =
     (case Option.bind (meta_labels metadata) (\<lambda>l. hm_get l ''kubernetes.io/service-name'') of
        Some name \<Rightarrow> gateway_refs_from_keys (gateways_for_service reverse_index (namespace_or_empty metadata) name)
      | None \<Rightarrow> [])"
| "triggered_gateways reverse_index (WatchSecret metadata) =
     gateway_refs_from_keys (gateways_for_secret reverse_index (namespace_or_empty metadata) (name_any metadata))"
| "triggered_gateways reverse_index (WatchReferenceGrant grant) =
     gateway_refs_from_keys (gateways_for_reference_grant reverse_index (namespace_or_empty (rg_metadata grant))
       (name_any (rg_metadata grant)))"

section \<open>Statuses up to timestamps\<close>

definition untimed_listener :: "ListenerStatus \<Rightarrow> ListenerStatus" where
  "untimed_listener l = l\<lparr>lst_conditions := map untimed (lst_conditions l)\<rparr>"

definition untimed_status :: "GatewayStatus \<Rightarrow> GatewayStatus" where
  "untimed_status st = st\<lparr>gst_conditions := map untimed (gst_conditions st), gst_listeners := map untimed_listener (gst_listeners st)\<rparr>"

lemma untimed_listener_eq_iff:
  "untimed_listener x = untimed_listener y \<longleftrightarrow> lst_name x = lst_name y \<and> lst_supported_kinds x = lst_supported_kinds y \<and>
     lst_attached_routes x = lst_attached_routes y \<and> map untimed (lst_conditions x) = map untimed (lst_conditions y)"
  by (cases x; cases y) (auto simp: untimed_listener_def)

lemma gateway_status_equal_iff: "gateway_status_semantically_equal a b \<longleftrightarrow> untimed_status a = untimed_status b"
proof -
  have "untimed_status a = untimed_status b \<longleftrightarrow> gst_addresses a = gst_addresses b \<and>
      map untimed (gst_conditions a) = map untimed (gst_conditions b) \<and>
      map untimed_listener (gst_listeners a) = map untimed_listener (gst_listeners b)"
    by (cases a; cases b) (auto simp: untimed_status_def)
  then show ?thesis
    by (auto simp: gateway_status_semantically_equal_def conditions_equal_iff untimed_listener_eq_iff [symmetric]
        list_all_zip_map dest: map_eq_imp_length_eq)
qed

lemma untimed_status_conditions: "gst_conditions (untimed_status st) = map untimed (gst_conditions st)"
  by (simp add: untimed_status_def)

lemma untimed_desired: "untimed_status (desired_gateway_status gw st) = untimed_status st"
  by (auto simp: desired_gateway_status_def preserve_gateway_status_timestamps_def untimed_status_def
      preserve_condition_timestamps_def untimed_preserve untimed_listener_def comp_def split: option.split)

lemma needs_patch_iff:
  "gateway_needs_patch gw st \<longleftrightarrow> map_option untimed_status (gw_status gw) \<noteq> Some (untimed_status st)"
  by (auto simp: gateway_needs_patch_def gateway_status_equal_iff split: option.split)

lemma untimed_gateway_conditions:
  "map untimed (build_gateway_conditions now p f o' g) = map untimed (build_gateway_conditions now' p f o' g)"
  by (auto simp: build_gateway_conditions_def condition_kinds Let_def intro: untimed_new split: option.split)

lemma untimed_listener_status: "untimed_listener (listener_status_of now out i) = untimed_listener (listener_status_of now' out i)"
  by (auto simp: listener_status_of_def untimed_listener_def condition_kinds listener_resolved_refs_condition_def Let_def
      intro: untimed_new split: option.split)

lemma status_ignored [simp]:
  "listener_certificate_refs_invalid l (gw\<lparr>gw_status := st\<rparr>) sn = listener_certificate_refs_invalid l gw sn"
  "listener_status_intents_with_attachment (gw\<lparr>gw_status := st\<rparr>) ap = listener_status_intents_with_attachment gw ap"
  "gateway_status_of now (gw\<lparr>gw_status := st\<rparr>) = gateway_status_of now gw"
  by (simp_all add: listener_certificate_refs_invalid_def listener_status_intents_with_attachment_def
      listener_status_intents_def gateway_status_of_def split: option.split)

lemma status_ignored_intents [simp]:
  "listener_status_intents_with_attachment_with_tls_validation (gw\<lparr>gw_status := st\<rparr>) =
     listener_status_intents_with_attachment_with_tls_validation gw"
  by (simp add: fun_eq_iff listener_status_intents_with_attachment_with_tls_validation_def Let_def split: option.split)

lemma status_ignored_build [simp]:
  "build_managed_runtime_status now (gw\<lparr>gw_status := st\<rparr>) ns name input = build_managed_runtime_status now gw ns name input"
  by (simp add: build_managed_runtime_status_def)

lemma untimed_status_of:
  "untimed_status (gateway_status_of now gw (build_managed_runtime_status now gw ns name input) addresses) =
     untimed_status (gateway_status_of now' gw (build_managed_runtime_status now' gw ns name input) addresses)"
  by (simp add: untimed_status_def gateway_status_of_def build_managed_runtime_status_def Let_def
      untimed_gateway_conditions [of now _ _ _ _ now'] comp_def untimed_listener_status [of now _ _ now'])

text \<open>The status a reconcile of \<^verbatim>\<open>gw\<close> at time \<^verbatim>\<open>now\<close> arrives at.\<close>

definition reconciled_status ::
  "string \<Rightarrow> string \<Rightarrow> string \<Rightarrow> ManagedRuntimeInput \<Rightarrow> GatewayAddress list \<Rightarrow> Gateway \<Rightarrow> GatewayStatus" where
  "reconciled_status now ns name input addresses gw =
     desired_gateway_status gw (gateway_status_of now gw (build_managed_runtime_status now gw ns name input) addresses)"

text \<open>
  The status settles. Once the status of a reconcile is stored on the Gateway, a later reconcile with the same
  observations, at any later clock reading, writes nothing; a status is written exactly when there is none yet or
  it differs from the stored one in more than its timestamps; and the timestamp of a condition only moves when the
  condition's truth value does.
\<close>

theorem gateway_status_settles:
  "(let stored = gw\<lparr>gw_status := Some (reconciled_status now ns name input addresses gw)\<rparr> in
      \<not> gateway_needs_patch stored (reconciled_status later ns name input addresses stored)) \<and>
   (gateway_needs_patch gw st \<longleftrightarrow> map_option untimed_status (gw_status gw) \<noteq> Some (untimed_status st)) \<and>
   map cond_last_transition_time (preserve_condition_timestamps new_conds old_conds) =
     map (\<lambda>c. case find (\<lambda>e. cond_type e = cond_type c) old_conds of
         Some e \<Rightarrow> if cond_status e = cond_status c then cond_last_transition_time e else cond_last_transition_time c
       | None \<Rightarrow> cond_last_transition_time c) new_conds"
  unfolding reconciled_status_def Let_def needs_patch_iff
  by (simp add: untimed_desired untimed_status_of [of now _ _ _ _ _ later] preserve_condition_timestamps_def
      preserve_timestamp_def split: option.split)

section \<open>When a Gateway is programmed\<close>

definition reports :: "Condition list \<Rightarrow> string \<Rightarrow> bool \<Rightarrow> bool" where
  "reports cs t v =
     (map cond_status (filter (\<lambda>c. cond_type c = t) cs) = [if v then ''True'' else ''False''])"

fun runtime_ready :: "ManagedRuntimeInput \<Rightarrow> bool" where
  "runtime_ready (MriApplied observed res _) =
     (\<not> rar2_rollout_triggered res \<and> \<not> rar2_deployment_changed res \<and> is_rollout_converged observed)"
| "runtime_ready (MriStoreNotReady observed) = is_rollout_converged observed"
| "runtime_ready (MriObservationFault _) = False"

lemma outcome_programmed:
  "mso_programmed (resolve_managed_status_outcome input ready g) = runtime_ready input"
  "mso_observation_fault (resolve_managed_status_outcome input ready g) \<noteq> None \<Longrightarrow> \<not> runtime_ready input"
  by (cases input; simp add: Let_def)+

lemma enrich_accepted [simp]: "lsi_accepted (enrich_intent ap i) = lsi_accepted i" "lsi_name (enrich_intent ap i) = lsi_name i"
  by (auto simp: enrich_intent_def Let_def split: option.split)

lemma intent_accepted:
  "map lsi_accepted (listener_status_intents_with_attachment gw ap) = map (\<lambda>l. ln_protocol l \<noteq> UDP) (gw_listeners gw)"
  "map lsi_name (listener_status_intents_with_attachment gw ap) = map ln_name (gw_listeners gw)"
  by (auto simp: listener_status_intents_with_attachment_def listener_status_intents_def Let_def listener_status_intent_def
      comp_def split: option.split)

lemma validated_intents:
  "map lsi_accepted (listener_status_intents_with_attachment_with_tls_validation gw ap sn) =
     map (\<lambda>l. ln_protocol l \<noteq> UDP) (gw_listeners gw)"
  "map lsi_name (listener_status_intents_with_attachment_with_tls_validation gw ap sn) = map ln_name (gw_listeners gw)"
proof -
  have len: "length (gw_listeners gw) = length (listener_status_intents_with_attachment gw ap)"
    using intent_accepted(2) [of gw ap] by (metis length_map)
  have "map lsi_accepted (map (\<lambda>(l, i). if P l i then f i else i) (zip xs ys)) = map lsi_accepted ys \<and>
      map lsi_name (map (\<lambda>(l, i). if P l i then f i else i) (zip xs ys)) = map lsi_name ys"
    if "length xs = length ys" "\<And>i. lsi_accepted (f i) = lsi_accepted i" "\<And>i. lsi_name (f i) = lsi_name i"
    for P f and xs :: "Listener list" and ys :: "ListenerStatusIntent list"
    using that by (induction xs ys rule: list_induct2) auto
  from this [OF len, where f = "\<lambda>i. i\<lparr>lsi_resolved_refs := False, lsi_resolved_refs_reason := Some ''InvalidCertificateRef''\<rparr>"]
  show "map lsi_accepted (listener_status_intents_with_attachment_with_tls_validation gw ap sn) =
     map (\<lambda>l. ln_protocol l \<noteq> UDP) (gw_listeners gw)"
   "map lsi_name (listener_status_intents_with_attachment_with_tls_validation gw ap sn) = map ln_name (gw_listeners gw)"
    using intent_accepted [of gw ap]
    by (simp_all add: listener_status_intents_with_attachment_with_tls_validation_def Let_def split: option.split)
qed

lemma listener_status_reports:
  "lst_name (listener_status_of now out i) = lsi_name i"
  "reports (lst_conditions (listener_status_of now out i)) ''Accepted'' (lsi_accepted i)"
  "reports (lst_conditions (listener_status_of now out i)) ''Programmed''
     (mso_observation_fault out = None \<and> mso_programmed out \<and> lsi_accepted i)"
  by (auto simp: listener_status_of_def reports_def condition_defs listener_resolved_refs_condition_def Let_def split: option.split)

text \<open>
  When a Gateway is reported programmed: exactly when the observed Deployment has converged and this
  reconcile neither started a rollout nor created or changed the Deployment, whether the store is ready or not. The
  status has one condition per listener in the order of the specification, accepted unless the protocol is
  UDP, and a listener is reported programmed exactly when it is accepted and its Gateway is programmed.
\<close>

theorem programmed_iff_ready:
  "let result = build_managed_runtime_status now gw ns name input; status = gateway_status_of now gw result addresses in
   fst (snd result) = runtime_ready input \<and> reports (gst_conditions status) ''Programmed'' (runtime_ready input) \<and>
   reports (gst_conditions status) ''Accepted'' True \<and>
   list_all2 (\<lambda>l st. lst_name st = ln_name l \<and> reports (lst_conditions st) ''Accepted'' (ln_protocol l \<noteq> UDP) \<and>
     reports (lst_conditions st) ''Programmed'' (ln_protocol l \<noteq> UDP \<and> runtime_ready input))
     (gw_listeners gw) (gst_listeners status)"
proof -
  define result status where "result = build_managed_runtime_status now gw ns name input"
    and "status = gateway_status_of now gw result addresses"
  let ?out = "\<lambda>ready. resolve_managed_status_outcome input ready (meta_generation (gw_metadata gw))"
  have shape: "\<exists>ready ap sn. result = (map (listener_status_of now (?out ready))
      (listener_status_intents_with_attachment_with_tls_validation gw ap sn), mso_programmed (?out ready),
      mso_only_store_not_ready (?out ready), mso_observation_fault (?out ready))"
    unfolding result_def build_managed_runtime_status_def Let_def by blast
  then obtain ready ap sn where result: "result = (map (listener_status_of now (?out ready))
      (listener_status_intents_with_attachment_with_tls_validation gw ap sn), mso_programmed (?out ready),
      mso_only_store_not_ready (?out ready), mso_observation_fault (?out ready))" by blast
  note ready = outcome_programmed [of input ready "meta_generation (gw_metadata gw)"]
  have fault: "mso_observation_fault (?out ready) = None \<and> runtime_ready input \<longleftrightarrow> runtime_ready input" using ready(2) by blast
  have ls: "list_all2 (\<lambda>l st. lst_name st = ln_name l \<and> reports (lst_conditions st) ''Accepted'' (ln_protocol l \<noteq> UDP) \<and>
      reports (lst_conditions st) ''Programmed'' (ln_protocol l \<noteq> UDP \<and> runtime_ready input))
      (gw_listeners gw) (gst_listeners status)"
  proof -
    have "list_all2 (\<lambda>l i. (ln_protocol l \<noteq> UDP) = lsi_accepted i \<and> ln_name l = lsi_name i) (gw_listeners gw)
        (listener_status_intents_with_attachment_with_tls_validation gw ap sn)"
      using validated_intents [of gw ap sn] by (auto simp: list_all2_conv_all_nth list_eq_iff_nth_eq)
    then show ?thesis
      unfolding status_def result gateway_status_of_def prod.case GatewayStatus.simps list_all2_map2
    proof (rule list_all2_mono)
      fix l :: Listener and i :: ListenerStatusIntent assume li: "(ln_protocol l \<noteq> UDP) = lsi_accepted i \<and> ln_name l = lsi_name i"
      from listener_status_reports [of now "?out ready" i] fault
      show "lst_name (listener_status_of now (?out ready) i) = ln_name l \<and>
          reports (lst_conditions (listener_status_of now (?out ready) i)) ''Accepted'' (ln_protocol l \<noteq> UDP) \<and>
          reports (lst_conditions (listener_status_of now (?out ready) i)) ''Programmed'' (ln_protocol l \<noteq> UDP \<and> runtime_ready input)"
        unfolding li [THEN conjunct1] li [THEN conjunct2] ready(1) by (simp add: conj_commute conj_left_commute)
    qed
  qed
  have "reports (build_gateway_conditions now (runtime_ready input) f w g) ''Programmed'' (runtime_ready input) \<and>
      reports (build_gateway_conditions now (runtime_ready input) f w g) ''Accepted'' True" for f w g
    by (auto simp: build_gateway_conditions_def reports_def condition_defs Let_def split: option.split)
  with ls show ?thesis unfolding result_def [symmetric] status_def [symmetric] Let_def
    by (simp add: status_def result gateway_status_of_def ready(1))
qed

section \<open>Reconciling again\<close>

text \<open>Reads of the owned ConfigMap and Deployment return what is stored, and succeed where there is something.\<close>

definition gets_agree :: "'w kube \<Rightarrow> 'w look \<Rightarrow> bool" where
  "gets_agree K look =
     ((\<forall>ns n w r w'. k_get_configmap K ns n w = (r, w') \<longrightarrow>
         look w' = look w \<and> (\<forall>c. r = Inr c \<longrightarrow> look w KConfigMap ns n = Some (ConfigMapObj c))) \<and>
      (\<forall>ns n w r w'. k_get_deployment K ns n w = (r, w') \<longrightarrow>
         look w' = look w \<and> (\<forall>d. r = Inr d \<longrightarrow> look w KDeployment ns n = Some (DeploymentObj d))))"

definition gets_up :: "'w kube \<Rightarrow> 'w look \<Rightarrow> bool" where
  "gets_up K look =
     ((\<forall>ns n w c. look w KConfigMap ns n = Some (ConfigMapObj c) \<longrightarrow> is_ok (fst (k_get_configmap K ns n w))) \<and>
      (\<forall>ns n w d. look w KDeployment ns n = Some (DeploymentObj d) \<longrightarrow> is_ok (fst (k_get_deployment K ns n w))))"

lemma annotated_configmap:
  "annotated look w KConfigMap ns n k v \<longleftrightarrow>
     (\<exists>c. look w KConfigMap ns n = Some (ConfigMapObj c) \<and> Option.bind (meta_annotations (cm_metadata c)) (\<lambda>a. hm_get a k) = Some v)"
proof -
  have "object_kind obj = KConfigMap \<longleftrightarrow> (\<exists>c. obj = ConfigMapObj c)" for obj by (cases obj) auto
  then show ?thesis by (auto simp: annotated_def)
qed

lemma annotated_deployment:
  "annotated look w KDeployment ns n k v \<longleftrightarrow>
     (\<exists>d. look w KDeployment ns n = Some (DeploymentObj d) \<and> Option.bind (meta_annotations (dep_metadata d)) (\<lambda>a. hm_get a k) = Some v)"
proof -
  have "object_kind obj = KDeployment \<longleftrightarrow> (\<exists>d. obj = DeploymentObj d)" for obj by (cases obj) auto
  then show ?thesis by (auto simp: annotated_def)
qed

lemma observe_Ok:
  assumes "gets_agree (cx_client ctx) look" "observe_runtime_state ctx gw ns s = (Inr obs, s')"
  shows "look (ctl_cluster s') = look (ctl_cluster s)" "ctl_store s' = ctl_store s"
    "\<exists>b. owned_object_base_name (cx_libs ctx) (name_any (gw_metadata gw)) = Ok b \<and>
       (\<forall>h. ors_current_config_hash obs = Some h \<longrightarrow>
          annotated look (ctl_cluster s) KConfigMap ns (config_map_name b) CONFIG_REVISION_ANNOTATION h)"
proof -
  from assms(2) obtain b rc w1 rd w2 ch where b: "owned_object_base_name (cx_libs ctx) (name_any (gw_metadata gw)) = Ok b"
    and cm: "k_get_configmap (cx_client ctx) ns (config_map_name b) (ctl_cluster s) = (rc, w1)"
    and dep: "k_get_deployment (cx_client ctx) ns (deployment_name b) w1 = (rd, w2)"
    and s': "s' = s\<lparr>ctl_cluster := w2\<rparr>" and obs: "ors_current_config_hash obs = ch"
    and ch: "case rc of Inr c \<Rightarrow> ch = Option.bind (meta_annotations (cm_metadata c)) (\<lambda>a. hm_get a CONFIG_REVISION_ANNOTATION)
      | Inl e \<Rightarrow> ch = None"
    unfolding observe_runtime_state_def Let_def io_simps
    by (elim exE conjE) (auto simp: io_simps split: sum.splits if_splits)
  from assms(1) cm dep have same: "look w1 = look (ctl_cluster s)" "look w2 = look w1"
    and read: "\<And>c. rc = Inr c \<Longrightarrow> look (ctl_cluster s) KConfigMap ns (config_map_name b) = Some (ConfigMapObj c)"
    by (auto simp: gets_agree_def)
  show "look (ctl_cluster s') = look (ctl_cluster s)" "ctl_store s' = ctl_store s" using s' same by simp_all
  have "\<forall>h. ors_current_config_hash obs = Some h \<longrightarrow>
      annotated look (ctl_cluster s) KConfigMap ns (config_map_name b) CONFIG_REVISION_ANNOTATION h"
    using ch read obs by (cases rc) (auto simp: annotated_configmap)
  with b show "\<exists>b. owned_object_base_name (cx_libs ctx) (name_any (gw_metadata gw)) = Ok b \<and>
       (\<forall>h. ors_current_config_hash obs = Some h \<longrightarrow>
          annotated look (ctl_cluster s) KConfigMap ns (config_map_name b) CONFIG_REVISION_ANNOTATION h)" by blast
qed

lemma observe_applied:
  assumes "gets_agree (cx_client ctx) look" "gets_up (cx_client ctx) look"
    "owned_object_base_name (cx_libs ctx) (name_any (gw_metadata gw)) = Ok b"
    "annotated look (ctl_cluster s) KConfigMap ns (config_map_name b) CONFIG_REVISION_ANNOTATION ch"
    "annotated look (ctl_cluster s) KDeployment ns (deployment_name b) SPEC_REVISION_ANNOTATION sh"
  shows "\<exists>obs w. observe_runtime_state ctx gw ns s = (Inr obs, s\<lparr>ctl_cluster := w\<rparr>) \<and> look w = look (ctl_cluster s) \<and>
    ors_current_config_hash obs = Some ch \<and> ors_current_spec_hash obs = Some sh"
proof -
  from assms(4) obtain c where c: "look (ctl_cluster s) KConfigMap ns (config_map_name b) = Some (ConfigMapObj c)"
    "Option.bind (meta_annotations (cm_metadata c)) (\<lambda>a. hm_get a CONFIG_REVISION_ANNOTATION) = Some ch"
    unfolding annotated_configmap by blast
  from assms(5) obtain d where d: "look (ctl_cluster s) KDeployment ns (deployment_name b) = Some (DeploymentObj d)"
    "Option.bind (meta_annotations (dep_metadata d)) (\<lambda>a. hm_get a SPEC_REVISION_ANNOTATION) = Some sh"
    unfolding annotated_deployment by blast
  from assms(2) c(1) have "is_ok (fst (k_get_configmap (cx_client ctx) ns (config_map_name b) (ctl_cluster s)))"
    by (simp add: gets_up_def)
  then obtain c' w1 where cm: "k_get_configmap (cx_client ctx) ns (config_map_name b) (ctl_cluster s) = (Inr c', w1)"
    by (auto simp: is_ok_iff prod_eq_iff)
  with assms(1) c(1) have c': "c' = c" and w1: "look w1 = look (ctl_cluster s)" by (auto simp: gets_agree_def)
  from assms(2) d(1) w1 have "is_ok (fst (k_get_deployment (cx_client ctx) ns (deployment_name b) w1))"
    by (simp add: gets_up_def)
  then obtain d' w2 where dep: "k_get_deployment (cx_client ctx) ns (deployment_name b) w1 = (Inr d', w2)"
    by (auto simp: is_ok_iff prod_eq_iff)
  with assms(1) have "look w2 = look w1" "look w1 KDeployment ns (deployment_name b) = Some (DeploymentObj d')"
    by (auto simp: gets_agree_def)
  with d(1) w1 have d': "d' = d" and w2: "look w2 = look (ctl_cluster s)" by simp_all
  show ?thesis
    using cm dep c' d' c(2) d(2) w2
    by (auto simp: observe_runtime_state_def Let_def io_try_def io_panics_def map_err_def assms(3) io_attempt_def io_return_def
        observe_deployment_def)
qed

lemma managed_runtime_Ok:
  assumes "reconcile_managed_runtime ctx gw ns name s = (Inr (obs, res, snap), s')"
  obtains s1 sn plan where "observe_runtime_state ctx gw ns s = (Inr obs, s1)"
    "planner_snapshot (ctl_store s1) = SnapshotReady sn" "snap = SnapshotReady sn"
    "GatewayRuntimePlanner_plan (cx_libs ctx) \<lparr>rpi_gateway_namespace = ns, rpi_gateway_name = name, rpi_snapshot = sn,
       rpi_controller_config = cx_controller_config ctx, rpi_observed = obs\<rparr> = Ok plan"
    "apply_runtime_plan (cx_toml_from_str ctx) (cx_client ctx) plan s1 = (Inr res, s')"
proof -
  from assms obtain x s1 where obs: "observe_runtime_state ctx gw ns s = (Inr x, s1)"
    unfolding reconcile_managed_runtime_def io_try_Ok_iff [of "observe_runtime_state ctx gw ns"] by blast
  note rest = assms [unfolded reconcile_managed_runtime_def, unfolded io_try_def [of "observe_runtime_state ctx gw ns"] obs
    prod.case sum.case, unfolded io_try_def [of "io_read _"] io_read_def prod.case sum.case]
  show thesis
  proof (cases "planner_snapshot (ctl_store s1)")
    case NotReady
    with rest show thesis by (simp add: io_fail_def)
  next
    case (SnapshotReady sn)
    with rest obs show thesis by (auto simp: io_simps map_err_Ok_iff intro: that)
  qed
qed

text \<open>
  A Gateway that was reconciled stays as it is. After a reconcile of the managed runtime has succeeded,
  the next one on an API that answers succeeds as well and changes nothing: the ConfigMap is left alone, no
  ServiceAccount, Service or Deployment counts as created or changed, no rollout starts, and it plans from the
  same snapshot.
\<close>

theorem reconcile_again_is_noop:
  fixes ctx :: "'w Context"
  assumes "reads_agree (cx_client ctx) look" "applies_one (cx_client ctx) look" "gets_agree (cx_client ctx) look"
    and "api_up (cx_client ctx)" "gets_up (cx_client ctx) look"
    and "reconcile_managed_runtime ctx gw ns (name_any (gw_metadata gw)) s = (Ok (obs, res, snap), s')"
  shows "\<exists>obs' s''. reconcile_managed_runtime ctx gw ns (name_any (gw_metadata gw)) s' =
    (Ok (obs', \<lparr>rar2_service_account_created = False, rar2_config_result = Some ApplyNoOp, rar2_service_changed = False,
       rar2_deployment_changed = False, rar2_rollout_triggered = False\<rparr>, snap), s'')"
proof -
  let ?K = "cx_client ctx" and ?name = "name_any (gw_metadata gw)"
  let ?input = "\<lambda>sn obs. \<lparr>rpi_gateway_namespace = ns, rpi_gateway_name = ?name, rpi_snapshot = sn,
    rpi_controller_config = cx_controller_config ctx, rpi_observed = obs\<rparr>"
  obtain s1 sn plan where obs: "observe_runtime_state ctx gw ns s = (Inr obs, s1)"
    and ready: "planner_snapshot (ctl_store s1) = SnapshotReady sn" "snap = SnapshotReady sn"
    and plan: "GatewayRuntimePlanner_plan (cx_libs ctx) (?input sn obs) = Ok plan"
    and apply_run: "apply_runtime_plan (cx_toml_from_str ctx) ?K plan s1 = (Inr res, s')"
    using managed_runtime_Ok [OF assms(6)] by metis
  obtain b where b: "owned_object_base_name (cx_libs ctx) ?name = Ok b"
    and seen: "\<And>h. ors_current_config_hash obs = Some h \<Longrightarrow>
      annotated look (ctl_cluster s) KConfigMap ns (config_map_name b) CONFIG_REVISION_ANNOTATION h"
    using observe_Ok(3) [OF assms(3) obs] by blast
  have names: "grp_gateway_namespace plan = ns" "grp_config_map_name plan = config_map_name b"
    "grp_deployment_name plan = deployment_name b"
    using plan_Ok_inputs(1,3) [OF plan] b by auto
  have changed: "grp_config_changed plan \<longleftrightarrow> ors_current_config_hash obs \<noteq> Some (grp_config_hash plan)"
    using plan_Ok_fields(3) [OF plan] by simp
  have "annotated look (ctl_cluster s1) KConfigMap (grp_gateway_namespace plan) (grp_config_map_name plan)
      CONFIG_REVISION_ANNOTATION (grp_config_hash plan) \<or> grp_config_changed plan"
    using seen changed observe_Ok(1) [OF assms(3) obs] by (auto simp: annotated_def names)
  note after = apply_Ok [OF assms(1,2) apply_run this]
  obtain obs' w where again: "observe_runtime_state ctx gw ns s' = (Inr obs', s'\<lparr>ctl_cluster := w\<rparr>)"
    and w: "look w = look (ctl_cluster s')" and hashes: "ors_current_config_hash obs' = Some (grp_config_hash plan)"
      "ors_current_spec_hash obs' = Some (grp_spec_hash plan)"
    using observe_applied [OF assms(3,5) b, of s' ns "grp_config_hash plan" "grp_spec_hash plan"] after(1)
    by (auto simp: plan_applied_def names)
  let ?plan = "plan\<lparr>grp_config_changed := False, grp_spec_changed := False\<rparr>" and ?s = "s'\<lparr>ctl_cluster := w\<rparr>"
  have replan: "GatewayRuntimePlanner_plan (cx_libs ctx) (?input sn obs') = Ok ?plan"
    using plan_observed [OF plan, of obs'] hashes by simp
  have "plan_applied look ?plan (ctl_cluster ?s)" "plan_applicable (cx_toml_from_str ctx) ?plan"
    using after(1,3) w
    by (simp_all add: plan_applied_def plan_targets_def owned_at_def annotated_def plan_applicable_def build_pod_volumes_and_mounts_def)
  from apply_noop [OF assms(1,2,4) this] obtain s'' where
    run: "apply_runtime_plan (cx_toml_from_str ctx) ?K ?plan ?s =
      (Inr \<lparr>rar2_service_account_created = False, rar2_config_result = Some ApplyNoOp, rar2_service_changed = False,
       rar2_deployment_changed = False, rar2_rollout_triggered = False\<rparr>, s'')"
    by (auto simp: is_noop_def)
  have "planner_snapshot (ctl_store ?s) = SnapshotReady sn" using after(2) ready(1) by simp
  then show ?thesis
    by (simp add: reconcile_managed_runtime_def io_try_def again io_read_def io_result_def map_err_def replan io_map_err_def run
        io_return_def ready(2))
qed

section \<open>Effects of the handler\<close>

lemma keeps_gateway [keeps_rules]: "keeps (store_reached s0) (reconcile_gateway ctx now gw)"
  unfolding reconcile_gateway_def lookup_gateway_class_def reconcile_managed_gateway_def reconcile_managed_runtime_def
    observe_runtime_state_def get_gateway_addresses_def service_addresses_def load_balancer_addresses_def
    write_gateway_status_def ReconcileMetrics_record_success_def update_gateway_metrics_def Let_def
  by (intro keeps_rules) (auto intro!: keeps_rules split: SnapshotResult.split)

text \<open>
  A Gateway of a class that another controller manages is left alone: no call after the class lookup, no change
  of the store.
\<close>

lemma foreign_class_ignored:
  assumes "meta_deletion_timestamp (gw_metadata gw) = None"
    "get_gateway_class (ctl_store s) (gs_gateway_class_name (gw_spec gw)) = Some gc" "\<not> is_wicket_managed gc"
  shows "\<exists>ms. reconcile_gateway ctx now gw s = (Ok AwaitChange, s\<lparr>ctl_metrics := ms\<rparr>)"
  using assms
  by (auto simp: reconcile_gateway_def lookup_gateway_class_def Let_def io_try_def io_read_def io_return_def
      ReconcileMetrics_record_success_def io_metric_def)

text \<open>
  A failed observation is reported before it is retried. When reading the owned objects fails, the
  Gateway's status is brought to not programmed with the fault in its message, through the same write as in the normal
  case, and only then the handler fails with that fault, so that the error policy requeues it; no success is counted
  and the stored Gateway keeps its old status.
\<close>

theorem observation_fault_reported:
  assumes "reconcile_managed_runtime ctx gw ns name (s\<lparr>ctl_store := upsert_gateway (state_key ns name) gw (ctl_store s)\<rparr>) =
      (Err (CtlErr (MrObservationError msg)), s1)"
    and "get_gateway_addresses ctx ns name gw s1 = (Ok addresses :: GatewayError failure + GatewayAddress list, s2)"
  shows "reconcile_managed_gateway ctx now gw ns name s =
      (case write_gateway_status ctx ns name gw (reconciled_status now ns name (MriObservationFault msg) addresses gw) s2 of
         (Inl e, s3) \<Rightarrow> (Inl e, s3)
       | (Inr _, s3) \<Rightarrow> (Err (CtlErr (RuntimeApplyError msg)), s3)) \<and>
    (\<exists>c\<in>set (gst_conditions (reconciled_status now ns name (MriObservationFault msg) addresses gw)).
       cond_type c = ''Programmed'' \<and> cond_status c = ''False'' \<and> cond_reason c = ''ObservationFault'' \<and>
       cond_message c = ''Failed to observe owned runtime objects: '' @ msg)"
proof
  show "reconcile_managed_gateway ctx now gw ns name s =
      (case write_gateway_status ctx ns name gw (reconciled_status now ns name (MriObservationFault msg) addresses gw) s2 of
         (Inl e, s3) \<Rightarrow> (Inl e, s3)
       | (Inr _, s3) \<Rightarrow> (Err (CtlErr (RuntimeApplyError msg)), s3))"
    using assms
    by (simp add: reconcile_managed_gateway_def io_try_def io_store_def io_catch_def managed_input_of_def io_result_def map_err_def
        reconciled_status_def Let_def io_fail_def split: sum.split prod.split)
  let ?c = "with_observed_generation (meta_generation (gw_metadata gw)) (Condition_not_programmed_observation_fault now msg)"
  let ?st = "gateway_status_of now gw (build_managed_runtime_status now gw ns name (MriObservationFault msg)) addresses"
  have "?c \<in> set (gst_conditions ?st)"
    by (simp add: gateway_status_of_def build_managed_runtime_status_def build_gateway_conditions_def Let_def)
  then have "untimed ?c \<in> untimed ` set (gst_conditions ?st)" by simp
  also have "untimed ` set (gst_conditions ?st) = untimed ` set (gst_conditions (desired_gateway_status gw ?st))"
    using untimed_desired [of gw ?st] by (metis untimed_status_conditions list.set_map)
  finally show "\<exists>c\<in>set (gst_conditions (reconciled_status now ns name (MriObservationFault msg) addresses gw)).
       cond_type c = ''Programmed'' \<and> cond_status c = ''False'' \<and> cond_reason c = ''ObservationFault'' \<and>
       cond_message c = ''Failed to observe owned runtime objects: '' @ msg"
    by (auto simp: untimed_eq_iff condition_defs reconciled_status_def)
qed

section \<open>Examples\<close>

lemma example_gets: "gets_agree example_kube example_look" "gets_up example_kube example_look"
  by (auto simp: gets_agree_def gets_up_def example_kube_def example_look_def split: option.splits k8s_object.splits)

lemma example_reconciled:
  "is_ok (fst (reconcile_managed_runtime example_ctx ex_gateway ''infra'' ''gw'' ((example_ctl [])\<lparr>ctl_store := ex_store\<rparr>)))"
  by code_simp

theorem reconcile_again_is_noop_witness:
  "\<exists>first s' obs' res' snap' s''.
     reconcile_managed_runtime example_ctx ex_gateway ''infra'' ''gw'' ((example_ctl [])\<lparr>ctl_store := ex_store\<rparr>) = (Ok first, s') \<and>
     reconcile_managed_runtime example_ctx ex_gateway ''infra'' ''gw'' s' = (Ok (obs', res', snap'), s'') \<and>
     rar2_config_result res' = Some ApplyNoOp \<and> \<not> rar2_rollout_triggered res'"
proof -
  let ?run = "reconcile_managed_runtime example_ctx ex_gateway ''infra'' ''gw''"
  have name: "name_any (gw_metadata ex_gateway) = ''gw''" by (simp add: ex_gateway_def ex_meta_def name_any_def)
  have client: "cx_client example_ctx = example_kube" by (simp add: example_ctx_def)
  obtain obs res snap s' where first: "?run ((example_ctl [])\<lparr>ctl_store := ex_store\<rparr>) = (Ok (obs, res, snap), s')"
    using example_reconciled by (metis is_ok_iff prod.collapse)
  from reconcile_again_is_noop [of example_ctx example_look ex_gateway, unfolded client name,
      OF example_reads example_applies example_gets(1) example_up example_gets(2) first] first
  show ?thesis by auto
qed

text \<open>A controller without permission to read ConfigMaps.\<close>

definition forbidden_ctx :: "example_cluster Context" where
  "forbidden_ctx = example_ctx\<lparr>cx_client := example_kube\<lparr>k_get_configmap :=
     (\<lambda>_ _ w. (Err \<lparr>ke_code = Some 403, ke_display = ''forbidden''\<rparr>, w))\<rparr>\<rparr>"

theorem observation_fault_reported_witness:
  "\<exists>msg s'. reconcile_managed_gateway forbidden_ctx ''now'' ex_gateway ''infra'' ''gw'' (example_ctl []) =
     (Err (CtlErr (RuntimeApplyError msg)), s')"
proof -
  let ?s = "(example_ctl [] :: example_cluster ctl)\<lparr>ctl_store := upsert_gateway (state_key ''infra'' ''gw'') ex_gateway SharedStore_new\<rparr>"
  let ?msg = "''ConfigMap infra/'' @ config_map_name ''wicket-gw-gw'' @ '': forbidden''"
  have base: "owned_object_base_name example_libs (name_any (gw_metadata ex_gateway)) = Ok ''wicket-gw-gw''"
    "owned_object_base_name example_libs ''gw'' = Ok ''wicket-gw-gw''" by code_simp+
  have s: "(example_ctl [])\<lparr>ctl_store := upsert_gateway (state_key ''infra'' ''gw'') ex_gateway
      (ctl_store (example_ctl [] :: example_cluster ctl))\<rparr> = ?s" by (simp add: example_ctl_def)
  have fault: "reconcile_managed_runtime forbidden_ctx ex_gateway ''infra'' ''gw'' ?s = (Err (CtlErr (MrObservationError ?msg)), ?s)"
    by (simp add: reconcile_managed_runtime_def observe_runtime_state_def forbidden_ctx_def example_ctx_def base io_try_def io_panics_def
        io_attempt_def map_err_def io_fail_def Let_def)
  have addresses: "get_gateway_addresses forbidden_ctx ''infra'' ''gw'' ex_gateway ?s =
      (Ok [] :: GatewayError failure + GatewayAddress list, ?s)"
    by (simp add: get_gateway_addresses_def forbidden_ctx_def example_ctx_def base io_try_def io_panics_def io_attempt_def map_err_def
        io_return_def Let_def example_kube_def example_ctl_def ex_gateway_def)
  from observation_fault_reported [OF fault [folded s] addresses [folded s], of "''now''"] show ?thesis
    by (auto simp: write_gateway_status_def gateway_needs_patch_def io_call_def forbidden_ctx_def example_ctx_def example_kube_def
        map_err_def ex_gateway_def)
qed

end
