(* ===== verification/Route_Reconcilers.thy ===== *)
theory Route_Reconcilers
  imports Reconciler_Common
begin

text \<open>
  The HTTPRoute, TCPRoute and TLSRoute reconcilers (\<^verbatim>\<open>reconcilers/httproute.rs\<close>, \<^verbatim>\<open>tcproute.rs\<close>, \<^verbatim>\<open>tlsroute.rs\<close>).
  The three files repeat the lookup of the parent Gateway, the plan cache, the check of a named
  listener and the translation of a planner result; the repeated code is one definition here, with the protocol
  check as its argument. Lemmas: which parents are accepted, that the plan cache changes no result, what ends up in
  the store, and that the status of an HTTPRoute settles.
\<close>

section \<open>Shared steps\<close>

text \<open>The error enumerations of the three reconcilers.\<close>

datatype RouteError =
  RouteKubeError kube_error
| RouteParentNotFound string
| RouteBackendNotFound string
| RouteConfigError string

datatype parent_lookup = ParentMissing | ParentForeign | ParentManaged Gateway

definition lookup_parent :: "'w Context \<Rightarrow> string \<Rightarrow> string \<Rightarrow> ('w, RouteError, parent_lookup) io" where
  "lookup_parent ctx parent_ns parent_name =
     io_try (io_attempt (k_get_gateway (cx_client ctx) parent_ns parent_name)) (\<lambda>gateway.
     case gateway of
       Inl e \<Rightarrow> if ke_code e = Some 404 then io_return ParentMissing else io_fail (RouteKubeError e)
     | Inr gateway \<Rightarrow>
         io_try (io_attempt (k_get_gateway_class (cx_client ctx) (gs_gateway_class_name (gw_spec gateway)))) (\<lambda>gc_result.
         io_try (case gc_result of
                   Inr gc \<Rightarrow> io_return (is_wicket_managed gc)
                 | Inl e \<Rightarrow> if ke_code e = Some 404 then io_return False else io_fail (RouteKubeError e)) (\<lambda>is_wicket.
         io_return (if is_wicket then ParentManaged gateway else ParentForeign))))"

text \<open>A \<^verbatim>\<open>for\<close> loop over a state.\<close>

fun io_fold :: "('a \<Rightarrow> 's \<Rightarrow> ('w, 'e, 's) io) \<Rightarrow> 'a list \<Rightarrow> 's \<Rightarrow> ('w, 'e, 's) io" where
  "io_fold f [] acc = io_return acc"
| "io_fold f (x # xs) acc = io_try (f x acc) (io_fold f xs)"

definition only_condition_from_spec ::
  "(ProtocolType \<Rightarrow> bool) \<Rightarrow> string \<Rightarrow> Gateway \<Rightarrow> string \<Rightarrow> u16 option \<Rightarrow> Condition" where
  "only_condition_from_spec compatible now gateway section_name port =
     (case find (\<lambda>l. ln_name l = section_name) (gw_listeners gateway) of
        Some listener \<Rightarrow>
          if \<not> compatible (ln_protocol listener) then
            Condition_new now ''Accepted'' False ''NotAllowedByListenerProtocol''
              ''Route kind is not compatible with the listener protocol''
          else
            (case port of
               Some ref_port \<Rightarrow>
                 if ln_port listener \<noteq> ref_port then
                   Condition_new now ''Accepted'' False ''NoMatchingParent''
                     ''No listener matches the parentRef sectionName or port''
                 else Condition_accepted now
             | None \<Rightarrow> Condition_accepted now)
      | None \<Rightarrow>
          Condition_new now ''Accepted'' False ''NoMatchingParent'' ''No listener matches the parentRef sectionName'')"

definition is_http :: "ProtocolType \<Rightarrow> bool" where
  "is_http p = (p = HTTP \<or> p = HTTPS)"

definition http_only_condition_from_spec :: "string \<Rightarrow> Gateway \<Rightarrow> string \<Rightarrow> u16 option \<Rightarrow> Condition" where
  "http_only_condition_from_spec = only_condition_from_spec is_http"

definition tcp_only_condition_from_spec :: "string \<Rightarrow> Gateway \<Rightarrow> string \<Rightarrow> u16 option \<Rightarrow> Condition" where
  "tcp_only_condition_from_spec = only_condition_from_spec (\<lambda>p. p = TCP)"

definition tls_only_condition_from_spec :: "string \<Rightarrow> Gateway \<Rightarrow> string \<Rightarrow> u16 option \<Rightarrow> Condition" where
  "tls_only_condition_from_spec = only_condition_from_spec (\<lambda>p. p = TLS)"

fun attachment_status_message :: "AttachmentStatus \<Rightarrow> string" where
  "attachment_status_message Attached = ''Route is accepted by the listener''"
| "attachment_status_message (RefNotPermitted _ _ _) = ''Route is accepted by the listener''"
| "attachment_status_message (BackendNotFound _ _ _) = ''Route is accepted by the listener''"
| "attachment_status_message NoMatchingParent = ''No listener matches the parentRef sectionName or port''"
| "attachment_status_message NotAllowedByListenerProtocol = ''Route kind is not compatible with the listener protocol''"
| "attachment_status_message NotAllowedByListenerNamespacePolicy =
     ''Route namespace is not allowed by the listener AllowedRoutes namespace policy''"
| "attachment_status_message NotAllowedByListenerKindPolicy = ''Route kind is not in the listener AllowedRoutes kinds list''"
| "attachment_status_message NoMatchingListenerHostname = ''No route hostname intersects with the listener hostname''"

text \<open>
  The plan of a Gateway, computed once per Gateway and generation in one reconcile; no plan when the snapshot is
  not ready or the planner fails.
\<close>

type_synonym plan_cache = "(string \<times> string \<times> int, AttachmentPlan) hashmap"

definition cached_plan ::
  "PlannerSnapshot SnapshotResult \<Rightarrow> Gateway \<Rightarrow> plan_cache \<Rightarrow> AttachmentPlan option \<times> plan_cache" where
  "cached_plan snapshot_result gateway plan_cache =
     (case snapshot_result of
        NotReady \<Rightarrow> (None, plan_cache)
      | SnapshotReady snapshot \<Rightarrow>
          (let gw_ns = namespace_or_default (gw_metadata gateway); gw_name = name_or_empty (gw_metadata gateway);
               gw_generation = unwrap_or (meta_generation (gw_metadata gateway)) 0;
               cache_key = (gw_ns, gw_name, gw_generation) in
           if \<not> hm_contains plan_cache cache_key then
             (case AttachmentPlanner_plan \<lparr>api_gateway_namespace = gw_ns, api_gateway_name = gw_name,
                     api_gateway_generation = gw_generation, api_snapshot = snapshot\<rparr> of
                Inr plan \<Rightarrow> (let plan_cache = hm_insert cache_key plan plan_cache in (hm_get plan_cache cache_key, plan_cache))
              | Inl _ \<Rightarrow> (None, plan_cache))
           else (hm_get plan_cache cache_key, plan_cache)))"

section \<open>HTTPRoute\<close>

definition preserve_httproute_status_timestamps :: "HTTPRouteStatus \<Rightarrow> HTTPRouteStatus \<Rightarrow> HTTPRouteStatus" where
  "preserve_httproute_status_timestamps new_status existing =
     new_status\<lparr>hrst_parents := map (\<lambda>new_parent.
       case find (\<lambda>p. rps_parent_ref p = rps_parent_ref new_parent) (hrst_parents existing) of
         None \<Rightarrow> new_parent
       | Some prev \<Rightarrow> new_parent\<lparr>rps_conditions :=
           preserve_condition_timestamps (rps_conditions new_parent) (rps_conditions prev)\<rparr>) (hrst_parents new_status)\<rparr>"

definition httproute_status_semantically_equal :: "HTTPRouteStatus \<Rightarrow> HTTPRouteStatus \<Rightarrow> bool" where
  "httproute_status_semantically_equal a b =
     (if length (hrst_parents a) \<noteq> length (hrst_parents b) then False
      else list_all (\<lambda>(x, y). rps_parent_ref x = rps_parent_ref y \<and> rps_controller_name x = rps_controller_name y \<and>
             conditions_semantically_equal (rps_conditions x) (rps_conditions y)) (zip (hrst_parents a) (hrst_parents b)))"

definition build_route_parent_status ::
  "string \<Rightarrow> ParentReference \<Rightarrow> string \<Rightarrow> Condition \<Rightarrow> int option \<Rightarrow> Condition option \<Rightarrow> RouteParentStatus" where
  "build_route_parent_status now parent_ref controller_name accepted_condition route_generation resolved_refs_condition =
     \<lparr>rps_parent_ref = parent_ref, rps_controller_name = controller_name,
      rps_conditions = [with_observed_generation route_generation accepted_condition,
        with_observed_generation route_generation (unwrap_or resolved_refs_condition (Condition_resolved_refs now))]\<rparr>"

definition condition_from_plan_http ::
  "string \<Rightarrow> AttachmentPlan \<Rightarrow> Gateway \<Rightarrow> string \<Rightarrow> string \<Rightarrow> string \<Rightarrow> u16 option \<Rightarrow> Condition \<times> Condition option" where
  "condition_from_plan_http now plan gateway route_namespace rname section_name port =
     (case result_for_route_parent_ref plan route_namespace rname section_name port of
        Some r \<Rightarrow>
          if is_attached (rar_status r) then
            (Condition_accepted now, map_option (\<lambda>reason. Condition_new now ''ResolvedRefs'' False reason
               ''Backend reference could not be resolved'') (resolved_refs_reason (rar_status r)))
          else (Condition_new now ''Accepted'' False (accepted_reason (rar_status r))
                 (attachment_status_message (rar_status r)), None)
      | None \<Rightarrow> (http_only_condition_from_spec now gateway section_name port, None))"

definition planner_parent_conditions_for_section_cached ::
  "string \<Rightarrow> PlannerSnapshot SnapshotResult \<Rightarrow> Gateway \<Rightarrow> string \<Rightarrow> string \<Rightarrow> string \<Rightarrow> u16 option \<Rightarrow> plan_cache \<Rightarrow>
   (Condition \<times> Condition option) \<times> plan_cache" where
  "planner_parent_conditions_for_section_cached now snapshot_result gateway route_namespace rname section_name port
       plan_cache =
     (case cached_plan snapshot_result gateway plan_cache of
        (None, plan_cache) \<Rightarrow> ((http_only_condition_from_spec now gateway section_name port, None), plan_cache)
      | (Some plan, plan_cache) \<Rightarrow>
          (condition_from_plan_http now plan gateway route_namespace rname section_name port, plan_cache))"

definition http_route_gateway_wide_condition_from_spec :: "string \<Rightarrow> Gateway \<Rightarrow> u16 option \<Rightarrow> Condition \<times> Condition option" where
  "http_route_gateway_wide_condition_from_spec now gateway port =
     (let matching_http = list_ex (\<lambda>l. is_http (ln_protocol l) \<and> (case port of None \<Rightarrow> True | Some p \<Rightarrow> ln_port l = p))
            (gw_listeners gateway) in
      if matching_http then (Condition_accepted now, None)
      else (Condition_new now ''Accepted'' False ''NoMatchingParent''
              ''Gateway has no HTTP/HTTPS listener matching the parentRef port'', None))"

type_synonym parents_acc = "RouteParentStatus list \<times> bool \<times> plan_cache"

definition http_parent_ref ::
  "'w Context \<Rightarrow> string \<Rightarrow> PlannerSnapshot SnapshotResult \<Rightarrow> string \<Rightarrow> string \<Rightarrow> int option \<Rightarrow> ParentReference \<Rightarrow> parents_acc \<Rightarrow>
   ('w, RouteError, parents_acc) io" where
  "http_parent_ref ctx now snapshot_result namespace name route_generation parent_ref = (\<lambda>(parent_statuses, has_valid_parent, plan_cache).
     let parent_ns = unwrap_or (pr_namespace parent_ref) namespace;
         status = (\<lambda>accepted resolved. build_route_parent_status now parent_ref WICKET_CONTROLLER_NAME accepted route_generation resolved) in
     io_try (lookup_parent ctx parent_ns (pr_name parent_ref)) (\<lambda>parent.
     case parent of
       ParentMissing \<Rightarrow>
         io_return (parent_statuses @ [status (Condition_new now ''Accepted'' False ''InvalidParentRef'' ''Parent Gateway not found'') None],
           has_valid_parent, plan_cache)
     | ParentForeign \<Rightarrow>
         io_return (parent_statuses @ [status (Condition_new now ''Accepted'' False ''InvalidParentRef''
           ''Gateway is not managed by Wicket'') None], has_valid_parent, plan_cache)
     | ParentManaged gateway \<Rightarrow>
         (let ((accepted_condition, resolved_refs_condition), plan_cache) =
                (case pr_section_name parent_ref of
                   Some section_name \<Rightarrow> planner_parent_conditions_for_section_cached now snapshot_result gateway namespace name
                     section_name (pr_port parent_ref) plan_cache
                 | None \<Rightarrow> (http_route_gateway_wide_condition_from_spec now gateway (pr_port parent_ref), plan_cache));
              is_accepted = (cond_status accepted_condition = ''True'') in
          io_return (parent_statuses @ [status accepted_condition resolved_refs_condition],
            has_valid_parent \<or> is_accepted, plan_cache))))"

definition count_accepted :: "string \<Rightarrow> string \<Rightarrow> RouteParentStatus list \<Rightarrow> ('w, 'e, unit) io" where
  "count_accepted namespace kind parents =
     io_for (\<lambda>p. if list_ex (\<lambda>c. cond_type c = ''Accepted'' \<and> cond_status c = ''True'') (rps_conditions p)
       then io_metric (GaugeRoutesAccepted namespace kind (pr_name (rps_parent_ref p))) 1 else io_return ()) parents"

definition count_rejected :: "string \<Rightarrow> string \<Rightarrow> RouteParentStatus list \<Rightarrow> ('w, 'e, unit) io" where
  "count_rejected namespace kind parents =
     io_for (\<lambda>p. io_for (\<lambda>c. if cond_type c = ''Accepted'' \<and> cond_status c = ''False''
       then io_metric (CounterRoutesRejected namespace kind (cond_reason c)) 1 else io_return ()) (rps_conditions p)) parents"

definition update_route_metrics :: "string \<Rightarrow> ('a \<Rightarrow> ObjectMeta) \<Rightarrow> ('w, 'a list) call \<Rightarrow> ('w, 'e, unit) io" where
  "update_route_metrics kind metadata call =
     io_try (io_attempt call) (\<lambda>result.
       case result of
         Inl _ \<Rightarrow> io_return ()
       | Inr items \<Rightarrow> io_for (\<lambda>(ns, count). io_metric (GaugeRoutes kind ns) count)
           (counts_of (map (\<lambda>route. namespace_or_empty (metadata route)) items)))"

definition update_httproute_metrics :: "'w Context \<Rightarrow> ('w, 'e, unit) io" where
  "update_httproute_metrics ctx = update_route_metrics ''HTTPRoute'' hr_metadata (k_list_http_routes (cx_client ctx))"

definition desired_http_status :: "HTTPRoute \<Rightarrow> HTTPRouteStatus \<Rightarrow> HTTPRouteStatus" where
  "desired_http_status route status =
     (case hr_status route of None \<Rightarrow> status | Some existing \<Rightarrow> preserve_httproute_status_timestamps status existing)"

definition http_needs_patch :: "HTTPRoute \<Rightarrow> HTTPRouteStatus \<Rightarrow> bool" where
  "http_needs_patch route status =
     (case hr_status route of None \<Rightarrow> True | Some existing \<Rightarrow> \<not> httproute_status_semantically_equal existing status)"

definition write_http_status :: "'w Context \<Rightarrow> string \<Rightarrow> string \<Rightarrow> HTTPRoute \<Rightarrow> HTTPRouteStatus \<Rightarrow> ('w, RouteError, unit) io" where
  "write_http_status ctx namespace name route status =
     (if http_needs_patch route status
      then io_call RouteKubeError (k_patch_http_status (cx_client ctx) namespace name status)
      else io_return ())"

definition store_http_route :: "string \<Rightarrow> string \<Rightarrow> HTTPRoute \<Rightarrow> HTTPRouteStatus \<Rightarrow> bool \<Rightarrow> ('w, RouteError, unit) io" where
  "store_http_route namespace name route status has_valid_parent =
     (if has_valid_parent then
        io_try (io_store (upsert_http_route (state_key namespace name) (route\<lparr>hr_status := Some status\<rparr>))) (\<lambda>_.
        count_accepted namespace ''HTTPRoute'' (hrst_parents status))
      else
        io_try (io_store (remove_http_route (state_key namespace name))) (\<lambda>_.
        count_rejected namespace ''HTTPRoute'' (hrst_parents status)))"

definition reconcile_httproute :: "'w Context \<Rightarrow> string \<Rightarrow> HTTPRoute \<Rightarrow> ('w, RouteError, Action) io" where
  "reconcile_httproute ctx now route =
     (let namespace = namespace_or_empty (hr_metadata route); name = name_any (hr_metadata route) in
      if meta_deletion_timestamp (hr_metadata route) \<noteq> None then
        io_try (io_store (remove_http_route (state_key namespace name))) (\<lambda>_. io_return AwaitChange)
      else
        io_try (io_read (\<lambda>s. planner_snapshot (ctl_store s))) (\<lambda>snapshot.
        io_try (io_fold (http_parent_ref ctx now snapshot namespace name (meta_generation (hr_metadata route)))
          (hrs_parent_refs (hr_spec route)) ([], False, [])) (\<lambda>(parent_statuses, has_valid_parent, _).
        let status = desired_http_status route \<lparr>hrst_parents = parent_statuses\<rparr> in
        io_try (write_http_status ctx namespace name route status) (\<lambda>_.
        io_try (store_http_route namespace name route status has_valid_parent) (\<lambda>_.
        io_try (ReconcileMetrics_record_success ''HTTPRoute'') (\<lambda>_.
        io_try (update_httproute_metrics ctx) (\<lambda>_.
        io_return (Requeue 60))))))))"

definition error_policy_route :: "string \<Rightarrow> RouteError \<Rightarrow> ('w, 'e, Action) io" where
  "error_policy_route kind err =
     io_try (io_metric (CounterReconcileError kind ''reconcile_error'') 1) (\<lambda>_. io_return (Requeue 5))"

section \<open>TCPRoute and TLSRoute\<close>

definition condition_from_plan ::
  "(string \<Rightarrow> Gateway \<Rightarrow> string \<Rightarrow> u16 option \<Rightarrow> Condition) \<Rightarrow> string \<Rightarrow> AttachmentPlan \<Rightarrow> Gateway \<Rightarrow> string \<Rightarrow> string \<Rightarrow>
   string \<Rightarrow> u16 option \<Rightarrow> Condition" where
  "condition_from_plan fallback now plan gateway route_namespace rname section_name port =
     (case result_for_route_parent_ref plan route_namespace rname section_name port of
        Some r \<Rightarrow>
          if is_attached (rar_status r) then Condition_accepted now
          else Condition_new now ''Accepted'' False (accepted_reason (rar_status r)) (attachment_status_message (rar_status r))
      | None \<Rightarrow> fallback now gateway section_name port)"

definition planner_accepted_condition_for_section_cached ::
  "(string \<Rightarrow> Gateway \<Rightarrow> string \<Rightarrow> u16 option \<Rightarrow> Condition) \<Rightarrow> string \<Rightarrow> PlannerSnapshot SnapshotResult \<Rightarrow> Gateway \<Rightarrow> string \<Rightarrow>
   string \<Rightarrow> string \<Rightarrow> u16 option \<Rightarrow> plan_cache \<Rightarrow> Condition \<times> plan_cache" where
  "planner_accepted_condition_for_section_cached fallback now snapshot_result gateway route_namespace rname section_name port
       plan_cache =
     (case cached_plan snapshot_result gateway plan_cache of
        (None, plan_cache) \<Rightarrow> (fallback now gateway section_name port, plan_cache)
      | (Some plan, plan_cache) \<Rightarrow>
          (condition_from_plan fallback now plan gateway route_namespace rname section_name port, plan_cache))"

definition stream_gateway_wide_condition :: "ProtocolType \<Rightarrow> string \<Rightarrow> string \<Rightarrow> Gateway \<Rightarrow> u16 option \<Rightarrow> Condition" where
  "stream_gateway_wide_condition protocol message now gateway port =
     (let matching = list_ex (\<lambda>l. ln_protocol l = protocol \<and> (case port of None \<Rightarrow> True | Some p \<Rightarrow> ln_port l = p))
            (gw_listeners gateway) in
      if matching then Condition_accepted now
      else Condition_new now ''Accepted'' False ''NoMatchingListener'' message)"

definition stream_parent_ref ::
  "(string \<Rightarrow> Gateway \<Rightarrow> string \<Rightarrow> u16 option \<Rightarrow> Condition) \<Rightarrow> (string \<Rightarrow> Gateway \<Rightarrow> u16 option \<Rightarrow> Condition) \<Rightarrow> 'w Context \<Rightarrow>
   string \<Rightarrow> PlannerSnapshot SnapshotResult \<Rightarrow> string \<Rightarrow> string \<Rightarrow> ParentReference \<Rightarrow> parents_acc \<Rightarrow> ('w, RouteError, parents_acc) io" where
  "stream_parent_ref fallback gateway_wide ctx now snapshot_result namespace name parent_ref =
     (\<lambda>(parent_statuses, has_valid_parent, plan_cache).
     let parent_ns = unwrap_or (pr_namespace parent_ref) namespace;
         status = (\<lambda>conditions. \<lparr>rps_parent_ref = parent_ref, rps_controller_name = WICKET_CONTROLLER_NAME,
           rps_conditions = conditions\<rparr>) in
     io_try (lookup_parent ctx parent_ns (pr_name parent_ref)) (\<lambda>parent.
     case parent of
       ParentMissing \<Rightarrow>
         io_return (parent_statuses @ [status [Condition_new now ''Accepted'' False ''InvalidParentRef'' ''Parent Gateway not found'']],
           has_valid_parent, plan_cache)
     | ParentForeign \<Rightarrow>
         io_return (parent_statuses @ [status [Condition_new now ''Accepted'' False ''InvalidParentRef''
           ''Gateway is not managed by Wicket'']], has_valid_parent, plan_cache)
     | ParentManaged gateway \<Rightarrow>
         (let (accepted_condition, plan_cache) =
                (case pr_section_name parent_ref of
                   Some section_name \<Rightarrow> planner_accepted_condition_for_section_cached fallback now snapshot_result gateway
                     namespace name section_name (pr_port parent_ref) plan_cache
                 | None \<Rightarrow> (gateway_wide now gateway (pr_port parent_ref), plan_cache));
              is_accepted = (cond_status accepted_condition = ''True'') in
          io_return (parent_statuses @ [status (if is_accepted then [accepted_condition, Condition_resolved_refs now]
              else [accepted_condition])], has_valid_parent \<or> is_accepted, plan_cache))))"

definition tcp_parent_ref ::
  "'w Context \<Rightarrow> string \<Rightarrow> PlannerSnapshot SnapshotResult \<Rightarrow> string \<Rightarrow> string \<Rightarrow> ParentReference \<Rightarrow> parents_acc \<Rightarrow>
   ('w, RouteError, parents_acc) io" where
  "tcp_parent_ref = stream_parent_ref tcp_only_condition_from_spec
     (stream_gateway_wide_condition TCP ''Gateway has no TCP listener matching the parentRef port'')"

definition tls_parent_ref ::
  "'w Context \<Rightarrow> string \<Rightarrow> PlannerSnapshot SnapshotResult \<Rightarrow> string \<Rightarrow> string \<Rightarrow> ParentReference \<Rightarrow> parents_acc \<Rightarrow>
   ('w, RouteError, parents_acc) io" where
  "tls_parent_ref = stream_parent_ref tls_only_condition_from_spec
     (stream_gateway_wide_condition TLS ''Gateway has no TLS listener matching the parentRef port'')"

definition reconcile_tcproute :: "'w Context \<Rightarrow> string \<Rightarrow> TCPRoute \<Rightarrow> ('w, RouteError, Action) io" where
  "reconcile_tcproute ctx now route =
     (let namespace = namespace_or_empty (tr_metadata route); name = name_any (tr_metadata route) in
      if meta_deletion_timestamp (tr_metadata route) \<noteq> None then
        io_try (io_store (remove_tcp_route (state_key namespace name))) (\<lambda>_. io_return AwaitChange)
      else
        io_try (io_read (\<lambda>s. planner_snapshot (ctl_store s))) (\<lambda>snapshot.
        io_try (io_fold (tcp_parent_ref ctx now snapshot namespace name) (trs_parent_refs (tr_spec route)) ([], False, []))
          (\<lambda>(parent_statuses, has_valid_parent, _).
        let status = \<lparr>trst_parents = parent_statuses\<rparr> in
        io_try (io_call RouteKubeError (k_patch_tcp_status (cx_client ctx) namespace name status)) (\<lambda>_.
        io_try (if has_valid_parent then
                  io_try (io_store (upsert_tcp_route (state_key namespace name) (route\<lparr>tr_status := Some status\<rparr>))) (\<lambda>_.
                  count_accepted namespace ''TCPRoute'' (trst_parents status))
                else
                  io_try (io_store (remove_tcp_route (state_key namespace name))) (\<lambda>_.
                  count_rejected namespace ''TCPRoute'' (trst_parents status))) (\<lambda>_.
        io_try (ReconcileMetrics_record_success ''TCPRoute'') (\<lambda>_.
        io_try (update_route_metrics ''TCPRoute'' tr_metadata (k_list_tcp_routes (cx_client ctx))) (\<lambda>_.
        io_return (Requeue 60))))))))"

definition reconcile_tlsroute :: "'w Context \<Rightarrow> string \<Rightarrow> TLSRoute \<Rightarrow> ('w, RouteError, Action) io" where
  "reconcile_tlsroute ctx now route =
     (let namespace = namespace_or_empty (lr_metadata route); name = name_any (lr_metadata route) in
      if meta_deletion_timestamp (lr_metadata route) \<noteq> None then
        io_try (io_store (remove_tls_route (state_key namespace name))) (\<lambda>_. io_return AwaitChange)
      else
        io_try (io_read (\<lambda>s. planner_snapshot (ctl_store s))) (\<lambda>snapshot.
        io_try (io_fold (tls_parent_ref ctx now snapshot namespace name) (lrs_parent_refs (lr_spec route)) ([], False, []))
          (\<lambda>(parent_statuses, has_valid_parent, _).
        let status = \<lparr>lrst_parents = parent_statuses\<rparr> in
        io_try (io_call RouteKubeError (k_patch_tls_status (cx_client ctx) namespace name status)) (\<lambda>_.
        io_try (if has_valid_parent then
                  io_try (io_store (upsert_tls_route (state_key namespace name) (route\<lparr>lr_status := Some status\<rparr>))) (\<lambda>_.
                  count_accepted namespace ''TLSRoute'' (lrst_parents status))
                else
                  io_try (io_store (remove_tls_route (state_key namespace name))) (\<lambda>_.
                  count_rejected namespace ''TLSRoute'' (lrst_parents status))) (\<lambda>_.
        io_try (ReconcileMetrics_record_success ''TLSRoute'') (\<lambda>_.
        io_try (update_route_metrics ''TLSRoute'' lr_metadata (k_list_tls_routes (cx_client ctx))) (\<lambda>_.
        io_return (Requeue 60))))))))"

section \<open>The plan cache\<close>

definition plan_of :: "PlannerSnapshot SnapshotResult \<Rightarrow> Gateway \<Rightarrow> AttachmentPlan option" where
  "plan_of snapshot_result gateway =
     (case snapshot_result of
        NotReady \<Rightarrow> None
      | SnapshotReady snapshot \<Rightarrow> ok_of (AttachmentPlanner_plan
          \<lparr>api_gateway_namespace = namespace_or_default (gw_metadata gateway), api_gateway_name = name_or_empty (gw_metadata gateway),
           api_gateway_generation = unwrap_or (meta_generation (gw_metadata gateway)) 0, api_snapshot = snapshot\<rparr>))"

definition cache_ok :: "PlannerSnapshot SnapshotResult \<Rightarrow> plan_cache \<Rightarrow> bool" where
  "cache_ok snapshot_result cache =
     (case snapshot_result of
        NotReady \<Rightarrow> True
      | SnapshotReady snapshot \<Rightarrow> (\<forall>ns n g plan. hm_get cache (ns, n, g) = Some plan \<longrightarrow>
          AttachmentPlanner_plan \<lparr>api_gateway_namespace = ns, api_gateway_name = n, api_gateway_generation = g,
            api_snapshot = snapshot\<rparr> = Ok plan))"

lemma cache_ok_Nil: "cache_ok snap []"
  by (simp add: cache_ok_def hm_get_def split: SnapshotResult.split)

lemma cached_plan_correct:
  assumes "cache_ok snap cache"
  shows "fst (cached_plan snap gw cache) = plan_of snap gw" "cache_ok snap (snd (cached_plan snap gw cache))"
  using assms
  by (auto simp: cached_plan_def plan_of_def cache_ok_def ok_of_def hm_contains_def hm_simps Let_def
      split: SnapshotResult.splits sum.splits option.splits)

section \<open>What becomes of a parent reference\<close>

text \<open>The conditions without the cache.\<close>

definition http_verdict ::
  "string \<Rightarrow> PlannerSnapshot SnapshotResult \<Rightarrow> string \<Rightarrow> string \<Rightarrow> ParentReference \<Rightarrow> parent_lookup \<Rightarrow> Condition \<times> Condition option" where
  "http_verdict now snap namespace name parent_ref parent =
     (case parent of
        ParentMissing \<Rightarrow> (Condition_new now ''Accepted'' False ''InvalidParentRef'' ''Parent Gateway not found'', None)
      | ParentForeign \<Rightarrow> (Condition_new now ''Accepted'' False ''InvalidParentRef'' ''Gateway is not managed by Wicket'', None)
      | ParentManaged gateway \<Rightarrow>
          (case pr_section_name parent_ref of
             None \<Rightarrow> http_route_gateway_wide_condition_from_spec now gateway (pr_port parent_ref)
           | Some section_name \<Rightarrow>
               (case plan_of snap gateway of
                  None \<Rightarrow> (http_only_condition_from_spec now gateway section_name (pr_port parent_ref), None)
                | Some plan \<Rightarrow> condition_from_plan_http now plan gateway namespace name section_name (pr_port parent_ref))))"

text \<open>When a listener takes part in the check of a parent reference, and when the reference is accepted.\<close>

definition spec_accepts :: "(ProtocolType \<Rightarrow> bool) \<Rightarrow> Gateway \<Rightarrow> ParentReference \<Rightarrow> bool" where
  "spec_accepts compatible gateway pr =
     (case pr_section_name pr of
        None \<Rightarrow> (\<exists>l\<in>set (gw_listeners gateway). compatible (ln_protocol l) \<and> (\<forall>p. pr_port pr = Some p \<longrightarrow> ln_port l = p))
      | Some section_name \<Rightarrow> (\<exists>l. find (\<lambda>l. ln_name l = section_name) (gw_listeners gateway) = Some l \<and>
          compatible (ln_protocol l) \<and> (\<forall>p. pr_port pr = Some p \<longrightarrow> ln_port l = p)))"

definition planned_result ::
  "PlannerSnapshot SnapshotResult \<Rightarrow> Gateway \<Rightarrow> string \<Rightarrow> string \<Rightarrow> ParentReference \<Rightarrow> RouteAttachmentResult option" where
  "planned_result snap gateway namespace name pr =
     Option.bind (pr_section_name pr) (\<lambda>sn. Option.bind (plan_of snap gateway) (\<lambda>plan.
       result_for_route_parent_ref plan namespace name sn (pr_port pr)))"

definition http_accepts :: "PlannerSnapshot SnapshotResult \<Rightarrow> string \<Rightarrow> string \<Rightarrow> ParentReference \<Rightarrow> parent_lookup \<Rightarrow> bool" where
  "http_accepts snap namespace name pr parent =
     (case parent of
        ParentManaged gateway \<Rightarrow>
          (case planned_result snap gateway namespace name pr of
             Some r \<Rightarrow> is_attached (rar_status r)
           | None \<Rightarrow> spec_accepts is_http gateway pr)
      | _ \<Rightarrow> False)"

lemma status_new [simp]: "cond_status (Condition_new now t b r m) = ''True'' \<longleftrightarrow> b" "cond_type (Condition_new now t b r m) = t"
  by (simp_all add: Condition_new_def)

lemma status_accepted [simp]: "cond_status (Condition_accepted now) = ''True''" "cond_type (Condition_accepted now) = ''Accepted''"
  by (simp_all add: Condition_accepted_def Condition_new_def)

lemma only_condition_iff:
  "cond_status (only_condition_from_spec ok now gw sn port) = ''True'' \<longleftrightarrow>
     (\<exists>l. find (\<lambda>l. ln_name l = sn) (gw_listeners gw) = Some l \<and> ok (ln_protocol l) \<and> (\<forall>p. port = Some p \<longrightarrow> ln_port l = p))"
  by (auto simp: only_condition_from_spec_def split: option.split)

lemma http_verdict_iff:
  "cond_status (fst (http_verdict now snap ns n pr parent)) = ''True'' \<longleftrightarrow> http_accepts snap ns n pr parent"
  by (auto simp: http_verdict_def http_accepts_def planned_result_def spec_accepts_def http_only_condition_from_spec_def
      http_route_gateway_wide_condition_from_spec_def condition_from_plan_http_def only_condition_iff list_ex_iff Let_def
      split: parent_lookup.split option.splits)

lemma http_verdict_type: "cond_type (fst (http_verdict now snap ns n pr parent)) = ''Accepted''"
  by (auto simp: http_verdict_def http_only_condition_from_spec_def only_condition_from_spec_def
      http_route_gateway_wide_condition_from_spec_def condition_from_plan_http_def Let_def
      split: parent_lookup.split option.splits)

text \<open>
  An API whose reads of Gateways and GatewayClasses do not change the cluster and give the same answers throughout the
  reconcile.
\<close>

definition steady ::
  "'w Context \<Rightarrow> (string \<Rightarrow> string \<Rightarrow> kube_error + Gateway) \<Rightarrow> (string \<Rightarrow> kube_error + GatewayClass) \<Rightarrow> bool" where
  "steady ctx gws gcs =
     ((\<forall>ns n w. k_get_gateway (cx_client ctx) ns n w = (gws ns n, w)) \<and>
      (\<forall>n w. k_get_gateway_class (cx_client ctx) n w = (gcs n, w)))"

definition parent_of ::
  "(string \<Rightarrow> string \<Rightarrow> kube_error + Gateway) \<Rightarrow> (string \<Rightarrow> kube_error + GatewayClass) \<Rightarrow> string \<Rightarrow> string \<Rightarrow> RouteError + parent_lookup" where
  "parent_of gws gcs ns n =
     (case gws ns n of
        Inl e \<Rightarrow> if ke_code e = Some 404 then Ok ParentMissing else Err (RouteKubeError e)
      | Inr gw \<Rightarrow>
          (case gcs (gs_gateway_class_name (gw_spec gw)) of
             Inr gc \<Rightarrow> Ok (if is_wicket_managed gc then ParentManaged gw else ParentForeign)
           | Inl e \<Rightarrow> if ke_code e = Some 404 then Ok ParentForeign else Err (RouteKubeError e)))"

lemma lookup_parent_steady:
  assumes "steady ctx gws gcs"
  shows "lookup_parent ctx ns n s = (map_err CtlErr (parent_of gws gcs ns n), s)"
  using assms
  by (auto simp: lookup_parent_def steady_def parent_of_def io_try_def io_attempt_def io_return_def io_fail_def map_err_def
      split: sum.split)

text \<open>The parents of a route: the Gateway behind each of its parent references.\<close>

definition parents_known ::
  "(string \<Rightarrow> string \<Rightarrow> kube_error + Gateway) \<Rightarrow> (string \<Rightarrow> kube_error + GatewayClass) \<Rightarrow> string \<Rightarrow> ParentReference list \<Rightarrow>
   (ParentReference \<Rightarrow> parent_lookup) \<Rightarrow> bool" where
  "parents_known gws gcs namespace prs par =
     (\<forall>pr\<in>set prs. parent_of gws gcs (unwrap_or (pr_namespace pr) namespace) (pr_name pr) = Ok (par pr))"

definition http_status_of ::
  "string \<Rightarrow> PlannerSnapshot SnapshotResult \<Rightarrow> string \<Rightarrow> string \<Rightarrow> int option \<Rightarrow> (ParentReference \<Rightarrow> parent_lookup) \<Rightarrow> ParentReference \<Rightarrow>
   RouteParentStatus" where
  "http_status_of now snap namespace name gen par pr =
     (let (accepted, resolved) = http_verdict now snap namespace name pr (par pr) in
      build_route_parent_status now pr WICKET_CONTROLLER_NAME accepted gen resolved)"

lemma http_parent_ref_steady:
  assumes "steady ctx gws gcs" "cache_ok snap cache"
    "parent_of gws gcs (unwrap_or (pr_namespace pr) ns) (pr_name pr) = Ok (par pr)"
  shows "\<exists>cache'. cache_ok snap cache' \<and>
    http_parent_ref ctx now snap ns n gen pr (sts, v, cache) s =
      (Inr (sts @ [http_status_of now snap ns n gen par pr], v \<or> http_accepts snap ns n pr (par pr), cache'), s)"
proof -
  let ?cache = "case (par pr, pr_section_name pr) of (ParentManaged gw, Some _) \<Rightarrow> snd (cached_plan snap gw cache) | _ \<Rightarrow> cache"
  have "cache_ok snap ?cache"
    using assms(2) cached_plan_correct(2) [OF assms(2)] by (auto split: parent_lookup.split option.split)
  moreover have "http_parent_ref ctx now snap ns n gen pr (sts, v, cache) s =
      (Inr (sts @ [http_status_of now snap ns n gen par pr], v \<or> http_accepts snap ns n pr (par pr), ?cache), s)"
    unfolding http_verdict_iff [of now, symmetric]
    by (auto simp: http_parent_ref_def io_try_def lookup_parent_steady [OF assms(1)] assms(3) map_err_def io_return_def
        http_status_of_def http_verdict_def planner_parent_conditions_for_section_cached_def Let_def
        cached_plan_correct(1) [OF assms(2), symmetric] split: parent_lookup.split option.split prod.split)
  ultimately show ?thesis by blast
qed

lemma http_loop_steady:
  assumes "steady ctx gws gcs" "cache_ok snap cache" "parents_known gws gcs ns prs par"
  shows "\<exists>cache'. io_fold (http_parent_ref ctx now snap ns n gen) prs (sts, v, cache) s =
    (Inr (sts @ map (http_status_of now snap ns n gen par) prs, v \<or> list_ex (\<lambda>pr. http_accepts snap ns n pr (par pr)) prs, cache'), s)"
  using assms(2,3)
proof (induction prs arbitrary: sts v cache)
  case (Cons pr prs)
  from Cons.prems(2) have "parent_of gws gcs (unwrap_or (pr_namespace pr) ns) (pr_name pr) = Ok (par pr)"
    "parents_known gws gcs ns prs par" by (simp_all add: parents_known_def)
  with http_parent_ref_steady [OF assms(1) Cons.prems(1), of pr ns par now n gen sts v s] obtain c where
    "cache_ok snap c" "http_parent_ref ctx now snap ns n gen pr (sts, v, cache) s =
      (Inr (sts @ [http_status_of now snap ns n gen par pr], v \<or> http_accepts snap ns n pr (par pr), c), s)" by blast
  with Cons.IH [OF this(1) \<open>parents_known gws gcs ns prs par\<close>, of "sts @ [http_status_of now snap ns n gen par pr]"
      "v \<or> http_accepts snap ns n pr (par pr)"] show ?case by (simp add: io_try_def)
qed (simp add: io_return_def)

section \<open>Outcome of a reconcile\<close>

text \<open>Handlers that only count: they succeed and leave the store alone.\<close>

definition quiet :: "('w, 'e, unit) io \<Rightarrow> bool" where
  "quiet m = (\<forall>s. \<exists>s'. m s = (Inr (), s') \<and> ctl_store s' = ctl_store s)"

lemma quiet_basic: "quiet (io_return ())" "quiet (io_metric g v)"
  by (simp_all add: quiet_def io_return_def io_metric_def)

lemma quiet_try: "quiet m \<Longrightarrow> quiet n \<Longrightarrow> quiet (io_try m (\<lambda>_. n))"
  unfolding quiet_def io_try_def by (metis (mono_tags, lifting) old.prod.case old.sum.simps(6))

lemma quiet_for: "(\<And>x. quiet (f x)) \<Longrightarrow> quiet (io_for f xs)"
  by (induction xs) (simp_all add: quiet_basic quiet_try)

lemma quiet_attempt:
  fixes c :: "('w, 'r) call"
  shows "(\<And>r. quiet (f r)) \<Longrightarrow> quiet (io_try (io_attempt c) f)"
  unfolding quiet_def
proof
  fix s :: "'w ctl" assume f: "\<And>r. \<forall>s. \<exists>s'. f r s = (Inr (), s') \<and> ctl_store s' = ctl_store s"
  obtain r w where c: "c (ctl_cluster s) = (r, w)" by fastforce
  from f [of r, rule_format, of "s\<lparr>ctl_cluster := w\<rparr>"]
  show "\<exists>s'. io_try (io_attempt c) f s = (Inr (), s') \<and> ctl_store s' = ctl_store s"
    by (auto simp: io_try_def io_attempt_def c)
qed

lemma quiet_counts:
  "quiet (count_accepted ns kind ps)" "quiet (count_rejected ns kind ps)" "quiet (ReconcileMetrics_record_success k)"
  "quiet (update_route_metrics kind md c)"
  unfolding count_accepted_def count_rejected_def ReconcileMetrics_record_success_def update_route_metrics_def
  by (intro quiet_for quiet_basic quiet_attempt; auto intro!: quiet_for quiet_basic split: sum.split)+

lemma quiet_httproute_metrics: "quiet (update_httproute_metrics ctx)"
  unfolding update_httproute_metrics_def by (rule quiet_counts)

lemma quietE:
  assumes "quiet m"
  obtains s' where "m s = (Inr (), s')" "ctl_store s' = ctl_store s"
  using assms unfolding quiet_def by blast

lemma quiet_step:
  assumes "quiet m"
  shows "\<exists>s'. io_try m f s = f () s' \<and> ctl_store s' = ctl_store s"
  using quietE [OF assms, of s] by (metis io_try_step)

lemma quiet_tail:
  assumes "quiet m"
  shows "\<exists>s'. io_try m (\<lambda>_. io_return a) s = (Inr a, s') \<and> ctl_store s' = ctl_store s"
  using quiet_step [OF assms, of "\<lambda>_. io_return a" s] by (auto simp: io_return_def)

lemma call_up: "is_ok (fst (c (ctl_cluster s))) \<Longrightarrow> \<exists>x w. io_call f c s = (Inr x, s\<lparr>ctl_cluster := w\<rparr>)"
  by (cases "c (ctl_cluster s)") (auto simp: io_call_def map_err_def is_ok_iff)

text \<open>What a status says about acceptance.\<close>

definition says_accepted :: "RouteParentStatus \<Rightarrow> bool \<Rightarrow> bool" where
  "says_accepted ps v =
     (map cond_status (filter (\<lambda>c. cond_type c = ''Accepted'') (rps_conditions ps)) = [if v then ''True'' else ''False''])"

lemma status_True_False: "cond_status (fst (http_verdict now snap ns n pr p)) \<in> {''True'', ''False''}"
  by (auto simp: http_verdict_def http_only_condition_from_spec_def only_condition_from_spec_def Condition_new_def
      Condition_accepted_def http_route_gateway_wide_condition_from_spec_def condition_from_plan_http_def Let_def
      split: parent_lookup.split option.splits)

lemma resolved_type: "\<forall>c. snd (http_verdict now snap ns n pr p) = Some c \<longrightarrow> cond_type c = ''ResolvedRefs''"
  by (auto simp: http_verdict_def http_route_gateway_wide_condition_from_spec_def condition_from_plan_http_def Condition_new_def
      Let_def split: parent_lookup.split option.splits)

lemma http_status_says: "says_accepted (http_status_of now snap ns n gen par pr) (http_accepts snap ns n pr (par pr))"
proof -
  obtain a r where v: "http_verdict now snap ns n pr (par pr) = (a, r)" by fastforce
  have a: "cond_type a = ''Accepted''" "cond_status a = (if http_accepts snap ns n pr (par pr) then ''True'' else ''False'')"
    using http_verdict_type [of now snap ns n pr "par pr"] http_verdict_iff [of now snap ns n pr "par pr"]
      status_True_False [of now snap ns n pr "par pr"] v by auto
  have "cond_type (unwrap_or r (Condition_resolved_refs now)) = ''ResolvedRefs''"
    using resolved_type [of now snap ns n pr "par pr"] v by (cases r) (auto simp: Condition_resolved_refs_def)
  with a show ?thesis
    by (simp add: says_accepted_def http_status_of_def v build_route_parent_status_def with_observed_generation_def)
qed

lemma says_preserved:
  "says_accepted (p\<lparr>rps_conditions := preserve_condition_timestamps (rps_conditions p) old\<rparr>) v = says_accepted p v"
proof -
  have "cond_type (preserve_timestamp old c) = cond_type c" "cond_status (preserve_timestamp old c) = cond_status c" for c
    by (simp_all add: preserve_timestamp_def split: option.split)
  then show ?thesis by (simp add: says_accepted_def preserve_condition_timestamps_def filter_map comp_def)
qed

lemma http_route_lookup:
  "hm_get (si_http_routes (ss_inner (upsert_http_route k r st))) k = Some r"
  "hm_get (si_http_routes (ss_inner (remove_http_route k st))) k = None"
  by (simp_all add: upsert_http_route_def remove_http_route_def write_indexed_def hm_simps Let_def)

lemma http_stored:
  "\<exists>s'. store_http_route ns n route status v s = (Inr (), s') \<and>
     hm_get (si_http_routes (ss_inner (ctl_store s'))) (state_key ns n) = (if v then Some (route\<lparr>hr_status := Some status\<rparr>) else None)"
proof -
  let ?s = "\<lambda>f. s\<lparr>ctl_store := f (ctl_store s)\<rparr>"
  let ?up = "?s (upsert_http_route (state_key ns n) (route\<lparr>hr_status := Some status\<rparr>))" and ?rm = "?s (remove_http_route (state_key ns n))"
  obtain s1 s2 where "count_accepted ns ''HTTPRoute'' (hrst_parents status) ?up = (Inr () :: RouteError failure + unit, s1)" "ctl_store s1 = ctl_store ?up"
    "count_rejected ns ''HTTPRoute'' (hrst_parents status) ?rm = (Inr () :: RouteError failure + unit, s2)" "ctl_store s2 = ctl_store ?rm"
    using quietE [OF quiet_counts(1)] quietE [OF quiet_counts(2)] by metis
  then show ?thesis
    by (simp add: store_http_route_def io_try_def io_store_def http_route_lookup)
qed

text \<open>
  Reconciling an HTTPRoute. When its parents can be looked up and the status can be written, the
  status has one entry per parent reference in order, accepted exactly when the Gateway is managed and the
  planner attaches the route to the named listener, or, without a verdict of the planner, the specification has a matching
  HTTP listener; and afterwards the store holds the route with exactly this status if some parent accepted it,
  and does not hold it otherwise.
\<close>

theorem httproute_reconciled:
  fixes route :: HTTPRoute
  assumes "steady ctx gws gcs" "meta_deletion_timestamp (hr_metadata route) = None"
    and "parents_known gws gcs (namespace_or_empty (hr_metadata route)) (hrs_parent_refs (hr_spec route)) par"
    and "\<forall>ns n st w. is_ok (fst (k_patch_http_status (cx_client ctx) ns n st w))"
  shows "let ns = namespace_or_empty (hr_metadata route); n = name_any (hr_metadata route);
      accepts = (\<lambda>pr. http_accepts (planner_snapshot (ctl_store s)) ns n pr (par pr)) in
    \<exists>status s'. reconcile_httproute ctx now route s = (Ok (Requeue 60), s') \<and>
      list_all2 (\<lambda>pr ps. rps_parent_ref ps = pr \<and> says_accepted ps (accepts pr)) (hrs_parent_refs (hr_spec route)) (hrst_parents status) \<and>
      hm_get (si_http_routes (ss_inner (ctl_store s'))) (state_key ns n) =
        (if list_ex accepts (hrs_parent_refs (hr_spec route)) then Some (route\<lparr>hr_status := Some status\<rparr>) else None)"
proof -
  let ?ns = "namespace_or_empty (hr_metadata route)" and ?n = "name_any (hr_metadata route)"
  let ?snap = "planner_snapshot (ctl_store s)" and ?prs = "hrs_parent_refs (hr_spec route)"
  let ?gen = "meta_generation (hr_metadata route)"
  let ?accepts = "\<lambda>pr. http_accepts ?snap ?ns ?n pr (par pr)"
  define sts where "sts = map (http_status_of now ?snap ?ns ?n ?gen par) ?prs"
  define status where "status = desired_http_status route \<lparr>hrst_parents = sts\<rparr>"
  have "list_all2 (\<lambda>pr ps. rps_parent_ref ps = pr \<and> says_accepted ps (?accepts pr)) ?prs sts"
    unfolding sts_def list_all2_map2
    by (rule list_all2_refl) (simp add: http_status_says, simp add: http_status_of_def build_route_parent_status_def split: prod.split)
  then have statuses: "list_all2 (\<lambda>pr ps. rps_parent_ref ps = pr \<and> says_accepted ps (?accepts pr)) ?prs (hrst_parents status)"
    by (cases "hr_status route")
      (auto simp: status_def desired_http_status_def preserve_httproute_status_timestamps_def list_all2_map2 says_preserved
        elim!: list_all2_mono split: option.split)
  obtain cache where loop: "io_fold (http_parent_ref ctx now ?snap ?ns ?n ?gen) ?prs ([], False, []) s =
      (Inr (sts, list_ex ?accepts ?prs, cache), s)"
    using http_loop_steady [OF assms(1) cache_ok_Nil assms(3), where now = now and n = ?n and gen = ?gen and sts = "[]" and v = False
        and s = s and snap = ?snap] unfolding sts_def by auto
  obtain s1 where patch: "write_http_status ctx ?ns ?n route status s = (Inr (), s1)"
    using call_up [of "k_patch_http_status (cx_client ctx) ?ns ?n status" s RouteKubeError] assms(4)
    by (cases "http_needs_patch route status") (auto simp: write_http_status_def io_return_def)
  let ?tail = "io_try (ReconcileMetrics_record_success ''HTTPRoute'') (\<lambda>_. io_try (update_httproute_metrics ctx) (\<lambda>_. io_return (Requeue 60)))"
  let ?store = "store_http_route ?ns ?n route status (list_ex ?accepts ?prs)"
  have run: "reconcile_httproute ctx now route s = io_try ?store (\<lambda>_. ?tail) s1"
    by (simp add: reconcile_httproute_def Let_def assms(2) io_read_def io_try_def [of "io_read _"] io_try_def [of "io_fold _ _ _"]
        io_try_def [of "write_http_status _ _ _ _ _"] loop status_def [symmetric] patch)
  obtain s2 where stored: "?store s1 = (Inr (), s2)"
    and s2: "hm_get (si_http_routes (ss_inner (ctl_store s2))) (state_key ?ns ?n) =
      (if list_ex ?accepts ?prs then Some (route\<lparr>hr_status := Some status\<rparr>) else None)"
    using http_stored [of ?ns ?n route status _ s1] by blast
  obtain s3 where "?tail s2 = (io_try (update_httproute_metrics ctx) (\<lambda>_. io_return (Requeue 60)) s3 :: (RouteError failure + Action) \<times> _)"
    "ctl_store s3 = ctl_store s2"
    using quiet_step [OF quiet_counts(3)] by blast
  moreover obtain s4 where
    "io_try (update_httproute_metrics ctx) (\<lambda>_. io_return (Requeue 60)) s3 = (Inr (Requeue 60) :: RouteError failure + Action, s4)"
    "ctl_store s4 = ctl_store s3"
    using quiet_tail [OF quiet_httproute_metrics [of ctx], of "Requeue 60" s3] by blast
  ultimately have tail: "?tail s2 = (Inr (Requeue 60) :: RouteError failure + Action, s4)" "ctl_store s4 = ctl_store s2"
    by (simp_all only:)
  have "reconcile_httproute ctx now route s = (Ok (Requeue 60), s4)"
    unfolding run io_try_def [of ?store] stored by (simp add: tail(1))
  with statuses s2 tail(2) show ?thesis unfolding Let_def
    by (intro exI [of _ status] exI [of _ s4]) (simp only: simp_thms)
qed

section \<open>Effects on the store\<close>

lemma keeps_fold [keeps_rules]: "(\<And>x acc. keeps P (f x acc)) \<Longrightarrow> keeps P (io_fold f xs acc)"
  by (induction xs arbitrary: acc) (simp_all add: keeps_rules)

lemma keeps_parent [keeps_rules]:
  "keeps P (lookup_parent ctx ns n)" "keeps P (http_parent_ref ctx now snap ns n gen pr acc)"
  "keeps P (stream_parent_ref fallback wide ctx now snap ns n pr acc)"
proof -
  show l: "keeps P (lookup_parent ctx ns n)" for ns n unfolding lookup_parent_def by (intro keeps_rules)
  show "keeps P (http_parent_ref ctx now snap ns n gen pr acc)"
    by (cases acc) (auto simp: http_parent_ref_def Let_def intro!: l keeps_rules split: parent_lookup.split)
  show "keeps P (stream_parent_ref fallback wide ctx now snap ns n pr acc)"
    by (cases acc) (auto simp: stream_parent_ref_def Let_def intro!: l keeps_rules split: parent_lookup.split)
qed

lemma keeps_routes [keeps_rules]:
  "keeps (store_reached s0) (reconcile_httproute ctx now hr)"
  "keeps (store_reached s0) (reconcile_tcproute ctx now tr)"
  "keeps (store_reached s0) (reconcile_tlsroute ctx now lr)"
  unfolding reconcile_httproute_def reconcile_tcproute_def reconcile_tlsroute_def write_http_status_def store_http_route_def
    ReconcileMetrics_record_success_def update_httproute_metrics_def update_route_metrics_def count_accepted_def count_rejected_def
    tcp_parent_ref_def tls_parent_ref_def Let_def
  by (intro keeps_rules)+

section \<open>Examples\<close>

definition ex_route :: HTTPRoute where
  "ex_route = ex_http_route ''a'' (ex_backend None ''api'')"

lemma example_steady:
  "steady example_ctx (\<lambda>ns n. if ns = ''infra'' \<and> n = ''gw'' then Ok ex_gateway else Err not_found)
     (\<lambda>n. if n = ''wicket'' then Ok example_class else Err not_found)"
  by (simp add: steady_def example_ctx_def example_kube_def)

theorem httproute_reconciled_witness:
  "\<exists>status s'. reconcile_httproute example_ctx ''now'' ex_route (example_ctl []) = (Ok (Requeue 60), s') \<and>
     length (hrst_parents status) = 2 \<and>
     hm_get (si_http_routes (ss_inner (ctl_store s'))) ''app/a'' = Some (ex_route\<lparr>hr_status := Some status\<rparr>)"
proof -
  let ?prs = "hrs_parent_refs (hr_spec ex_route)"
  have meta: "namespace_or_empty (hr_metadata ex_route) = ''app''" "name_any (hr_metadata ex_route) = ''a''"
    "meta_deletion_timestamp (hr_metadata ex_route) = None" "length ?prs = 2" by code_simp+
  have known: "parents_known (\<lambda>ns n. if ns = ''infra'' \<and> n = ''gw'' then Ok ex_gateway else Err not_found)
      (\<lambda>n. if n = ''wicket'' then Ok example_class else Err not_found) ''app'' ?prs (\<lambda>_. ParentManaged ex_gateway)"
    by (simp add: parents_known_def parent_of_def ex_route_def ex_http_route_def ex_parent_def ex_gateway_def
        is_wicket_managed_def example_class_def)
  have up: "\<forall>ns n st w. is_ok (fst (k_patch_http_status (cx_client example_ctx) ns n st w))"
    by (simp add: example_ctx_def example_kube_def)
  have accepts: "list_ex (\<lambda>pr. http_accepts (planner_snapshot (ctl_store (example_ctl [] :: example_cluster ctl))) ''app'' ''a'' pr
      (ParentManaged ex_gateway)) ?prs"
    by (simp add: http_accepts_def planned_result_def spec_accepts_def ex_route_def ex_http_route_def ex_parent_def ex_gateway_def
        ex_listener_def is_http_def)
  have key: "state_key ''app'' ''a'' = ''app/a''" by code_simp
  from httproute_reconciled [OF example_steady meta(3) known [folded meta(1)] up, of "example_ctl []" "''now''",
      unfolded Let_def meta(1,2) key if_P [OF accepts]]
  obtain status s' where "reconcile_httproute example_ctx ''now'' ex_route (example_ctl []) = (Ok (Requeue 60), s')"
    and parents: "list_all2 (\<lambda>pr ps. rps_parent_ref ps = pr \<and> says_accepted ps (http_accepts
      (planner_snapshot (ctl_store (example_ctl [] :: example_cluster ctl))) ''app'' ''a'' pr (ParentManaged ex_gateway)))
      ?prs (hrst_parents status)"
    and "hm_get (si_http_routes (ss_inner (ctl_store s'))) ''app/a'' = Some (ex_route\<lparr>hr_status := Some status\<rparr>)"
    by (elim exE conjE)
  moreover have "length (hrst_parents status) = 2" using list_all2_lengthD [OF parents] meta(4) by (simp only:)
  ultimately show ?thesis by (intro exI [of _ status] exI [of _ s'] conjI)
qed

text \<open>
  A route whose namespace the listener does not allow. Without a stored copy the planner has no result for it, and
  the check of the specification, which knows no namespace policy, accepts it; the stored copy is then
  rejected by the planner and removed again. So the verdict alternates from one reconcile to the next and never settles.
\<close>

definition same_ns_gateway :: Gateway where
  "same_ns_gateway = ex_gateway\<lparr>gw_spec := gw_spec ex_gateway\<lparr>gs_listeners := [ex_listener\<lparr>ln_allowed_routes := None\<rparr>]\<rparr>\<rparr>"

definition flapping_ctx :: "example_cluster Context" where
  "flapping_ctx = example_ctx\<lparr>cx_client := example_kube\<lparr>k_get_gateway := (\<lambda>_ _ w. (Ok same_ns_gateway, w))\<rparr>\<rparr>"

definition flapping_route :: HTTPRoute where
  "flapping_route = ex_route\<lparr>hr_spec := hr_spec ex_route\<lparr>hrs_parent_refs := [ex_parent (Some ''web'')]\<rparr>\<rparr>"

definition flapping_start :: "example_cluster ctl" where
  "flapping_start = (example_ctl [])\<lparr>ctl_store := foldl store_step SharedStore_new
     (map MarkListed ResourceClass_ALL @ [UpsertGateway ''infra/gw'' same_ns_gateway])\<rparr>"

definition flap :: "example_cluster ctl \<Rightarrow> example_cluster ctl" where
  "flap s = snd (reconcile_httproute flapping_ctx ''now'' flapping_route s)"

definition flap_stored :: "example_cluster ctl \<Rightarrow> bool" where
  "flap_stored s = hm_contains (si_http_routes (ss_inner (ctl_store s))) ''app/a''"

theorem rejected_route_flaps:
  "flap_stored (flap flapping_start) \<and> \<not> flap_stored (flap (flap flapping_start)) \<and>
   flap_stored (flap (flap (flap flapping_start)))"
  by (intro conjI) code_simp+

end
