(* ===== verification/Spec2Isabelle.thy ===== *)
theory Spec2Isabelle
  imports Sni Sni_Router Proxy_Protocol Stream_Upstream Wicket_Config Stream_Proxy Http_Router Http_Proxy
    Cert_Store Acme Wicket_Main Gateway_Reconciler Route_Reconcilers
begin

text \<open>
  Verification of the Wicket proxy.
\<close>

end
